(* ===== verification/Prelude.thy ===== *)
theory Prelude
  imports Complex_Main "HOL-Library.Word" "HOL-Library.Char_ord" "HOL-Library.List_Lexorder"
    "HOL-Library.Product_Lexorder" "HOL-Library.Sublist"
begin

section \<open>Prelude: types, the error monad and list lemmas\<close>

text \<open>
  What every component of the development shares.

  \<^item> The names of the machine types. An unsigned Rust integer (\<open>u32\<close>, \<open>u64\<close>,
    \<open>usize\<close>) is a natural number and a signed one an integer; every operation of the
    source that can overflow is checked there (\<open>checked_add\<close>, \<open>try_from\<close>,
    \<open>saturating_sub\<close>) and its bound is written out here (\<open>U64_MAX\<close>, \<open>I64_MAX\<close>).
    A \<open>Uuid\<close> is a 128-bit word, ordered as its bytes and as its canonical text are.
  \<^item> The error monad on sums (\<open>Inl\<close> is \<open>Err\<close>, \<open>Inr\<close> is \<open>Ok\<close>) with the
    loops the source writes with \<open>?\<close>, and the state monad of operations that mutate a
    store and keep what they wrote when they return an error.
  \<^item> \<open>str::trim\<close>, decimal printing and parsing, and lemmas on rows keyed by an
    identifier.
\<close>

named_theorems result_simps \<open>rewriting of the error monad and of the state monad\<close>
named_theorems table_simps \<open>rewriting of keyed row lists\<close>
named_theorems keeps_intros \<open>invariant preservation of state-monad programs\<close>

type_synonym uuid = "128 word"
type_synonym byte = "8 word"
type_synonym bytes = "8 word list"

definition U64_MAX :: nat where "U64_MAX = 18446744073709551615"
definition U32_MAX :: nat where "U32_MAX = 4294967295"
definition I64_MAX :: nat where "I64_MAX = 9223372036854775807"
definition I64_MIN :: int where "I64_MIN = - 9223372036854775808"

text \<open>\<open>i64::saturating_sub\<close> and \<open>i64::checked_add\<close>.\<close>

definition saturating_sub_i64 :: "int \<Rightarrow> int \<Rightarrow> int" where
  "saturating_sub_i64 a b = max I64_MIN (min (int I64_MAX) (a - b))"

definition checked_add_i64 :: "int \<Rightarrow> int \<Rightarrow> int option" where
  "checked_add_i64 a b =
     (if I64_MIN \<le> a + b \<and> a + b \<le> int I64_MAX then Some (a + b) else None)"

definition checked_add_u64 :: "nat \<Rightarrow> nat \<Rightarrow> nat option" where
  "checked_add_u64 a b = (if a + b \<le> U64_MAX then Some (a + b) else None)"

subsection \<open>The error monad\<close>

fun bindr :: "'e + 'a \<Rightarrow> ('a \<Rightarrow> 'e + 'b) \<Rightarrow> 'e + 'b" where
  "bindr (Inl e) f = Inl e"
| "bindr (Inr a) f = f a"

fun map_err :: "('e \<Rightarrow> 'f) \<Rightarrow> 'e + 'a \<Rightarrow> 'f + 'a" where
  "map_err f (Inl e) = Inl (f e)"
| "map_err f (Inr a) = Inr a"

definition ensure :: "bool \<Rightarrow> 'e \<Rightarrow> 'e + unit" where
  "ensure b e = (if b then Inr () else Inl e)"

fun ok_or :: "'a option \<Rightarrow> 'e \<Rightarrow> 'e + 'a" where
  "ok_or None e = Inl e"
| "ok_or (Some a) e = Inr a"

text \<open>The loop \<open>for x in xs { f(x)?; }\<close>, and the same with a value threaded through.\<close>

fun for_each :: "'a list \<Rightarrow> ('a \<Rightarrow> 'e + unit) \<Rightarrow> 'e + unit" where
  "for_each [] f = Inr ()"
| "for_each (x # xs) f = bindr (f x) (\<lambda>_. for_each xs f)"

fun fold_r :: "('s \<Rightarrow> 'a \<Rightarrow> 'e + 's) \<Rightarrow> 's \<Rightarrow> 'a list \<Rightarrow> 'e + 's" where
  "fold_r f s [] = Inr s"
| "fold_r f s (x # xs) = bindr (f s x) (\<lambda>s'. fold_r f s' xs)"

fun is_ok :: "'e + 'a \<Rightarrow> bool" where
  "is_ok (Inl e) = False"
| "is_ok (Inr a) = True"

text \<open>Every error of a result satisfies a predicate.\<close>

definition errs :: "('e \<Rightarrow> bool) \<Rightarrow> 'e + 'a \<Rightarrow> bool" where
  "errs P m \<longleftrightarrow> (\<forall>e. m = Inl e \<longrightarrow> P e)"

subsection \<open>Operations on a mutable store\<close>

text \<open>
  A Rust method that mutates a store and may return an error is a function from the state
  to its result and the state it leaves: what it wrote before an \<open>Err\<close> stays written.
  \<open>tx\<close> is a database transaction: an error inside leaves the state as it was.
\<close>

type_synonym ('s, 'e, 'a) op = "'s \<Rightarrow> ('e + 'a) \<times> 's"

definition returnS :: "'a \<Rightarrow> ('s, 'e, 'a) op" where
  "returnS a = (\<lambda>s. (Inr a, s))"

definition failS :: "'e \<Rightarrow> ('s, 'e, 'a) op" where
  "failS e = (\<lambda>s. (Inl e, s))"

definition bindS :: "('s, 'e, 'a) op \<Rightarrow> ('a \<Rightarrow> ('s, 'e, 'b) op) \<Rightarrow> ('s, 'e, 'b) op" where
  "bindS m f = (\<lambda>s. case m s of (Inl e, s') \<Rightarrow> (Inl e, s') | (Inr a, s') \<Rightarrow> f a s')"

definition liftS :: "'e + 'a \<Rightarrow> ('s, 'e, 'a) op" where
  "liftS r = (\<lambda>s. (r, s))"

definition askS :: "('s \<Rightarrow> 'e + 'a) \<Rightarrow> ('s, 'e, 'a) op" where
  "askS f = (\<lambda>s. (f s, s))"

definition modifyS :: "('s \<Rightarrow> 's) \<Rightarrow> ('s, 'e, unit) op" where
  "modifyS f = (\<lambda>s. (Inr (), f s))"

definition tx :: "('s, 'e, 'a) op \<Rightarrow> ('s, 'e, 'a) op" where
  "tx m = (\<lambda>s. case m s of (Inl e, s') \<Rightarrow> (Inl e, s) | (Inr a, s') \<Rightarrow> (Inr a, s'))"

fun forS :: "'a list \<Rightarrow> ('a \<Rightarrow> ('s, 'e, unit) op) \<Rightarrow> ('s, 'e, unit) op" where
  "forS [] f = returnS ()"
| "forS (x # xs) f = bindS (f x) (\<lambda>_. forS xs f)"

definition keeps :: "('s \<Rightarrow> bool) \<Rightarrow> ('s, 'e, 'a) op \<Rightarrow> bool" where
  "keeps P m \<longleftrightarrow> (\<forall>s. P s \<longrightarrow> P (snd (m s)))"

subsection \<open>Strings\<close>

text \<open>
  \<open>str::trim\<close> removes the characters with the Unicode property \<open>White_Space\<close>. A string
  is its UTF-8 bytes; \<open>ws_len\<close> gives the number of bytes of the white-space character a
  byte string starts with, 0 if it starts with none, and \<open>ws_len_rev\<close> does so for a
  reversed string.
\<close>

definition ascii_ws :: "nat \<Rightarrow> bool" where
  "ascii_ws n \<longleftrightarrow> (9 \<le> n \<and> n \<le> 13) \<or> n = 32"

definition wide_ws :: "nat \<Rightarrow> nat \<Rightarrow> nat \<Rightarrow> bool" where
  "wide_ws a b c \<longleftrightarrow>
     (a = 225 \<and> b = 154 \<and> c = 128) \<or>
     (a = 226 \<and> b = 128 \<and> (128 \<le> c \<and> c \<le> 138 \<or> c = 168 \<or> c = 169 \<or> c = 175)) \<or>
     (a = 226 \<and> b = 129 \<and> c = 159) \<or>
     (a = 227 \<and> b = 128 \<and> c = 128)"

definition ws_len :: "nat list \<Rightarrow> nat" where
  "ws_len s =
     (case s of [] \<Rightarrow> 0
      | a # s' \<Rightarrow> if ascii_ws a then 1
        else (case s' of [] \<Rightarrow> 0
          | b # s'' \<Rightarrow> if a = 194 \<and> (b = 133 \<or> b = 160) then 2
            else (case s'' of [] \<Rightarrow> 0 | c # _ \<Rightarrow> if wide_ws a b c then 3 else 0)))"

definition ws_len_rev :: "nat list \<Rightarrow> nat" where
  "ws_len_rev s =
     (case s of [] \<Rightarrow> 0
      | c # s' \<Rightarrow> if ascii_ws c then 1
        else (case s' of [] \<Rightarrow> 0
          | b # s'' \<Rightarrow> if b = 194 \<and> (c = 133 \<or> c = 160) then 2
            else (case s'' of [] \<Rightarrow> 0 | a # _ \<Rightarrow> if wide_ws a b c then 3 else 0)))"

function strip_ws :: "(nat list \<Rightarrow> nat) \<Rightarrow> string \<Rightarrow> string" where
  "strip_ws w s = (if w (map of_char s) = 0 \<or> s = [] then s else strip_ws w (drop (w (map of_char s)) s))"
  by pat_completeness auto
termination
  by (relation "measure (\<lambda>(w, s). length s)") auto

declare strip_ws.simps [simp del]

definition trim :: "string \<Rightarrow> string" where
  "trim s = rev (strip_ws ws_len_rev (rev (strip_ws ws_len s)))"

definition blank :: "string \<Rightarrow> bool" where
  "blank s \<longleftrightarrow> trim s = []"

text \<open>\<open>str::strip_prefix\<close> and \<open>str::split_once\<close> (at the first occurrence).\<close>

fun strip_prefix :: "string \<Rightarrow> string \<Rightarrow> string option" where
  "strip_prefix [] s = Some s"
| "strip_prefix (p # ps) [] = None"
| "strip_prefix (p # ps) (c # cs) = (if p = c then strip_prefix ps cs else None)"

fun split_once :: "string \<Rightarrow> string \<Rightarrow> (string \<times> string) option" where
  "split_once d [] = (if d = [] then Some ([], []) else None)"
| "split_once d (c # cs) =
     (case strip_prefix d (c # cs) of
        Some rest \<Rightarrow> Some ([], rest)
      | None \<Rightarrow> map_option (\<lambda>(a, b). (c # a, b)) (split_once d cs))"

text \<open>\<open>[String]::join\<close>.\<close>

fun join :: "string \<Rightarrow> string list \<Rightarrow> string" where
  "join sep [] = []"
| "join sep [x] = x"
| "join sep (x # y # zs) = x @ sep @ join sep (y # zs)"

text \<open>Decimal \<open>Display\<close> and \<open>FromStr\<close> of an unsigned integer.\<close>

definition digit_char :: "nat \<Rightarrow> char" where
  "digit_char d = char_of (48 + d)"

function show_nat :: "nat \<Rightarrow> string" where
  "show_nat n = (if n < 10 then [digit_char n] else show_nat (n div 10) @ [digit_char (n mod 10)])"
  by pat_completeness auto
termination
  by (relation "measure id") auto

declare show_nat.simps [simp del]

definition digit_val :: "char \<Rightarrow> nat option" where
  "digit_val c = (let n = of_char c in if 48 \<le> n \<and> n \<le> 57 then Some (n - 48) else None)"

fun parse_digits :: "nat \<Rightarrow> string \<Rightarrow> nat option" where
  "parse_digits acc [] = Some acc"
| "parse_digits acc (c # cs) =
     (case digit_val c of
        None \<Rightarrow> None
      | Some d \<Rightarrow> if acc * 10 + d \<le> U64_MAX then parse_digits (acc * 10 + d) cs else None)"

definition parse_u64 :: "string \<Rightarrow> nat option" where
  "parse_u64 s =
     (let t = (case s of c # cs \<Rightarrow> if c = CHR ''+'' then cs else s | [] \<Rightarrow> [])
      in if t = [] then None else parse_digits 0 t)"

subsection \<open>Rows keyed by an identifier\<close>

definition row_of :: "('r \<Rightarrow> 'k) \<Rightarrow> 'r list \<Rightarrow> 'k \<Rightarrow> 'r option" where
  "row_of key t k = find (\<lambda>r. key r = k) t"

definition rows_update :: "('r \<Rightarrow> bool) \<Rightarrow> ('r \<Rightarrow> 'r) \<Rightarrow> 'r list \<Rightarrow> 'r list" where
  "rows_update p f t = map (\<lambda>r. if p r then f r else r) t"

definition rows_count :: "('r \<Rightarrow> bool) \<Rightarrow> 'r list \<Rightarrow> nat" where
  "rows_count p t = length (filter p t)"

subsection \<open>Ordered maps\<close>

text \<open>
  A \<open>BTreeMap\<close> is the list of its entries in the order of their keys, which is the order
  it is iterated in.
\<close>

fun bt_insert :: "'k::linorder \<Rightarrow> 'v \<Rightarrow> ('k \<times> 'v) list \<Rightarrow> ('k \<times> 'v) list" where
  "bt_insert k v [] = [(k, v)]"
| "bt_insert k v ((k', v') # m) =
     (if k < k' then (k, v) # (k', v') # m
      else if k = k' then (k, v) # m
      else (k', v') # bt_insert k v m)"

definition bt_remove :: "'k \<Rightarrow> ('k \<times> 'v) list \<Rightarrow> ('k \<times> 'v) list" where
  "bt_remove k m = filter (\<lambda>e. fst e \<noteq> k) m"

definition bt_wf :: "('k::linorder \<times> 'v) list \<Rightarrow> bool" where
  "bt_wf m \<longleftrightarrow> sorted (map fst m) \<and> distinct (map fst m)"

subsection \<open>Laws of the error monad\<close>

lemma bindr_Inr_iff [result_simps]: "bindr m f = Inr b \<longleftrightarrow> (\<exists>a. m = Inr a \<and> f a = Inr b)"
  by (cases m) auto

lemma bindr_Inl_iff [result_simps]:
  "bindr m f = Inl e \<longleftrightarrow> m = Inl e \<or> (\<exists>a. m = Inr a \<and> f a = Inl e)"
  by (cases m) auto

lemma bindr_assoc [result_simps]: "bindr (bindr m f) g = bindr m (\<lambda>a. bindr (f a) g)"
  by (cases m) auto

lemma ensure_Inr_iff [result_simps, simp]: "ensure b e = Inr u \<longleftrightarrow> b"
  by (simp add: ensure_def)

lemma ensure_Inl_iff [result_simps, simp]: "ensure b e = Inl e' \<longleftrightarrow> \<not> b \<and> e' = e"
  by (auto simp: ensure_def)

lemma ensure_True [simp]: "ensure True e = Inr ()"
  by (simp add: ensure_def)

lemma ensure_False [simp]: "ensure False e = Inl e"
  by (simp add: ensure_def)

lemma map_err_Inr_iff [result_simps]: "map_err f m = Inr a \<longleftrightarrow> m = Inr a"
  by (cases m) auto

lemma map_err_Inl_iff [result_simps]: "map_err f m = Inl e \<longleftrightarrow> (\<exists>d. m = Inl d \<and> e = f d)"
  by (cases m) auto

lemma ok_or_Inr_iff [result_simps]: "ok_or m e = Inr a \<longleftrightarrow> m = Some a"
  by (cases m) auto

lemma ok_or_Inl_iff [result_simps]: "ok_or m e = Inl e' \<longleftrightarrow> m = None \<and> e' = e"
  by (cases m) auto

lemma for_each_Inr_iff [result_simps]:
  "for_each xs f = Inr u \<longleftrightarrow> (\<forall>x\<in>set xs. f x = Inr ())"
  by (induction xs) (auto simp: bindr_Inr_iff)

lemma for_each_Inl:
  "for_each xs f = Inl e \<Longrightarrow> \<exists>x\<in>set xs. f x = Inl e"
  by (induction xs) (auto simp: bindr_Inl_iff)

lemma for_each_append: "for_each (xs @ ys) f = bindr (for_each xs f) (\<lambda>_. for_each ys f)"
  by (induction xs) (auto simp: bindr_assoc)

lemma fold_r_append: "fold_r f s (xs @ ys) = bindr (fold_r f s xs) (\<lambda>s'. fold_r f s' ys)"
  by (induction xs arbitrary: s) (auto simp: bindr_assoc)

lemma fold_r_invariant:
  assumes "fold_r f s xs = Inr s'" and "P s"
    and "\<And>s x s'. x \<in> set xs \<Longrightarrow> P s \<Longrightarrow> f s x = Inr s' \<Longrightarrow> P s'"
  shows "P s'"
  using assms
proof (induction xs arbitrary: s)
  case Nil
  then show ?case by simp
next
  case (Cons x xs)
  from Cons.prems(1) obtain t where t: "f s x = Inr t" and rest: "fold_r f t xs = Inr s'"
    by (auto simp: bindr_Inr_iff)
  have "P t" using Cons.prems(2,3) t by auto
  then show ?case using Cons.IH [OF rest] Cons.prems(3) by auto
qed

lemma is_ok_iff: "is_ok m \<longleftrightarrow> (\<exists>a. m = Inr a)"
  by (cases m) auto

lemma not_Inl_iff: "(\<forall>e. m \<noteq> Inl e) \<longleftrightarrow> (\<exists>a. m = Inr a)"
  by (cases m) auto

lemma errsD: "errs P m \<Longrightarrow> m = Inl e \<Longrightarrow> P e"
  by (simp add: errs_def)

lemma errs_Inr [simp]: "errs P (Inr a)"
  by (simp add: errs_def)

lemma errs_Inl [simp]: "errs P (Inl e) \<longleftrightarrow> P e"
  by (simp add: errs_def)

lemma errs_ensure [simp]: "errs P (ensure b e) \<longleftrightarrow> (\<not> b \<longrightarrow> P e)"
  by (simp add: errs_def)

lemma errs_bindr: "errs P m \<Longrightarrow> (\<And>a. m = Inr a \<Longrightarrow> errs P (f a)) \<Longrightarrow> errs P (bindr m f)"
  by (cases m) auto

lemma errs_for_each: "(\<And>x. x \<in> set xs \<Longrightarrow> errs P (f x)) \<Longrightarrow> errs P (for_each xs f)"
  by (auto simp: errs_def dest: for_each_Inl)

subsection \<open>Laws of the state monad\<close>

lemma bindS_return [simp]: "bindS (returnS a) f = f a"
  by (rule ext) (simp add: bindS_def returnS_def)

lemma returnS_apply [simp]: "returnS a s = (Inr a, s)"
  by (simp add: returnS_def)

lemma failS_apply [simp]: "failS e s = (Inl e, s)"
  by (simp add: failS_def)

lemma liftS_apply [simp]: "liftS r s = (r, s)"
  by (simp add: liftS_def)

lemma askS_apply [simp]: "askS f s = (f s, s)"
  by (simp add: askS_def)

lemma modifyS_apply [simp]: "modifyS f s = (Inr (), f s)"
  by (simp add: modifyS_def)

lemma bindS_apply [result_simps]:
  "bindS m f s = (case fst (m s) of Inl e \<Rightarrow> (Inl e, snd (m s)) | Inr a \<Rightarrow> f a (snd (m s)))"
  by (simp add: bindS_def split: prod.splits sum.splits)

lemma bindS_Inr [result_simps]:
  "bindS m f s = (Inr b, s') \<longleftrightarrow> (\<exists>a t. m s = (Inr a, t) \<and> f a t = (Inr b, s'))"
  by (auto simp: bindS_def split: prod.splits sum.splits)

lemma bindS_Inl [result_simps]:
  "bindS m f s = (Inl e, s') \<longleftrightarrow>
     m s = (Inl e, s') \<or> (\<exists>a t. m s = (Inr a, t) \<and> f a t = (Inl e, s'))"
  by (auto simp: bindS_def split: prod.splits sum.splits)

lemma tx_Inr [result_simps]: "tx m s = (Inr a, s') \<longleftrightarrow> m s = (Inr a, s')"
  by (auto simp: tx_def split: prod.splits sum.splits)

lemma tx_Inl [result_simps]: "tx m s = (Inl e, s') \<longleftrightarrow> s' = s \<and> (\<exists>t. m s = (Inl e, t))"
  by (auto simp: tx_def split: prod.splits sum.splits)

lemma forS_append: "forS (xs @ ys) f s = bindS (forS xs f) (\<lambda>_. forS ys f) s"
  by (induction xs arbitrary: s) (auto simp: bindS_def split: prod.splits sum.splits)

lemma keepsD: "keeps P m \<Longrightarrow> P s \<Longrightarrow> P (snd (m s))"
  by (simp add: keeps_def)

lemma keepsE: "keeps P m \<Longrightarrow> m s = (r, s') \<Longrightarrow> P s \<Longrightarrow> P s'"
  by (auto simp: keeps_def dest: spec [of _ s])

lemma keeps_return [keeps_intros]: "keeps P (returnS a)"
  by (simp add: keeps_def)

lemma keeps_fail [keeps_intros]: "keeps P (failS e)"
  by (simp add: keeps_def)

lemma keeps_lift [keeps_intros]: "keeps P (liftS r)"
  by (simp add: keeps_def)

lemma keeps_ask [keeps_intros]: "keeps P (askS f)"
  by (simp add: keeps_def)

lemma keeps_modify: "(\<And>s. P s \<Longrightarrow> P (f s)) \<Longrightarrow> keeps P (modifyS f)"
  by (simp add: keeps_def)

lemma keeps_bind [keeps_intros]:
  "keeps P m \<Longrightarrow> (\<And>a. keeps P (f a)) \<Longrightarrow> keeps P (bindS m f)"
  by (auto simp: keeps_def bindS_apply split: sum.splits)

lemma keeps_tx [keeps_intros]: "keeps P m \<Longrightarrow> keeps P (tx m)"
  by (auto simp: keeps_def tx_def split: sum.splits prod.splits)

lemma keeps_forS [keeps_intros]: "(\<And>x. keeps P (f x)) \<Longrightarrow> keeps P (forS xs f)"
  by (induction xs) (auto intro: keeps_intros)

lemma keeps_if [keeps_intros]:
  "(b \<Longrightarrow> keeps P m) \<Longrightarrow> (\<not> b \<Longrightarrow> keeps P n) \<Longrightarrow> keeps P (if b then m else n)"
  by simp

lemma keeps_option [keeps_intros]:
  "keeps P m \<Longrightarrow> (\<And>a. keeps P (f a)) \<Longrightarrow> keeps P (case x of None \<Rightarrow> m | Some a \<Rightarrow> f a)"
  by (cases x) auto

subsection \<open>Laws of the string functions\<close>

lemma strip_prefix_iff: "strip_prefix p s = Some r \<longleftrightarrow> s = p @ r"
  by (induction p s rule: strip_prefix.induct) auto

lemma strip_prefix_append [simp]: "strip_prefix p (p @ r) = Some r"
  by (simp add: strip_prefix_iff)

lemma split_once_first:
  assumes "d \<noteq> []" and "\<not> sublist d (a @ butlast d)"
  shows "split_once d (a @ d @ b) = Some (a, b)"
  using assms(2)
proof (induction a)
  case Nil
  from assms(1) obtain x xs where d: "d = x # xs" by (cases d) auto
  have "strip_prefix d (d @ b) = Some b" by simp
  then show ?case by (simp add: d)
next
  case (Cons c a)
  have "strip_prefix d (c # a @ d @ b) = None"
  proof (rule ccontr)
    assume "strip_prefix d (c # a @ d @ b) \<noteq> None"
    then obtain r where "c # a @ d @ b = d @ r"
      by (auto simp: strip_prefix_iff)
    moreover have "c # a @ d @ b = (c # a @ butlast d) @ (last d # b)"
      using assms(1) by simp
    ultimately have "(c # a @ butlast d) @ (last d # b) = d @ r"
      by simp
    moreover have "length d \<le> length (c # a @ butlast d)"
      using assms(1) by (cases d) auto
    ultimately have "prefix d (c # a @ butlast d)"
      by (metis prefixI prefix_length_prefix)
    then show False using Cons.prems by (simp add: prefix_imp_sublist)
  qed
  moreover have "\<not> sublist d (a @ butlast d)"
    using Cons.prems by (auto simp: sublist_Cons_right)
  ultimately show ?case using Cons.IH by simp
qed

lemma digit_val_digit_char: "d < 10 \<Longrightarrow> digit_val (digit_char d) = Some d"
  by (simp add: digit_val_def digit_char_def)

lemma digit_val_plus: "digit_val CHR ''+'' = None"
  by (simp add: digit_val_def)

lemma parse_digits_append:
  "parse_digits acc (xs @ ys) = Option.bind (parse_digits acc xs) (\<lambda>a. parse_digits a ys)"
  by (induction acc xs rule: parse_digits.induct) (auto split: option.splits)

lemma show_nat_nonempty: "show_nat n \<noteq> []"
  by (subst show_nat.simps) simp

lemma parse_digits_show_nat: "n \<le> U64_MAX \<Longrightarrow> parse_digits 0 (show_nat n) = Some n"
proof (induction n rule: show_nat.induct)
  case (1 n)
  show ?case
  proof (cases "n < 10")
    case True
    with "1.prems" show ?thesis
      by (subst show_nat.simps) (simp add: digit_val_digit_char)
  next
    case False
    then have "parse_digits 0 (show_nat (n div 10)) = Some (n div 10)"
      using "1.IH" "1.prems" by simp
    then show ?thesis using False "1.prems"
      by (subst show_nat.simps) (simp add: parse_digits_append digit_val_digit_char)
  qed
qed

lemma show_nat_hd: "hd (show_nat n) \<noteq> CHR ''+''"
proof (induction n rule: show_nat.induct)
  case (1 n)
  have "digit_char d \<noteq> CHR ''+''" if "d < 10" for d
    using digit_val_digit_char [OF that] digit_val_plus by auto
  then show ?case using 1 show_nat_nonempty
    by (subst show_nat.simps) (auto simp: hd_append)
qed

lemma parse_u64_show_nat: "n \<le> U64_MAX \<Longrightarrow> parse_u64 (show_nat n) = Some n"
  using parse_digits_show_nat [of n] show_nat_hd [of n] show_nat_nonempty [of n]
  by (auto simp: parse_u64_def split: list.splits)

lemma show_nat_digits: "c \<in> set (show_nat n) \<Longrightarrow> digit_val c \<noteq> None"
proof (induction n rule: show_nat.induct)
  case (1 n)
  then show ?case
    by (cases "n < 10") (auto simp: show_nat.simps [of n] digit_val_digit_char)
qed

subsection \<open>Laws of row lists\<close>

lemma row_of_Some: "row_of key t k = Some r \<Longrightarrow> r \<in> set t \<and> key r = k"
  by (auto simp: row_of_def find_Some_iff in_set_conv_nth)

lemma row_of_None: "row_of key t k = None \<longleftrightarrow> k \<notin> key ` set t"
  by (auto simp: row_of_def find_None_iff)

lemma row_of_distinct:
  "distinct (map key t) \<Longrightarrow> row_of key t k = Some r \<longleftrightarrow> r \<in> set t \<and> key r = k"
proof (induction t)
  case Nil
  then show ?case by (simp add: row_of_def)
next
  case (Cons x t)
  then show ?case by (auto simp: row_of_def image_iff)
qed

lemma row_of_append:
  "row_of key (t @ u) k = (case row_of key t k of None \<Rightarrow> row_of key u k | Some r \<Rightarrow> Some r)"
  by (induction t) (auto simp: row_of_def)

lemma row_of_Nil [table_simps, simp]: "row_of key [] k = None"
  by (simp add: row_of_def)

lemma row_of_Cons [table_simps, simp]:
  "row_of key (r # t) k = (if key r = k then Some r else row_of key t k)"
  by (simp add: row_of_def)

lemma row_of_filter_key [table_simps]:
  "row_of key (filter (\<lambda>r. key r \<noteq> j) t) k = (if k = j then None else row_of key t k)"
  by (induction t) auto

lemma keys_rows_update [table_simps]:
  "(\<And>r. r \<in> set t \<Longrightarrow> p r \<Longrightarrow> key (f r) = key r) \<Longrightarrow> map key (rows_update p f t) = map key t"
  by (auto simp: rows_update_def)

lemma row_of_rows_update:
  assumes "\<And>r. key (f r) = key r"
  shows "row_of key (rows_update p f t) k =
    map_option (\<lambda>r. if p r then f r else r) (row_of key t k)"
  by (induction t) (auto simp: rows_update_def assms)

lemma length_rows_update [table_simps, simp]: "length (rows_update p f t) = length t"
  by (simp add: rows_update_def)

lemma distinct_map_filter_append:
  assumes "distinct (map key t)" and "key r \<notin> key ` set t"
  shows "distinct (map key (t @ [r]))"
  using assms by auto

lemma distinct_keys_filter: "distinct (map key t) \<Longrightarrow> distinct (map key (filter p t))"
  by (induction t) auto

lemma rows_count_key_le_1:
  "distinct (map key t) \<Longrightarrow> rows_count (\<lambda>r. key r = k) t = (if k \<in> key ` set t then 1 else 0)"
proof (induction t)
  case Nil
  then show ?case by (simp add: rows_count_def)
next
  case (Cons x t)
  then show ?case by (auto simp: rows_count_def image_iff)
qed

lemma rows_count_0_iff: "rows_count p t = 0 \<longleftrightarrow> (\<forall>r\<in>set t. \<not> p r)"
  by (auto simp: rows_count_def filter_empty_conv)

subsection \<open>Laws of ordered maps\<close>

lemma set_keys_bt_insert [simp]: "fst ` set (bt_insert k v m) = insert k (fst ` set m)"
  by (induction k v m rule: bt_insert.induct) (auto simp: image_iff)

lemma bt_wf_Cons: "bt_wf (e # m) \<longleftrightarrow> (\<forall>k\<in>fst ` set m. fst e < k) \<and> bt_wf m"
  by (auto simp: bt_wf_def order_less_le image_iff)

lemma bt_wf_insert [simp]: "bt_wf m \<Longrightarrow> bt_wf (bt_insert k v m)"
proof (induction m)
  case Nil
  then show ?case by (simp add: bt_wf_def)
next
  case (Cons e m)
  obtain k' v' where e: "e = (k', v')" by fastforce
  have below: "\<forall>j\<in>fst ` set m. k' < j" and wf: "bt_wf m" using Cons.prems by (auto simp: bt_wf_Cons e)
  consider "k < k'" | "k = k'" | "k' < k" by fastforce
  then show ?case
  proof cases
    case 1
    then show ?thesis using below wf by (fastforce simp: e bt_wf_Cons)
  next
    case 2
    then show ?thesis using below wf by (simp add: e bt_wf_Cons)
  next
    case 3
    then have "bt_insert k v (e # m) = e # bt_insert k v m" by (auto simp: e)
    then show ?thesis using 3 below Cons.IH [OF wf] by (simp add: bt_wf_Cons e del: bt_insert.simps)
  qed
qed

lemma bt_wf_Nil [simp]: "bt_wf []"
  by (simp add: bt_wf_def)

lemma bt_wf_remove [simp]: "bt_wf m \<Longrightarrow> bt_wf (bt_remove k m)"
  by (auto simp: bt_wf_def bt_remove_def distinct_keys_filter sorted_filter)

lemma map_of_bt_insert [simp]: "bt_wf m \<Longrightarrow> map_of (bt_insert k v m) = (map_of m)(k \<mapsto> v)"
  by (induction k v m rule: bt_insert.induct) (auto simp: bt_wf_def fun_eq_iff)

lemma map_of_bt_remove [simp]: "map_of (bt_remove k m) = (map_of m)(k := None)"
  by (induction m) (auto simp: bt_remove_def fun_eq_iff)

end
