(* ===== verification/F64.thy ===== *)
theory F64
  imports Prelude "HOL-Library.Log_Nat"
begin

section \<open>Binary64 floating point\<close>

text \<open>
  The source computes costs and scores in \<open>f64\<close>. A value is a NaN, an infinity or a
  finite number, given by the rational it denotes; the two zeros are one value, which no
  comparison of the source tells apart and by which no modelled operation divides. The four
  operations compute exactly and round to the nearest binary64 value, ties to even, with the
  subnormal range and the overflow to an infinity (\<open>round64\<close>). The lemmas show that
  rounding is monotone, keeps signs and is exact on the integers below \<open>2^53\<close>.
\<close>

datatype f64 = NaN | PInf | NInf | Fin rat

fun is_finite :: "f64 \<Rightarrow> bool" where
  "is_finite (Fin x) = True"
| "is_finite _ = False"

fun is_nan :: "f64 \<Rightarrow> bool" where
  "is_nan NaN = True"
| "is_nan _ = False"

fun is_infinite :: "f64 \<Rightarrow> bool" where
  "is_infinite PInf = True"
| "is_infinite NInf = True"
| "is_infinite _ = False"

text \<open>\<open><=\<close>, \<open><\<close> and \<open>>=\<close> on \<open>f64\<close>: false when an argument is a NaN.\<close>

fun fle :: "f64 \<Rightarrow> f64 \<Rightarrow> bool" where
  "fle NaN _ = False"
| "fle _ NaN = False"
| "fle NInf _ = True"
| "fle _ PInf = True"
| "fle (Fin x) (Fin y) = (x \<le> y)"
| "fle _ _ = False"

definition flt :: "f64 \<Rightarrow> f64 \<Rightarrow> bool" where
  "flt x y \<longleftrightarrow> fle x y \<and> \<not> fle y x"

text \<open>\<open>(lo..=hi).contains(&x)\<close>.\<close>

definition fcontains :: "f64 \<Rightarrow> f64 \<Rightarrow> f64 \<Rightarrow> bool" where
  "fcontains lo hi x \<longleftrightarrow> fle lo x \<and> fle x hi"

text \<open>\<open>f64::max\<close> returns the other argument when one is a NaN.\<close>

definition fmax :: "f64 \<Rightarrow> f64 \<Rightarrow> f64" where
  "fmax x y = (if is_nan x then y else if is_nan y then x else if fle x y then y else x)"

text \<open>Rounding.\<close>

definition ilog2 :: "rat \<Rightarrow> int" where
  "ilog2 x = (let (p, q) = quotient_of x; k = bitlen p - bitlen q
              in if 2 powi k \<le> x then k else k - 1)"

definition round_half_even :: "rat \<Rightarrow> int" where
  "round_half_even x =
     (let f = \<lfloor>x\<rfloor>; d = x - of_int f
      in if d < 1 / 2 then f else if 1 / 2 < d then f + 1 else if even f then f else f + 1)"

definition scale64 :: "rat \<Rightarrow> int" where
  "scale64 x = max (ilog2 \<bar>x\<bar> - 52) (- 1074)"

definition rnd64 :: "rat \<Rightarrow> rat" where
  "rnd64 x = (if x = 0 then 0
     else of_int (round_half_even (x / 2 powi scale64 x)) * 2 powi scale64 x)"

definition round64 :: "rat \<Rightarrow> f64" where
  "round64 x =
     (let y = rnd64 x
      in if 2 ^ 1024 \<le> y then PInf else if y \<le> - (2 ^ 1024) then NInf else Fin y)"

definition fof_nat :: "nat \<Rightarrow> f64" where
  "fof_nat n = round64 (of_nat n)"

fun fneg :: "f64 \<Rightarrow> f64" where
  "fneg NaN = NaN"
| "fneg PInf = NInf"
| "fneg NInf = PInf"
| "fneg (Fin x) = Fin (- x)"

fun fadd :: "f64 \<Rightarrow> f64 \<Rightarrow> f64" where
  "fadd (Fin x) (Fin y) = round64 (x + y)"
| "fadd NaN _ = NaN"
| "fadd _ NaN = NaN"
| "fadd PInf NInf = NaN"
| "fadd NInf PInf = NaN"
| "fadd PInf _ = PInf"
| "fadd _ PInf = PInf"
| "fadd NInf _ = NInf"
| "fadd _ NInf = NInf"

definition fsub :: "f64 \<Rightarrow> f64 \<Rightarrow> f64" where
  "fsub x y = fadd x (fneg y)"

fun fmul :: "f64 \<Rightarrow> f64 \<Rightarrow> f64" where
  "fmul (Fin x) (Fin y) = round64 (x * y)"
| "fmul NaN _ = NaN"
| "fmul _ NaN = NaN"
| "fmul PInf (Fin y) = (if y = 0 then NaN else if 0 < y then PInf else NInf)"
| "fmul (Fin x) PInf = (if x = 0 then NaN else if 0 < x then PInf else NInf)"
| "fmul NInf (Fin y) = (if y = 0 then NaN else if 0 < y then NInf else PInf)"
| "fmul (Fin x) NInf = (if x = 0 then NaN else if 0 < x then NInf else PInf)"
| "fmul PInf PInf = PInf"
| "fmul NInf NInf = PInf"
| "fmul PInf NInf = NInf"
| "fmul NInf PInf = NInf"

fun fdiv :: "f64 \<Rightarrow> f64 \<Rightarrow> f64" where
  "fdiv (Fin x) (Fin y) =
     (if y \<noteq> 0 then round64 (x / y) else if x = 0 then NaN else if 0 < x then PInf else NInf)"
| "fdiv NaN _ = NaN"
| "fdiv _ NaN = NaN"
| "fdiv (Fin x) _ = Fin 0"
| "fdiv PInf (Fin y) = (if 0 \<le> y then PInf else NInf)"
| "fdiv NInf (Fin y) = (if 0 \<le> y then NInf else PInf)"
| "fdiv _ _ = NaN"

subsection \<open>Order\<close>

lemma is_finite_iff: "is_finite x \<longleftrightarrow> (\<exists>r. x = Fin r)"
  by (cases x) auto

lemma fle_refl: "\<not> is_nan x \<Longrightarrow> fle x x"
  by (cases x) auto

lemma fle_not_nan: "fle x y \<Longrightarrow> \<not> is_nan x \<and> \<not> is_nan y"
  by (cases x; cases y) auto

lemma fle_trans: "fle x y \<Longrightarrow> fle y z \<Longrightarrow> fle x z"
  by (cases x; cases y; cases z) auto

lemma fle_total: "\<not> is_nan x \<Longrightarrow> \<not> is_nan y \<Longrightarrow> fle x y \<or> fle y x"
  by (cases x; cases y) auto

lemma fle_antisym: "fle x y \<Longrightarrow> fle y x \<Longrightarrow> x = y"
  by (cases x; cases y) auto

lemma flt_Fin [simp]: "flt (Fin x) (Fin y) \<longleftrightarrow> x < y"
  by (auto simp: flt_def)

lemma not_flt_iff: "\<not> is_nan x \<Longrightarrow> \<not> is_nan y \<Longrightarrow> \<not> flt x y \<longleftrightarrow> fle y x"
  using fle_total [of x y] by (auto simp: flt_def)

lemma fmax_Fin [simp]: "fmax (Fin x) (Fin y) = Fin (max x y)"
  by (auto simp: fmax_def)

lemma fmax_ge1: "\<not> is_nan x \<Longrightarrow> fle x (fmax x y)"
  by (cases x; cases y) (auto simp: fmax_def)

lemma fmax_ge2: "\<not> is_nan y \<Longrightarrow> fle y (fmax x y)"
  by (cases x; cases y) (auto simp: fmax_def)

subsection \<open>Rounding to nearest even\<close>

lemma powi2_pos [simp]: "(0::rat) < 2 powi k"
  by (simp add: zero_less_power_int)

lemma powi2_nonneg [simp]: "(0::rat) \<le> 2 powi k"
  by (simp add: less_imp_le)

lemma powi2_mono: "i \<le> j \<Longrightarrow> (2::rat) powi i \<le> 2 powi j"
  by (rule power_int_increasing) auto

lemma powi2_less_iff: "(2::rat) powi i < 2 powi j \<longleftrightarrow> i < j"
  using powi2_mono [of j i] power_int_strict_increasing [of i j "2::rat"]
  by (auto simp: not_less [symmetric])

lemma powi2_nat: "0 \<le> k \<Longrightarrow> (2::rat) powi k = of_int (2 ^ nat k)"
  by (simp add: power_int_def)

lemma powi2_split:
  assumes "e \<le> k"
  shows "(2::rat) powi k = of_int (2 ^ nat (k - e)) * 2 powi e"
proof -
  have "(2::rat) powi k = 2 powi ((k - e) + e)" by simp
  also have "\<dots> = 2 powi (k - e) * 2 powi e" by (rule power_int_add) simp
  finally show ?thesis using assms by (simp add: powi2_nat)
qed

lemma round_half_even_int [simp]: "round_half_even (of_int n) = n"
  by (simp add: round_half_even_def)

lemma round_half_even_cases: "round_half_even x = \<lfloor>x\<rfloor> \<or> round_half_even x = \<lfloor>x\<rfloor> + 1"
  by (auto simp: round_half_even_def Let_def)

lemma round_half_even_mono:
  assumes "x \<le> y"
  shows "round_half_even x \<le> round_half_even y"
proof (cases "\<lfloor>x\<rfloor> = \<lfloor>y\<rfloor>")
  case True
  then show ?thesis using assms by (auto simp: round_half_even_def Let_def)
next
  case False
  with floor_mono [OF assms] have "\<lfloor>x\<rfloor> + 1 \<le> \<lfloor>y\<rfloor>" by simp
  then show ?thesis using round_half_even_cases [of x] round_half_even_cases [of y] by auto
qed

lemma round_half_even_uminus: "round_half_even (- x) = - round_half_even x"
proof (cases "x \<in> \<int>")
  case True
  then obtain n where n: "x = of_int n" by (auto elim: Ints_cases)
  have "- x = of_int (- n)" by (simp add: n)
  then show ?thesis by (simp only: round_half_even_int n)
next
  case False
  then have "of_int \<lfloor>x\<rfloor> \<noteq> x" by (metis Ints_of_int)
  then have "\<lfloor>- x\<rfloor> = - \<lfloor>x\<rfloor> - 1"
    using ceiling_altdef [of x] by (auto simp: floor_minus)
  then show ?thesis by (auto simp: round_half_even_def Let_def)
qed

lemma ilog2_bounds:
  assumes "0 < x"
  shows "2 powi ilog2 x \<le> x" and "x < 2 powi (ilog2 x + 1)"
proof -
  obtain p q where pq: "quotient_of x = (p, q)" by fastforce
  have q: "0 < q" by (rule quotient_of_denom_pos [OF pq])
  have x: "x = of_int p / of_int q" by (rule quotient_of_div [OF pq])
  have p: "0 < p" using assms q x by (simp add: zero_less_divide_iff)
  define a b where "a = bitlen p" and "b = bitlen q"
  have a1: "1 \<le> a" and b1: "1 \<le> b" using p q by (auto simp: a_def b_def bitlen_ge_iff_power)
  have "2 ^ nat (a - 1) \<le> p" "p < 2 ^ nat a" "2 ^ nat (b - 1) \<le> q" "q < 2 ^ nat b"
    using bitlen_bounds [OF p] bitlen_bounds [OF q] by (auto simp: a_def b_def)
  then have "(of_int (2 ^ nat (a - 1)) :: rat) \<le> of_int p" "(of_int p :: rat) < of_int (2 ^ nat a)"
    "(of_int (2 ^ nat (b - 1)) :: rat) \<le> of_int q" "(of_int q :: rat) < of_int (2 ^ nat b)"
    by (simp_all only: of_int_le_iff of_int_less_iff)
  then have pa: "2 powi (a - 1) \<le> (of_int p :: rat)" "(of_int p :: rat) < 2 powi a"
    and qb: "2 powi (b - 1) \<le> (of_int q :: rat)" "(of_int q :: rat) < 2 powi b"
    using a1 b1 by (simp_all add: powi2_nat)
  have "x \<le> of_int p / 2 powi (b - 1)"
    unfolding x using qb(1) p by (intro divide_left_mono) (auto simp: q)
  also have "\<dots> < 2 powi a / 2 powi (b - 1)"
    using pa(2) by (intro divide_strict_right_mono) auto
  also have "\<dots> = 2 powi (a - b + 1)"
    by (simp add: power_int_diff [symmetric] algebra_simps)
  finally have up: "x < 2 powi (a - b + 1)" .
  have "2 powi (a - 1 - b) = 2 powi (a - 1) / (2 powi b :: rat)"
    by (simp add: power_int_diff)
  also have "\<dots> \<le> of_int p / 2 powi b"
    using pa(1) by (intro divide_right_mono) auto
  also have "\<dots> \<le> x"
    unfolding x using qb(2) p q by (intro divide_left_mono) auto
  finally have lo: "2 powi (a - 1 - b) \<le> x" .
  have il: "ilog2 x = (if 2 powi (a - b) \<le> x then a - b else a - b - 1)"
    by (simp add: ilog2_def pq a_def b_def Let_def)
  show "2 powi ilog2 x \<le> x" using lo by (simp add: il algebra_simps)
  show "x < 2 powi (ilog2 x + 1)" using up by (simp add: il)
qed

lemma ilog2_mono:
  assumes "0 < x" and "x \<le> y"
  shows "ilog2 x \<le> ilog2 y"
proof -
  have "2 powi ilog2 x < (2 powi (ilog2 y + 1) :: rat)"
    using ilog2_bounds(1) [of x] ilog2_bounds(2) [of y] assms by linarith
  then show ?thesis by (simp add: powi2_less_iff)
qed

lemma scale64_mono: "0 < x \<Longrightarrow> x \<le> y \<Longrightarrow> scale64 x \<le> scale64 y"
  using ilog2_mono [of x y] by (simp add: scale64_def max_def)

lemma scale64_uminus [simp]: "scale64 (- x) = scale64 x"
  by (simp add: scale64_def)

lemma rnd64_0 [simp]: "rnd64 0 = 0"
  by (simp add: rnd64_def)

lemma rnd64_uminus: "rnd64 (- x) = - rnd64 x"
  by (simp add: rnd64_def round_half_even_uminus)

lemma rnd64_le:
  assumes "x \<noteq> 0" and "x \<le> of_int m * 2 powi scale64 x"
  shows "rnd64 x \<le> of_int m * 2 powi scale64 x"
proof -
  have "x / 2 powi scale64 x \<le> of_int m"
    using assms(2) by (simp add: pos_divide_le_eq)
  then have "round_half_even (x / 2 powi scale64 x) \<le> m"
    using round_half_even_mono [of _ "of_int m"] by simp
  then show ?thesis using assms(1) by (simp add: rnd64_def mult_right_mono)
qed

lemma rnd64_ge:
  assumes "x \<noteq> 0" and "of_int m * 2 powi scale64 x \<le> x"
  shows "of_int m * 2 powi scale64 x \<le> rnd64 x"
proof -
  have "of_int m \<le> x / 2 powi scale64 x"
    using assms(2) by (simp add: pos_le_divide_eq)
  then have "m \<le> round_half_even (x / 2 powi scale64 x)"
    using round_half_even_mono [of "of_int m"] by simp
  then show ?thesis using assms(1) by (simp add: rnd64_def mult_right_mono)
qed

lemma rnd64_nonneg: "0 \<le> x \<Longrightarrow> 0 \<le> rnd64 x"
  using rnd64_ge [of x 0] by (cases "x = 0") auto

lemma rnd64_le_powi:
  assumes "x \<noteq> 0" and "scale64 x \<le> k" and "x \<le> 2 powi k"
  shows "rnd64 x \<le> 2 powi k"
proof -
  have "(2 powi k :: rat) = of_int (2 ^ nat (k - scale64 x)) * 2 powi scale64 x"
    by (rule powi2_split [OF assms(2)])
  then show ?thesis using rnd64_le [OF assms(1)] assms(3) by metis
qed

lemma rnd64_ge_powi:
  assumes "x \<noteq> 0" and "scale64 x \<le> k" and "2 powi k \<le> x"
  shows "2 powi k \<le> rnd64 x"
proof -
  have "(2 powi k :: rat) = of_int (2 ^ nat (k - scale64 x)) * 2 powi scale64 x"
    by (rule powi2_split [OF assms(2)])
  then show ?thesis using rnd64_ge [OF assms(1)] assms(3) by metis
qed

lemma rnd64_mono_pos:
  assumes "0 < x" and "x \<le> y"
  shows "rnd64 x \<le> rnd64 y"
proof (cases "scale64 x = scale64 y")
  case True
  have "x / 2 powi scale64 x \<le> y / 2 powi scale64 x"
    using assms(2) by (simp add: divide_right_mono)
  then have "round_half_even (x / 2 powi scale64 x) \<le> round_half_even (y / 2 powi scale64 x)"
    by (rule round_half_even_mono)
  then show ?thesis using assms True by (simp add: rnd64_def mult_right_mono)
next
  case False
  with scale64_mono [OF assms] have less: "scale64 x < scale64 y" by simp
  then have sy: "scale64 y = ilog2 y - 52" and il: "ilog2 x < ilog2 y"
    using assms by (auto simp: scale64_def max_def split: if_splits)
  define k where "k = max (ilog2 x + 1) (scale64 x)"
  have "x \<le> 2 powi (ilog2 x + 1)" using ilog2_bounds(2) [OF assms(1)] by simp
  also have "\<dots> \<le> 2 powi k" by (rule powi2_mono) (simp add: k_def)
  finally have "rnd64 x \<le> 2 powi k"
    using assms(1) by (intro rnd64_le_powi) (auto simp: k_def)
  also have "\<dots> \<le> 2 powi ilog2 y"
    by (rule powi2_mono) (use il less sy in \<open>auto simp: k_def\<close>)
  also have "\<dots> \<le> rnd64 y"
    using assms ilog2_bounds(1) [of y] sy by (intro rnd64_ge_powi) auto
  finally show ?thesis .
qed

lemma rnd64_mono:
  assumes "x \<le> y"
  shows "rnd64 x \<le> rnd64 y"
proof -
  consider "0 < x" | "x \<le> 0" "0 \<le> y" | "y < 0" by linarith
  then show ?thesis
  proof cases
    case 1
    then show ?thesis using assms by (rule rnd64_mono_pos)
  next
    case 2
    then have "rnd64 x \<le> 0" using rnd64_nonneg [of "- x"] by (simp add: rnd64_uminus)
    then show ?thesis using rnd64_nonneg [OF 2(2)] by simp
  next
    case 3
    then show ?thesis using rnd64_mono_pos [of "- y" "- x"] assms by (simp add: rnd64_uminus)
  qed
qed

lemma rnd64_int:
  assumes "\<bar>n\<bar> < 2 ^ 53"
  shows "rnd64 (of_int n) = of_int n"
proof (cases "n = 0")
  case False
  define e where "e = scale64 (of_int n)"
  have pos: "0 < \<bar>of_int n :: rat\<bar>" using False by simp
  have "(of_int \<bar>n\<bar> :: rat) < of_int (2 ^ 53)" using assms by (simp only: of_int_less_iff)
  then have "2 powi ilog2 \<bar>of_int n\<bar> < (2 powi 53 :: rat)"
    using ilog2_bounds(1) [OF pos] by (simp add: power_int_def)
  then have "ilog2 \<bar>of_int n\<bar> < 53" by (simp only: powi2_less_iff)
  then have "e \<le> 0" by (simp add: e_def scale64_def)
  then have q: "(of_int n :: rat) / 2 powi e = of_int (n * 2 ^ nat (- e))"
    by (simp add: power_int_def field_simps)
  have "rnd64 (of_int n) = of_int (n * 2 ^ nat (- e)) * 2 powi e"
    using False by (simp add: rnd64_def e_def [symmetric] q del: of_int_mult)
  then show ?thesis by (simp add: q [symmetric] del: of_int_mult)
qed simp

lemma round64_int: "\<bar>n\<bar> < 2 ^ 53 \<Longrightarrow> round64 (of_int n) = Fin (of_int n)"
proof -
  assume n: "\<bar>n\<bar> < 2 ^ 53"
  have "\<bar>n\<bar> < 2 ^ 1024" by (rule less_trans [OF n]) simp
  then have "n < 2 ^ 1024" "- (2 ^ 1024) < n" by auto
  then have "(of_int n :: rat) < of_int (2 ^ 1024)" "of_int (- (2 ^ 1024)) < (of_int n :: rat)"
    by (simp_all only: of_int_less_iff)
  then show ?thesis by (simp add: round64_def rnd64_int [OF n] Let_def)
qed

lemma rnd64_dyadic:
  assumes "\<bar>n\<bar> < 2 ^ 53" and "k \<le> 1074"
  shows "rnd64 (of_int n / 2 ^ k) = of_int n / 2 ^ k"
proof (cases "n = 0")
  case False
  define x :: rat where "x = of_int n / 2 ^ k"
  define e where "e = scale64 x"
  have x: "x = of_int n * 2 powi (- int k)" by (simp add: x_def power_int_minus divide_inverse)
  have pos: "0 < \<bar>x\<bar>" using False by (simp add: x_def)
  have "(of_int \<bar>n\<bar> :: rat) < of_int (2 ^ 53)" using assms(1) by (simp only: of_int_less_iff)
  then have "\<bar>x\<bar> < 2 powi 53 * 2 powi (- int k)" by (simp add: x abs_mult power_int_def)
  also have "\<dots> = 2 powi (53 + - int k)" by (rule power_int_add [symmetric]) simp
  finally have "2 powi ilog2 \<bar>x\<bar> < (2 powi (53 + - int k) :: rat)"
    using ilog2_bounds(1) [OF pos] by simp
  then have "ilog2 \<bar>x\<bar> < 53 + - int k" by (simp only: powi2_less_iff)
  then have "e \<le> - int k" using assms(2) by (simp add: e_def scale64_def)
  then have "x = of_int (n * 2 ^ nat (- int k - e)) * 2 powi e"
    using powi2_split [of e "- int k"] by (simp add: x)
  then have q: "x / 2 powi e = of_int (n * 2 ^ nat (- int k - e))" by (simp add: field_simps)
  have "rnd64 x = of_int (n * 2 ^ nat (- int k - e)) * 2 powi e"
    using pos by (simp add: rnd64_def e_def [symmetric] q del: of_int_mult)
  then show ?thesis by (simp add: q [symmetric] x_def [symmetric] del: of_int_mult)
qed simp

lemma round64_dyadic:
  assumes "\<bar>n\<bar> < 2 ^ 53" and "k \<le> 1074"
  shows "round64 (of_int n / 2 ^ k) = Fin (of_int n / 2 ^ k)"
proof -
  have "(of_int \<bar>n\<bar> :: rat) < of_int (2 ^ 53)" using assms(1) by (simp only: of_int_less_iff)
  moreover have "\<bar>of_int n / 2 ^ k :: rat\<bar> \<le> of_int \<bar>n\<bar>"
    by (simp add: abs_divide divide_le_eq mult_le_cancel_left1)
  moreover have "(of_int (2 ^ 53) :: rat) \<le> 2 ^ 1024" by simp
  ultimately have "\<bar>of_int n / 2 ^ k :: rat\<bar> < 2 ^ 1024" by linarith
  then have "of_int n / 2 ^ k < (2 ^ 1024 :: rat)" "- (2 ^ 1024) < (of_int n / 2 ^ k :: rat)"
    unfolding abs_less_iff by linarith+
  then show ?thesis unfolding round64_def rnd64_dyadic [OF assms] Let_def by auto
qed

subsection \<open>Arithmetic\<close>

lemma round64_0 [simp]: "round64 0 = Fin 0"
  using round64_int [of 0] by simp

lemma round64_numeral:
  "(numeral k :: int) < 2 ^ 53 \<Longrightarrow> round64 (numeral k) = Fin (numeral k)"
  using round64_int [of "numeral k"] by simp

lemma round64_neg_numeral:
  "(numeral k :: int) < 2 ^ 53 \<Longrightarrow> round64 (- numeral k) = Fin (- numeral k)"
  using round64_int [of "- numeral k"] by simp

lemma round64_neg_1 [simp]: "round64 (- 1) = Fin (- 1)"
  using round64_int [of "- 1"] by simp

lemma fof_nat_numeral: "(numeral k :: int) < 2 ^ 53 \<Longrightarrow> fof_nat (numeral k) = Fin (numeral k)"
  by (simp add: fof_nat_def round64_numeral)

lemma fof_nat_0 [simp]: "fof_nat 0 = Fin 0"
  by (simp add: fof_nat_def)

lemma round64_1 [simp]: "round64 1 = Fin 1"
  using round64_int [of 1] by simp

lemma round64_not_nan [simp]: "\<not> is_nan (round64 x)"
  by (simp add: round64_def Let_def)

lemma round64_le_PInf [simp]: "fle (round64 x) PInf"
  by (simp add: round64_def Let_def)

lemma round64_mono: "x \<le> y \<Longrightarrow> fle (round64 x) (round64 y)"
  using rnd64_mono [of x y] by (auto simp: round64_def Let_def)

lemma round64_nonneg: "0 \<le> x \<Longrightarrow> fle (Fin 0) (round64 x)"
  using round64_mono [of 0 x] by simp

text \<open>The values a validated cost takes: not a NaN and not below zero.\<close>

abbreviation fnonneg :: "f64 \<Rightarrow> bool" where
  "fnonneg x \<equiv> fle (Fin 0) x"

lemma fnonneg_iff: "fnonneg x \<longleftrightarrow> x = PInf \<or> (\<exists>r. x = Fin r \<and> 0 \<le> r)"
  by (cases x) auto

lemma fnonneg_finite: "is_finite x \<Longrightarrow> \<not> flt x (Fin 0) \<Longrightarrow> fnonneg x"
  by (cases x) auto

lemma fadd_nonneg: "fnonneg x \<Longrightarrow> fnonneg y \<Longrightarrow> fnonneg (fadd x y)"
  by (cases x; cases y) (auto intro: round64_nonneg)

lemma fmul_nonneg:
  "fnonneg x \<Longrightarrow> fnonneg y \<Longrightarrow> is_finite x \<Longrightarrow> is_finite y \<Longrightarrow> fnonneg (fmul x y)"
  by (cases x; cases y) (auto intro: round64_nonneg)

lemma fmul_0_left: "is_finite x \<Longrightarrow> fmul (Fin 0) x = Fin 0"
  by (cases x) auto

lemma round64_unit_finite: "0 \<le> x \<Longrightarrow> x \<le> 1 \<Longrightarrow> is_finite (round64 x)"
  using round64_mono [of 0 x] round64_mono [of x 1] by (cases "round64 x") auto

lemma fadd_mono:
  assumes "fle x x'" and "fle y y'" and "is_finite x" "is_finite y" "fnonneg x'" "fnonneg y'"
  shows "fle (fadd x y) (fadd x' y')"
  using assms by (cases x; cases y; cases x'; cases y') (auto intro!: round64_mono simp: fle_total)

lemma fmul_left_mono:
  assumes "fle x y" and "is_finite x" "is_finite y" "is_finite w" "fnonneg w"
  shows "fle (fmul w x) (fmul w y)"
  using assms by (cases x; cases y; cases w) (auto intro!: round64_mono simp: mult_left_mono)

lemma fsub_left_mono:
  assumes "fle x y" and "is_finite x" "is_finite y" "is_finite w"
  shows "fle (fsub x w) (fsub y w)"
  using assms by (cases x; cases y; cases w) (auto intro!: round64_mono simp: fsub_def)

end
