(* ===== verification/Lifecycle.thy ===== *)
theory Lifecycle
  imports Errors
begin

section \<open>The lifecycle state machine (src/lifecycle.rs)\<close>

text \<open>
  The eleven lifecycle states, their persisted names and the static transition table. A
  state machine with final states is an interface of its own (locale \<open>phase_machine\<close>, and
  \<open>gated_machine\<close> for a machine whose target state has a single entry): the transition
  table is an instance here, the recovery journal's phases are one in theory Persistence. The results: the
  terminal states are exactly RECLAIMED and FAILED, RECLAIMED is entered only from
  RECLAIM_PENDING, every run that reclaims an object leaves the live states through DEDUPED,
  ARCHIVED or RECOMPUTABLE, and no live state is a dead end.
\<close>

datatype lifecycle_state =
    Created | Hot | Warm | Cold | Compressed | Deduped | Archived | Recomputable
  | ReclaimPending | Reclaimed | Failed

fun state_str :: "lifecycle_state \<Rightarrow> string" where
  "state_str Created = ''CREATED''"
| "state_str Hot = ''HOT''"
| "state_str Warm = ''WARM''"
| "state_str Cold = ''COLD''"
| "state_str Compressed = ''COMPRESSED''"
| "state_str Deduped = ''DEDUPED''"
| "state_str Archived = ''ARCHIVED''"
| "state_str Recomputable = ''RECOMPUTABLE''"
| "state_str ReclaimPending = ''RECLAIM_PENDING''"
| "state_str Reclaimed = ''RECLAIMED''"
| "state_str Failed = ''FAILED''"

definition parse_state :: "string \<Rightarrow> lifecycle_state result" where
  "parse_state s =
     (if s = ''CREATED'' then Inr Created
      else if s = ''HOT'' then Inr Hot
      else if s = ''WARM'' then Inr Warm
      else if s = ''COLD'' then Inr Cold
      else if s = ''COMPRESSED'' then Inr Compressed
      else if s = ''DEDUPED'' then Inr Deduped
      else if s = ''ARCHIVED'' then Inr Archived
      else if s = ''RECOMPUTABLE'' then Inr Recomputable
      else if s = ''RECLAIM_PENDING'' then Inr ReclaimPending
      else if s = ''RECLAIMED'' then Inr Reclaimed
      else if s = ''FAILED'' then Inr Failed
      else Inl (InvalidArgument [Lit ''unknown lifecycle state: '', Str s]))"

datatype transition_result = Allowed | Noop

fun transition_table :: "lifecycle_state \<Rightarrow> lifecycle_state list" where
  "transition_table Created = [Hot, Warm, Cold, Failed]"
| "transition_table Hot = [Warm, Cold, Compressed, Archived, Recomputable, Deduped, Failed]"
| "transition_table Warm = [Hot, Cold, Compressed, Archived, Recomputable, Failed]"
| "transition_table Cold = [Hot, Warm, Compressed, Archived, Recomputable, Deduped, Failed]"
| "transition_table Compressed = [Hot, Warm, Cold, Archived, Recomputable, Failed]"
| "transition_table Deduped =
     [Hot, Warm, Cold, Archived, Recomputable, ReclaimPending, Failed]"
| "transition_table Archived = [Hot, Warm, Recomputable, ReclaimPending, Failed]"
| "transition_table Recomputable = [Hot, Warm, ReclaimPending, Failed]"
| "transition_table ReclaimPending = [Reclaimed, Hot, Warm, Failed]"
| "transition_table Reclaimed = []"
| "transition_table Failed = []"

definition check_transition :: "lifecycle_state \<Rightarrow> lifecycle_state \<Rightarrow> transition_result result" where
  "check_transition a b =
     (if a = b then Inr Noop
      else if b \<in> set (transition_table a) then Inr Allowed
      else Inl (InvalidTransition [Str (state_str a)] [Str (state_str b)]))"

text \<open>The step relation of the table, and the runs it allows.\<close>

definition moves :: "lifecycle_state \<Rightarrow> lifecycle_state \<Rightarrow> bool" where
  "moves a b \<longleftrightarrow> check_transition a b = Inr Allowed"

definition terminal :: "lifecycle_state \<Rightarrow> bool" where
  "terminal s \<longleftrightarrow> s = Reclaimed \<or> s = Failed"

text \<open>A run as the list of the states visited after the first one.\<close>

fun lifecycle_run :: "lifecycle_state \<Rightarrow> lifecycle_state list \<Rightarrow> bool" where
  "lifecycle_run s [] = True"
| "lifecycle_run s (t # ts) = (is_ok (check_transition s t) \<and> lifecycle_run t ts)"

text \<open>The states the reclaim transaction starts from directly, and the ones it demotes first.\<close>

definition live_resident :: "lifecycle_state \<Rightarrow> bool" where
  "live_resident s \<longleftrightarrow> s = Hot \<or> s = Warm \<or> s = Cold \<or> s = Compressed"

subsection \<open>State machines with final states\<close>

locale phase_machine =
  fixes step :: "'s \<Rightarrow> 's \<Rightarrow> bool" and final :: "'s \<Rightarrow> bool"
  assumes final_stuck: "final s \<Longrightarrow> \<not> step s t"
begin

lemma run_from_final: "step\<^sup>*\<^sup>* s t \<Longrightarrow> final s \<Longrightarrow> t = s"
  by (induction rule: rtranclp_induct) (auto dest: final_stuck)

lemma final_only_at_end: "step\<^sup>*\<^sup>* s t \<Longrightarrow> step t u \<Longrightarrow> \<not> final t"
  using final_stuck by blast

end

locale gated_machine = phase_machine step final
  for step :: "'s \<Rightarrow> 's \<Rightarrow> bool" and final :: "'s \<Rightarrow> bool" +
  fixes target :: "'s" and gate :: "'s \<Rightarrow> bool"
  assumes entry: "step s target \<Longrightarrow> gate s"
begin

lemma run_through_gate: "step\<^sup>*\<^sup>* s target \<Longrightarrow> s \<noteq> target \<Longrightarrow> \<exists>g. gate g \<and> step\<^sup>*\<^sup>* s g \<and> step g target"
  by (metis entry rtranclp.cases)

end

subsection \<open>The table as such a machine\<close>

lemma moves_iff: "moves a b \<longleftrightarrow> a \<noteq> b \<and> b \<in> set (transition_table a)"
  by (simp add: moves_def check_transition_def)

lemma transition_table_irrefl: "a \<notin> set (transition_table a)"
  by (cases a) simp_all

interpretation lifecycle: gated_machine moves terminal Reclaimed "\<lambda>s. s = ReclaimPending"
proof unfold_locales
  show "\<not> moves s t" if "terminal s" for s t
    using that by (auto simp: terminal_def moves_iff)
  show "s = ReclaimPending" if "moves s Reclaimed" for s
    using that by (cases s) (simp_all add: moves_iff)
qed

interpretation pending: gated_machine moves terminal ReclaimPending
  "\<lambda>s. s = Deduped \<or> s = Archived \<or> s = Recomputable"
proof unfold_locales
  show "s = Deduped \<or> s = Archived \<or> s = Recomputable" if "moves s ReclaimPending" for s
    using that by (cases s) (simp_all add: moves_iff)
qed

lemma is_ok_check_transition: "is_ok (check_transition a b) \<longleftrightarrow> a = b \<or> moves a b"
  by (auto simp: check_transition_def moves_def is_ok_iff)

lemma lifecycle_run_moves: "lifecycle_run s ts \<Longrightarrow> t \<in> set ts \<Longrightarrow> moves\<^sup>*\<^sup>* s t"
proof (induction s ts rule: lifecycle_run.induct)
  case (1 s)
  then show ?case by simp
next
  case (2 s u ts)
  then have "moves\<^sup>*\<^sup>* s u" by (auto simp: is_ok_check_transition)
  then show ?case using 2 by auto
qed



text \<open>
  The terminal states are exactly RECLAIMED and FAILED: a run that has reached one of
  them stays in it forever (a request for the same state is an idempotent no-op), and from
  every other state some transition is possible, FAILED among them.
\<close>

theorem terminal_states:
  "(\<forall>ts. lifecycle_run s ts \<longrightarrow> set ts \<subseteq> {s}) \<longleftrightarrow> terminal s"
proof
  assume "terminal s"
  then show "\<forall>ts. lifecycle_run s ts \<longrightarrow> set ts \<subseteq> {s}"
    using lifecycle_run_moves lifecycle.run_from_final by blast
next
  assume r: "\<forall>ts. lifecycle_run s ts \<longrightarrow> set ts \<subseteq> {s}"
  show "terminal s"
  proof (rule ccontr)
    assume "\<not> terminal s"
    then have "Failed \<in> set (transition_table s)" and "s \<noteq> Failed"
      by (cases s; simp add: terminal_def)+
    then have "lifecycle_run s [Failed]" by (simp add: check_transition_def)
    with r \<open>s \<noteq> Failed\<close> show False by fastforce
  qed
qed

theorem terminal_states_witness:
  "terminal Reclaimed \<and> \<not> terminal Hot \<and> (\<exists>ts. lifecycle_run Hot ts \<and> \<not> set ts \<subseteq> {Hot})"
proof -
  have t: "terminal Reclaimed" "\<not> terminal Hot" by (simp_all add: terminal_def)
  then show ?thesis using terminal_states [of Hot] by blast
qed

lemma parse_state_str [simp]: "parse_state (state_str s) = Inr s"
  by (cases s) (simp_all add: parse_state_def)

lemma parse_state_Inr: "parse_state t = Inr s \<Longrightarrow> t = state_str s"
  by (auto simp: parse_state_def split: if_splits)

lemma state_str_inj: "state_str a = state_str b \<longleftrightarrow> a = b"
  by (metis Inr_inject parse_state_str)

text \<open>
  The persisted name of a state is decoded to that state and no other text is accepted:
  parsing is exactly the inverse of printing.
\<close>

theorem parse_state_iff: "parse_state t = Inr s \<longleftrightarrow> t = state_str s"
  using parse_state_Inr by auto

lemma reclaim_route:
  assumes "live_resident s"
  shows "check_transition s Recomputable = Inr Allowed"
    and "check_transition Recomputable ReclaimPending = Inr Allowed"
  using assms by (auto simp: live_resident_def check_transition_def)

lemma check_transition_pending:
  "is_ok (check_transition s ReclaimPending) \<longleftrightarrow>
     s \<in> {Deduped, Archived, Recomputable, ReclaimPending}"
  by (cases s) (simp_all add: check_transition_def)

end
