(* ===== verification/Integrity.thy ===== *)
theory Integrity
  imports Errors
begin

unbundle bit_operations_syntax

section \<open>Content identity (src/integrity.rs)\<close>

text \<open>
  A content hash is 32 bytes. SHA-256 itself is the crate \<open>sha2\<close>: the function is a
  parameter \<open>sha\<close> of every definition that hashes. The hexadecimal form is modelled byte
  for byte; its round trip is \<open>from_hex_hash_str\<close>.
\<close>

type_synonym content_hash = bytes
type_synonym sha_fun = "bytes \<Rightarrow> content_hash"

definition hash_of :: "sha_fun \<Rightarrow> bytes \<Rightarrow> content_hash" where
  "hash_of sha data = sha data"

definition hash_empty :: "sha_fun \<Rightarrow> content_hash" where
  "hash_empty sha = hash_of sha []"

definition nibble :: "byte \<Rightarrow> byte option" where
  "nibble b =
     (if 48 \<le> b \<and> b \<le> 57 then Some (b - 48)
      else if 97 \<le> b \<and> b \<le> 102 then Some (b - 97 + 10)
      else if 65 \<le> b \<and> b \<le> 70 then Some (b - 65 + 10)
      else None)"

fun hex_pairs :: "bytes \<Rightarrow> bytes result" where
  "hex_pairs (a # b # rest) =
     bindr (ok_or (nibble a) (InvalidArgument [Lit ''invalid content hash hex''])) (\<lambda>high.
     bindr (ok_or (nibble b) (InvalidArgument [Lit ''invalid content hash hex''])) (\<lambda>low.
     bindr (hex_pairs rest) (\<lambda>out. Inr ((push_bit 4 high OR low) # out))))"
| "hex_pairs _ = Inr []"

definition from_hex :: "string \<Rightarrow> content_hash result" where
  "from_hex s =
     (if length s \<noteq> 64 then Inl (InvalidArgument [Lit ''content hash must be 64 hex chars''])
      else hex_pairs (map of_char s))"

definition hex_digit :: "nat \<Rightarrow> char" where
  "hex_digit n = (if n < 10 then char_of (48 + n) else char_of (87 + n))"

definition hash_str :: "content_hash \<Rightarrow> string" where
  "hash_str h = concat (map (\<lambda>b. [hex_digit (unat b div 16), hex_digit (unat b mod 16)]) h)"

definition verify_sha256 :: "sha_fun \<Rightarrow> bytes \<Rightarrow> content_hash \<Rightarrow> unit result" where
  "verify_sha256 sha data expected =
     (let actual = hash_of sha data in
      if actual \<noteq> expected
      then Inl (IntegrityFailure
        [Lit ''sha256 mismatch: expected '', Hsh expected, Lit '', got '', Hsh actual])
      else Inr ())"

definition hash_wf :: "content_hash \<Rightarrow> bool" where
  "hash_wf h \<longleftrightarrow> length h = 32"

subsection \<open>Hexadecimal round trip\<close>

lemma byte_of_char: "m < 256 \<Longrightarrow> (of_char (char_of (m :: nat)) :: byte) = of_nat m"
proof -
  assume "m < 256"
  then have "of_char (char_of m) = m" by simp
  then show ?thesis by (metis of_nat_of_char)
qed

lemma nibble_hex_digit: "n < 16 \<Longrightarrow> nibble (of_char (hex_digit n)) = Some (of_nat n)"
proof (cases "n < 10")
  case True
  have w: "(of_char (hex_digit n) :: byte) = of_nat (48 + n)"
    unfolding hex_digit_def using True byte_of_char [of "48 + n"] by simp
  have "unat (of_nat (48 + n) :: byte) = 48 + n" using True by (subst unat_of_nat) simp
  then show ?thesis using True unfolding w by (simp add: nibble_def word_le_nat_alt)
next
  case False
  assume n: "n < 16"
  have w: "(of_char (hex_digit n) :: byte) = of_nat (87 + n)"
    unfolding hex_digit_def using n False byte_of_char [of "87 + n"] by simp
  have "unat (of_nat (87 + n) :: byte) = 87 + n" using n by (subst unat_of_nat) simp
  then show ?thesis using n False unfolding w by (simp add: nibble_def word_le_nat_alt)
qed

lemma unat_byte_less: "unat (b :: byte) < 256"
  using unsigned_less [of b] by simp

lemma high_nibble: "(of_nat (unat b div 16) :: byte) = drop_bit 4 b"
  using unat_byte_less [of b] by (simp add: word_unat_eq_iff drop_bit_eq_div unat_div unat_of_nat)

lemma low_nibble: "(of_nat (unat b mod 16) :: byte) = take_bit 4 b"
  using unat_byte_less [of b] by (simp add: word_unat_eq_iff take_bit_eq_mod unat_mod unat_of_nat)

lemma byte_of_nibbles: "push_bit 4 (of_nat (unat b div 16)) OR of_nat (unat b mod 16) = (b :: byte)"
  unfolding high_nibble low_nibble by (rule bit_eqI) (auto simp: bit_simps)

lemma length_hash_str [simp]: "length (hash_str h) = 2 * length h"
  by (induction h) (auto simp: hash_str_def)

lemma hex_pairs_hash_str: "hex_pairs (map of_char (hash_str h)) = Inr h"
proof (induction h)
  case Nil
  then show ?case by (simp add: hash_str_def)
next
  case (Cons b h)
  have "unat b div 16 < 16" "unat b mod 16 < 16" using unat_byte_less [of b] by auto
  then show ?case using Cons
    by (simp add: hash_str_def nibble_hex_digit byte_of_nibbles)
qed

lemma from_hex_inverse: "hash_wf h \<Longrightarrow> from_hex (hash_str h) = Inr h"
  by (simp add: from_hex_def hash_wf_def hex_pairs_hash_str)

text \<open>
  The 64-digit hexadecimal text of a content hash is decoded to that hash, so the text
  the store and the journal keep identifies the content.
\<close>

theorem from_hex_hash_str:
  assumes "hash_wf h"
  shows "from_hex (hash_str h) = Inr h"
  using assms by (rule from_hex_inverse)

theorem from_hex_hash_str_witness:
  "hash_wf (replicate 32 171) \<and> from_hex (hash_str (replicate 32 171)) = Inr (replicate 32 171)"
proof -
  have h: "hash_wf (replicate 32 171)" by (simp add: hash_wf_def)
  show ?thesis using h from_hex_hash_str [OF h] by simp
qed

lemma length_hex_pairs: "hex_pairs bs = Inr h \<Longrightarrow> length h = length bs div 2"
  by (induction bs arbitrary: h rule: hex_pairs.induct) (auto simp: bindr_Inr_iff)

lemma from_hex_wf: "from_hex s = Inr h \<Longrightarrow> hash_wf h"
  by (auto simp: from_hex_def hash_wf_def dest: length_hex_pairs split: if_splits)

lemma hash_str_inj: "hash_wf a \<Longrightarrow> hash_wf b \<Longrightarrow> hash_str a = hash_str b \<longleftrightarrow> a = b"
  using from_hex_inverse by (metis Inr_inject)

lemma verify_sha256_iff: "verify_sha256 sha data h = Inr u \<longleftrightarrow> sha data = h"
  by (simp add: verify_sha256_def hash_of_def Let_def)

end
