(* ===== verification/Objects.thy ===== *)
theory Objects
  imports Lifecycle Integrity
begin

section \<open>Tracked objects (src/object.rs)\<close>

text \<open>
  The metadata of a tracked object and of a physical replica, and the bounds every record is
  checked against before it enters the store. Application metadata is an ordered map from
  keys to JSON values; \<open>json\<close> is the value type of \<open>serde_json\<close>. The lemmas state
  exactly which objects \<open>validate\<close> accepts.
\<close>

datatype durability_class = DurEphemeral | DurRecomputable | DurDurable | DurCritical

fun min_valid_copies :: "durability_class \<Rightarrow> nat" where
  "min_valid_copies DurEphemeral = 0"
| "min_valid_copies DurRecomputable = 0"
| "min_valid_copies DurDurable = 1"
| "min_valid_copies DurCritical = 2"

datatype survivability_class = SurEphemeral | SurRecomputable | SurDurable | SurCritical

datatype physical_kind = HotKind | DurableKind | ArchivedKind

fun kind_str :: "physical_kind \<Rightarrow> string" where
  "kind_str HotKind = ''HOT''"
| "kind_str DurableKind = ''DURABLE''"
| "kind_str ArchivedKind = ''ARCHIVED''"

record physical_location =
  loc_backend :: string
  loc_key :: string
  loc_kind :: physical_kind

record replica =
  replica_id :: uuid
  rep_object_id :: uuid
  rep_generation :: nat
  rep_location :: physical_location
  rep_size :: nat
  rep_content_hash :: content_hash
  rep_created_at_ms :: int
  verified_at_ms :: "int option"
  valid :: bool
  owner_node :: "string option"

datatype json =
    JNull
  | JBool bool
  | JInt int
  | JFloat f64
  | JString string
  | JArray "json list"
  | JObject "(string \<times> json) list"

record reclaim_object =
  id :: uuid
  generation :: nat
  obj_class :: string
  logical_size :: nat
  physical_size :: nat
  compressed_size :: "nat option"
  created_at_ms :: int
  last_access_ms :: int
  access_count :: nat
  reuse_probability :: f64
  reuse_horizon_secs :: "nat option"
  recompute_cost :: "f64 option"
  recompute_latency_secs :: "f64 option"
  transfer_cost :: "f64 option"
  migration_cost :: "f64 option"
  storage_cost_per_byte_sec :: f64
  memory_cost_per_byte_sec :: f64
  replication_count :: nat
  obj_durability :: durability_class
  obj_survivability :: survivability_class
  owner :: string
  obj_content_hash :: "content_hash option"
  obj_state :: lifecycle_state
  policy_version :: string
  decision_epoch :: nat
  pinned :: bool
  protected :: bool
  min_retention_deadline_ms :: "int option"
  max_retention_deadline_ms :: "int option"
  app_metadata :: "(string \<times> json) list"

definition new_object :: "uuid \<Rightarrow> nat \<Rightarrow> string \<Rightarrow> nat \<Rightarrow> int \<Rightarrow> reclaim_object" where
  "new_object i g cls bytes_len now = \<lparr>
     id = i, generation = g, obj_class = cls, logical_size = bytes_len, physical_size = 0,
     compressed_size = None, created_at_ms = now, last_access_ms = now, access_count = 0,
     reuse_probability = Fin 0, reuse_horizon_secs = None, recompute_cost = None,
     recompute_latency_secs = None, transfer_cost = None, migration_cost = None,
     storage_cost_per_byte_sec = Fin 0, memory_cost_per_byte_sec = Fin 0,
     replication_count = 0, obj_durability = DurEphemeral, obj_survivability = SurEphemeral,
     owner = [], obj_content_hash = None, obj_state = Created, policy_version = [],
     decision_epoch = 0, pinned = False, protected = False,
     min_retention_deadline_ms = None, max_retention_deadline_ms = None, app_metadata = []\<rparr>"

definition set_app_metadata :: "string \<Rightarrow> json \<Rightarrow> reclaim_object \<Rightarrow> reclaim_object" where
  "set_app_metadata k v obj = obj\<lparr>app_metadata := bt_insert k v (app_metadata obj)\<rparr>"

definition nonneg_cost :: "string \<Rightarrow> f64 \<Rightarrow> unit result" where
  "nonneg_cost name v =
     ensure (is_finite v \<and> \<not> flt v (Fin 0))
       (InvalidArgument [Str name, Lit '' must be finite and non-negative, got '', Flt v])"

definition optional_cost :: "string \<Rightarrow> f64 option \<Rightarrow> unit result" where
  "optional_cost name v = (case v of None \<Rightarrow> Inr () | Some x \<Rightarrow> nonneg_cost name x)"

definition validate_object :: "reclaim_object \<Rightarrow> unit result" where
  "validate_object obj =
     bindr (ensure (is_finite (reuse_probability obj)
              \<and> fcontains (Fin 0) (Fin 1) (reuse_probability obj))
        (InvalidArgument [Lit ''reuse_probability out of range: '', Flt (reuse_probability obj)])) (\<lambda>_.
     bindr (for_each
        [(''recompute_cost'', recompute_cost obj),
         (''recompute_latency_secs'', recompute_latency_secs obj),
         (''transfer_cost'', transfer_cost obj),
         (''migration_cost'', migration_cost obj)]
        (\<lambda>(name, v). optional_cost name v)) (\<lambda>_.
     bindr (for_each
        [(''storage_cost_per_byte_sec'', storage_cost_per_byte_sec obj),
         (''memory_cost_per_byte_sec'', memory_cost_per_byte_sec obj)]
        (\<lambda>(name, v). nonneg_cost name v)) (\<lambda>_.
     bindr (ensure (\<not> blank (obj_class obj)) (InvalidArgument [Lit ''class must not be empty''])) (\<lambda>_.
     (case (min_retention_deadline_ms obj, max_retention_deadline_ms obj) of
        (Some lo, Some hi) \<Rightarrow> ensure (\<not> lo > hi)
          (InvalidArgument [Lit ''min_retention_deadline_ms must not exceed max_retention_deadline_ms''])
      | _ \<Rightarrow> Inr ())))))"

text \<open>The range a validated object's scalars are in.\<close>

definition cost_ok :: "f64 option \<Rightarrow> bool" where
  "cost_ok v \<longleftrightarrow> (case v of None \<Rightarrow> True | Some x \<Rightarrow> is_finite x \<and> fle (Fin 0) x)"

definition object_ok :: "reclaim_object \<Rightarrow> bool" where
  "object_ok obj \<longleftrightarrow>
     fle (Fin 0) (reuse_probability obj) \<and> fle (reuse_probability obj) (Fin 1) \<and>
     cost_ok (recompute_cost obj) \<and> cost_ok (recompute_latency_secs obj) \<and>
     cost_ok (transfer_cost obj) \<and> cost_ok (migration_cost obj) \<and>
     cost_ok (Some (storage_cost_per_byte_sec obj)) \<and>
     cost_ok (Some (memory_cost_per_byte_sec obj)) \<and>
     \<not> blank (obj_class obj) \<and>
     (\<forall>lo hi. min_retention_deadline_ms obj = Some lo \<longrightarrow> max_retention_deadline_ms obj = Some hi
        \<longrightarrow> lo \<le> hi)"

lemma nonneg_cost_iff: "nonneg_cost name v = Inr u \<longleftrightarrow> cost_ok (Some v)"
  by (cases v) (auto simp: nonneg_cost_def cost_ok_def flt_def)

lemma unit_interval_finite: "fle (Fin 0) p \<Longrightarrow> fle p (Fin 1) \<Longrightarrow> is_finite p"
  by (cases p) auto

lemma optional_cost_iff: "optional_cost name v = Inr u \<longleftrightarrow> cost_ok v"
  by (cases v) (simp_all add: optional_cost_def nonneg_cost_iff, simp add: cost_ok_def)

lemma unit_interval_iff:
  "is_finite p \<and> fcontains (Fin 0) (Fin 1) p \<longleftrightarrow> fle (Fin 0) p \<and> fle p (Fin 1)"
  using unit_interval_finite by (auto simp: fcontains_def)

lemma validate_object_iff: "validate_object obj = Inr () \<longleftrightarrow> object_ok obj"
  unfolding validate_object_def object_ok_def unit_interval_iff
  by (simp add: bindr_Inr_iff for_each_Inr_iff nonneg_cost_iff optional_cost_iff
        not_less split: option.splits)

lemma validate_object_class:
  "errs (\<lambda>e. err_class e = ''invalid_argument'') (validate_object obj)"
  unfolding validate_object_def
  by (intro errs_bindr errs_for_each)
    (auto simp: nonneg_cost_def optional_cost_def split: option.splits)

text \<open>
  C32: \<open>validate\<close> accepts exactly the objects whose reuse probability is in the unit interval,
  whose costs and rates are finite and not negative, whose class is not blank and whose
  retention deadlines are in order; every rejection is an \<open>invalid_argument\<close> error.
\<close>

theorem validate_object_spec:
  "(validate_object obj = Inr () \<longleftrightarrow> object_ok obj) \<and>
   (\<not> object_ok obj \<longrightarrow> (\<exists>m. validate_object obj = Inl (InvalidArgument m)))"
proof -
  have "\<exists>m. e = InvalidArgument m" if "err_class e = ''invalid_argument''" for e :: error
    using that by (cases e) simp_all
  then show ?thesis
    using validate_object_iff [of obj] errsD [OF validate_object_class [of obj]]
    by (cases "validate_object obj") auto
qed

theorem validate_object_spec_witness:
  "validate_object ((new_object 1 1 ''checkpoint'' 4 0)\<lparr>reuse_probability := Fin 2\<rparr>) =
     Inl (InvalidArgument [Lit ''reuse_probability out of range: '', Flt (Fin 2)]) \<and>
   (\<exists>m. validate_object ((new_object 1 1 ''checkpoint'' 4 0)\<lparr>reuse_probability := Fin 2\<rparr>) =
     Inl (InvalidArgument m))"
  using validate_object_spec [of "(new_object 1 1 ''checkpoint'' 4 0)\<lparr>reuse_probability := Fin 2\<rparr>"]
  by (simp add: validate_object_def new_object_def fcontains_def object_ok_def)

end
