(* ===== verification/Dedup.thy ===== *)
theory Dedup
  imports Objects
begin

section \<open>Content deduplication (src/dedup.rs)\<close>

text \<open>
  The registry of deduplicated payloads: one entry per content hash and backend, an index
  from physical keys back to content, and reference counts. \<open>ref_counting\<close> is the
  contract both this registry and the durable table offer; what it promises is proved once
  inside the locale. The main results: a physical key never stands for two contents, the
  index and the entries agree after every operation, a release reports the last reference
  exactly when the count reaches zero, and the check after a restart accepts exactly the
  counts that equal the live references.
\<close>

record dedup_entry =
  de_content_hash :: content_hash
  de_backend :: string
  de_key :: string
  ref_count :: nat
  payload_size :: nat

record dedup_registry =
  by_hash :: "((content_hash \<times> string) \<times> dedup_entry) list"
  by_key :: "((string \<times> string) \<times> content_hash) list"

definition new_dedup :: dedup_registry where
  "new_dedup = \<lparr>by_hash = [], by_key = []\<rparr>"

definition dedup_insert :: "dedup_entry \<Rightarrow> dedup_registry \<Rightarrow> dedup_registry result" where
  "dedup_insert e r =
     (if de_backend e = [] \<or> de_key e = [] \<or> ref_count e = 0
      then Inl (Dedup [Lit ''dedup entry requires backend, key, and at least one reference''])
      else let identity = (de_content_hash e, de_backend e); physical = (de_backend e, de_key e) in
        if (case map_of (by_key r) physical of None \<Rightarrow> False | Some h \<Rightarrow> h \<noteq> de_content_hash e)
        then Inl (Dedup [Lit ''physical key '', Str (de_key e), Lit '' on '', Str (de_backend e),
               Lit '' is already assigned to different content''])
        else let keys = (case map_of (by_hash r) identity of
                    None \<Rightarrow> by_key r
                  | Some previous \<Rightarrow> bt_remove (de_backend previous, de_key previous) (by_key r))
             in Inr (r\<lparr>by_hash := bt_insert identity e (by_hash r),
                       by_key := bt_insert physical (de_content_hash e) keys\<rparr>))"

text \<open>\<open>Iterator::min_by\<close> on backend and key: the first of the least elements.\<close>

fun min_entry :: "dedup_entry list \<Rightarrow> dedup_entry option" where
  "min_entry [] = None"
| "min_entry (e # es) =
     (case min_entry es of
        None \<Rightarrow> Some e
      | Some m \<Rightarrow> if (de_backend e, de_key e) \<le> (de_backend m, de_key m) then Some e else Some m)"

definition dedup_get :: "content_hash \<Rightarrow> dedup_registry \<Rightarrow> dedup_entry option" where
  "dedup_get h r = min_entry (filter (\<lambda>e. de_content_hash e = h) (map snd (by_hash r)))"

definition get_on :: "content_hash \<Rightarrow> string \<Rightarrow> dedup_registry \<Rightarrow> dedup_entry option" where
  "get_on h b r = map_of (by_hash r) (h, b)"

definition remove_identity :: "content_hash \<times> string \<Rightarrow> dedup_registry \<Rightarrow> dedup_registry" where
  "remove_identity i r =
     (case map_of (by_hash r) i of
        None \<Rightarrow> r
      | Some e \<Rightarrow> r\<lparr>by_hash := bt_remove i (by_hash r),
                   by_key := bt_remove (de_backend e, de_key e) (by_key r)\<rparr>)"

definition remove_hash :: "content_hash \<Rightarrow> dedup_registry \<Rightarrow> dedup_registry" where
  "remove_hash h r =
     fold remove_identity (filter (\<lambda>i. fst i = h) (map fst (by_hash r))) r"

definition remove_on :: "content_hash \<Rightarrow> string \<Rightarrow> dedup_registry \<Rightarrow> dedup_registry" where
  "remove_on h b r = remove_identity (h, b) r"

definition unique_backend :: "content_hash \<Rightarrow> dedup_registry \<Rightarrow> string result" where
  "unique_backend h r =
     (case map snd (filter (\<lambda>i. fst i = h) (map fst (by_hash r))) of
        [] \<Rightarrow> Inl (Dedup [Lit ''unknown content '', Hsh h])
      | [b] \<Rightarrow> Inr b
      | _ \<Rightarrow> Inl (Dedup [Lit ''content '', Hsh h,
               Lit '' exists on multiple backends; backend is required'']))"

definition acquire_on :: "content_hash \<Rightarrow> string \<Rightarrow> dedup_registry \<Rightarrow> dedup_registry result" where
  "acquire_on h b r =
     bindr (ok_or (map_of (by_hash r) (h, b))
       (Dedup [Lit ''cannot acquire unknown content '', Hsh h, Lit '' on '', Str b])) (\<lambda>e.
     bindr (ok_or (checked_add_u64 (ref_count e) 1) (Dedup [Lit ''dedup ref_count overflow''])) (\<lambda>n.
     Inr (r\<lparr>by_hash := bt_insert (h, b) (e\<lparr>ref_count := n\<rparr>) (by_hash r)\<rparr>)))"

definition acquire :: "content_hash \<Rightarrow> dedup_registry \<Rightarrow> dedup_registry result" where
  "acquire h r = bindr (unique_backend h r) (\<lambda>b. acquire_on h b r)"

definition release_on ::
  "content_hash \<Rightarrow> string \<Rightarrow> dedup_registry \<Rightarrow> (bool \<times> dedup_registry) result" where
  "release_on h b r =
     bindr (ok_or (map_of (by_hash r) (h, b))
       (Dedup [Lit ''cannot release unknown content '', Hsh h, Lit '' on '', Str b])) (\<lambda>e.
     if ref_count e = 0
     then Inl (Dedup [Lit ''release on content '', Hsh h, Lit '' with zero references''])
     else Inr (ref_count e - 1 = 0,
       r\<lparr>by_hash := bt_insert (h, b) (e\<lparr>ref_count := ref_count e - 1\<rparr>) (by_hash r)\<rparr>))"

definition release :: "content_hash \<Rightarrow> dedup_registry \<Rightarrow> (bool \<times> dedup_registry) result" where
  "release h r = bindr (unique_backend h r) (\<lambda>b. release_on h b r)"

definition dedup_verify :: "sha_fun \<Rightarrow> content_hash \<Rightarrow> bytes \<Rightarrow> unit result" where
  "dedup_verify sha h data =
     map_err (\<lambda>e. Dedup (Lit ''dedup collision check failed: '' # display e)) (verify_sha256 sha data h)"

definition dedup_len :: "dedup_registry \<Rightarrow> nat" where
  "dedup_len r = length (by_hash r)"

definition dedup_all :: "dedup_registry \<Rightarrow> dedup_entry list" where
  "dedup_all r = sort_key (\<lambda>e. (de_content_hash e, de_backend e, de_key e)) (map snd (by_hash r))"

definition find_canonical :: "dedup_entry list \<Rightarrow> content_hash \<Rightarrow> (string \<times> string) option" where
  "find_canonical es h =
     map_option (\<lambda>e. (de_backend e, de_key e))
       (min_entry (filter (\<lambda>e. de_content_hash e = h \<and> ref_count e > 0) es))"

definition dedup_key :: "content_hash \<Rightarrow> string" where
  "dedup_key h = ''dedup-'' @ hash_str h"

definition add_refs :: "(content_hash \<times> nat) list \<Rightarrow> dedup_entry \<Rightarrow> ((content_hash \<times> nat) list) result" where
  "add_refs m e =
     (let total = (case map_of m (de_content_hash e) of None \<Rightarrow> 0 | Some n \<Rightarrow> n) in
      bindr (ok_or (checked_add_u64 total (ref_count e)) (Recovery [Lit ''dedup ref-count overflow'']))
        (\<lambda>n. Inr (bt_insert (de_content_hash e) n m)))"

definition ref_totals :: "dedup_entry list \<Rightarrow> ((content_hash \<times> nat) list) result" where
  "ref_totals es = fold_r add_refs [] es"

definition validate_ref_counts :: "dedup_entry list \<Rightarrow> (content_hash \<Rightarrow> nat) \<Rightarrow> unit result" where
  "validate_ref_counts es live_refs =
     bindr (ref_totals es) (\<lambda>totals.
     for_each totals (\<lambda>(h, stored).
       ensure (\<not> stored \<noteq> live_refs h)
         (Recovery [Lit ''dedup ref-count mismatch for '', Hsh h, Lit '': stored '', Num (int stored),
            Lit '', expected '', Num (int (live_refs h))])))"

subsection \<open>The contract of counted references\<close>

text \<open>
  A table of counted references: \<open>refs\<close> is the count of a key, \<open>acquire\<close> adds a
  reference to a known key, \<open>release\<close> takes one and tells whether it was the last.
\<close>

locale ref_counting =
  fixes refs :: "'s \<Rightarrow> 'k \<Rightarrow> nat option"
    and acquire :: "'k \<Rightarrow> 's \<Rightarrow> 'e + 's"
    and release :: "'k \<Rightarrow> 's \<Rightarrow> 'e + bool \<times> 's"
    and ok :: "'s \<Rightarrow> bool"
  assumes acquire_ok: "ok s \<Longrightarrow> acquire k s = Inr s' \<Longrightarrow>
      ok s' \<and> (\<exists>n. refs s k = Some n \<and> refs s' = (refs s)(k \<mapsto> n + 1))"
    and release_ok: "ok s \<Longrightarrow> release k s = Inr (final, s') \<Longrightarrow>
      ok s' \<and> (\<exists>n. refs s k = Some (Suc n) \<and> refs s' = (refs s)(k \<mapsto> n) \<and> (final \<longleftrightarrow> n = 0))"
    and release_possible: "ok s \<Longrightarrow> refs s k = Some (Suc n) \<Longrightarrow> \<exists>r. release k s = Inr r"
begin

text \<open>Release \<open>n\<close> times, collecting the answers.\<close>

fun release_n :: "nat \<Rightarrow> 'k \<Rightarrow> 's \<Rightarrow> 'e + bool list \<times> 's" where
  "release_n 0 k s = Inr ([], s)"
| "release_n (Suc n) k s =
     bindr (release k s) (\<lambda>(b, s'). bindr (release_n n k s') (\<lambda>(bs, s''). Inr (b # bs, s'')))"

lemma other_keys_kept:
  "ok s \<Longrightarrow> acquire k s = Inr s' \<Longrightarrow> j \<noteq> k \<Longrightarrow> refs s' j = refs s j"
  using acquire_ok by fastforce

lemma release_all:
  assumes "ok s" and "refs s k = Some (Suc n)"
  shows "\<exists>s'. release_n (Suc n) k s = Inr (replicate n False @ [True], s') \<and> refs s' k = Some 0 \<and> ok s'"
  using assms
proof (induction n arbitrary: s)
  case 0
  obtain b s' where r: "release k s = Inr (b, s')" using release_possible [OF 0] by fastforce
  from release_ok [OF 0(1) r] 0(2) have "ok s'" "b" "refs s' k = Some 0" by auto
  then show ?case using r by simp
next
  case (Suc n)
  obtain b s' where r: "release k s = Inr (b, s')" using release_possible [OF Suc.prems] by fastforce
  from release_ok [OF Suc.prems(1) r] Suc.prems(2)
  have "ok s'" "\<not> b" "refs s' k = Some (Suc n)" by auto
  then show ?case using r Suc.IH [of s'] by auto
qed

lemma acquire_release:
  assumes "ok s" and "acquire k s = Inr s1"
  shows "\<exists>s2. release k s1 = Inr (refs s k = Some 0, s2) \<and> refs s2 = refs s"
proof -
  from acquire_ok [OF assms] obtain n where n: "ok s1" "refs s k = Some n" "refs s1 = (refs s)(k \<mapsto> n + 1)"
    by blast
  then obtain b s2 where r: "release k s1 = Inr (b, s2)" using release_possible [of s1 k n] by fastforce
  from release_ok [OF n(1) r] n have "refs s2 = (refs s)(k \<mapsto> n)" "b \<longleftrightarrow> n = 0" by auto
  then show ?thesis using r n(2) by (auto simp: fun_eq_iff)
qed

end

text \<open>The entries of the registry offer the contract.\<close>

definition reg_refs :: "dedup_registry \<Rightarrow> content_hash \<times> string \<Rightarrow> nat option" where
  "reg_refs r i = map_option ref_count (map_of (by_hash r) i)"

definition reg_acquire :: "content_hash \<times> string \<Rightarrow> dedup_registry \<Rightarrow> dedup_registry result" where
  "reg_acquire i r = acquire_on (fst i) (snd i) r"

definition reg_release ::
  "content_hash \<times> string \<Rightarrow> dedup_registry \<Rightarrow> (bool \<times> dedup_registry) result" where
  "reg_release i r = release_on (fst i) (snd i) r"

interpretation registry_refs: ref_counting reg_refs reg_acquire reg_release "\<lambda>r. bt_wf (by_hash r)"
proof
  fix s s' :: dedup_registry and k
  assume "bt_wf (by_hash s)" and "reg_acquire k s = Inr s'"
  then show "bt_wf (by_hash s') \<and> (\<exists>n. reg_refs s k = Some n \<and> reg_refs s' = (reg_refs s)(k \<mapsto> n + 1))"
    by (auto simp: reg_acquire_def acquire_on_def reg_refs_def fun_eq_iff bindr_Inr_iff ok_or_Inr_iff
        checked_add_u64_def split: if_splits)
next
  fix s s' :: dedup_registry and k l
  assume "bt_wf (by_hash s)" and "reg_release k s = Inr (l, s')"
  then show "bt_wf (by_hash s') \<and>
      (\<exists>n. reg_refs s k = Some (Suc n) \<and> reg_refs s' = (reg_refs s)(k \<mapsto> n) \<and> (l \<longleftrightarrow> n = 0))"
    by (auto simp: reg_release_def release_on_def reg_refs_def fun_eq_iff bindr_Inr_iff ok_or_Inr_iff
        split: if_splits intro!: exI [of _ "ref_count _ - 1"])
next
  fix s :: dedup_registry and k n
  assume "bt_wf (by_hash s)" and "reg_refs s k = Some (Suc n)"
  then show "\<exists>r. reg_release k s = Inr r"
    by (auto simp: reg_release_def release_on_def reg_refs_def)
qed

subsection \<open>Entries and keys agree\<close>

definition dedup_wf :: "dedup_registry \<Rightarrow> bool" where
  "dedup_wf r \<longleftrightarrow> bt_wf (by_hash r) \<and> bt_wf (by_key r) \<and>
     (\<forall>h b e. map_of (by_hash r) (h, b) = Some e \<longrightarrow>
        de_content_hash e = h \<and> de_backend e = b \<and> map_of (by_key r) (b, de_key e) = Some h) \<and>
     (\<forall>b k h. map_of (by_key r) (b, k) = Some h \<longrightarrow>
        (\<exists>e. map_of (by_hash r) (h, b) = Some e \<and> de_key e = k))"

lemma dedup_wf_hash:
  "dedup_wf r \<Longrightarrow> map_of (by_hash r) (h, b) = Some e \<Longrightarrow>
     de_content_hash e = h \<and> de_backend e = b \<and> map_of (by_key r) (b, de_key e) = Some h"
  by (simp add: dedup_wf_def)

lemma dedup_wf_phys:
  "dedup_wf r \<Longrightarrow> map_of (by_key r) (b, k) = Some h \<Longrightarrow>
     \<exists>e. map_of (by_hash r) (h, b) = Some e \<and> de_key e = k"
  by (simp add: dedup_wf_def)

lemma dedup_wf_new: "dedup_wf new_dedup"
  by (simp add: dedup_wf_def new_dedup_def)

lemma dedup_wf_insert:
  assumes "dedup_wf r" and "dedup_insert e r = Inr r'"
  shows "dedup_wf r'"
proof -
  let ?h = "de_content_hash e" and ?b = "de_backend e" and ?k = "de_key e"
  let ?keys = "case map_of (by_hash r) (?h, ?b) of None \<Rightarrow> by_key r
    | Some p \<Rightarrow> bt_remove (de_backend p, de_key p) (by_key r)"
  have free: "map_of (by_key r) (?b, ?k) = None \<or> map_of (by_key r) (?b, ?k) = Some ?h"
    and r': "r' = r\<lparr>by_hash := bt_insert (?h, ?b) e (by_hash r),
        by_key := bt_insert (?b, ?k) ?h ?keys\<rparr>"
    using assms(2) by (auto simp: dedup_insert_def Let_def split: if_splits option.splits)
  have wf: "bt_wf (by_hash r)" "bt_wf ?keys"
    using assms(1) by (auto simp: dedup_wf_def split: option.splits)
  have H: "map_of (by_hash r') = (map_of (by_hash r))((?h, ?b) \<mapsto> e)"
    and K: "map_of (by_key r') = (map_of ?keys)((?b, ?k) \<mapsto> ?h)"
    using wf by (simp_all add: r')
  note H1 = dedup_wf_hash [OF assms(1)] and K1 = dedup_wf_phys [OF assms(1)]
  have keys: "map_of ?keys (b, k) = Some h \<longleftrightarrow>
      map_of (by_key r) (b, k) = Some h \<and> (h, b) \<noteq> (?h, ?b)" for b k h
  proof (cases "map_of (by_hash r) (?h, ?b)")
    case None
    then show ?thesis using K1 [of b k h] by auto
  next
    case (Some p)
    note p = H1 [OF Some]
    have "map_of ?keys (b, k) = Some h \<longleftrightarrow> map_of (by_key r) (b, k) = Some h \<and> (b, k) \<noteq> (?b, de_key p)"
      using Some p by simp
    also have "\<dots> \<longleftrightarrow> map_of (by_key r) (b, k) = Some h \<and> (h, b) \<noteq> (?h, ?b)"
      using p Some K1 [of b k h] by auto
    finally show ?thesis .
  qed
  show ?thesis
    unfolding dedup_wf_def
  proof (intro conjI allI impI)
    show "bt_wf (by_hash r')" "bt_wf (by_key r')" using wf by (simp_all add: r')
  next
    fix h b f
    assume f: "map_of (by_hash r') (h, b) = Some f"
    show "de_content_hash f = h" "de_backend f = b"
      using f assms(1) by (auto simp: H dedup_wf_def split: if_splits)
    show "map_of (by_key r') (b, de_key f) = Some h"
    proof (cases "(h, b) = (?h, ?b)")
      case True
      then show ?thesis using f by (simp add: H K)
    next
      case False
      then have old: "map_of (by_hash r) (h, b) = Some f" using f by (auto simp: H split: if_splits)
      then have key: "map_of (by_key r) (b, de_key f) = Some h" using assms(1) by (simp add: dedup_wf_def)
      then have "(b, de_key f) \<noteq> (?b, ?k)" using free False by auto
      then show ?thesis using keys [of b "de_key f" h] key False by (simp add: K del: fun_upd_apply)
        (auto simp: fun_upd_apply)
    qed
  next
    fix b k h
    assume k: "map_of (by_key r') (b, k) = Some h"
    show "\<exists>f. map_of (by_hash r') (h, b) = Some f \<and> de_key f = k"
    proof (cases "(b, k) = (?b, ?k)")
      case True
      then show ?thesis using k by (simp add: H K)
    next
      case False
      then have "map_of (by_key r) (b, k) = Some h" "(h, b) \<noteq> (?h, ?b)" using k keys by (auto simp: K)
      then show ?thesis using assms(1) by (auto simp: H dedup_wf_def)
    qed
  qed
qed

lemma dedup_wf_remove:
  assumes "dedup_wf r"
  shows "dedup_wf (remove_identity i r)"
proof (cases "map_of (by_hash r) i")
  case None
  then show ?thesis using assms by (simp add: remove_identity_def)
next
  case (Some p)
  obtain h b where i: "i = (h, b)" by fastforce
  have p: "de_content_hash p = h" "de_backend p = b" "map_of (by_key r) (b, de_key p) = Some h"
    using assms Some by (auto simp: dedup_wf_def i)
  have r': "remove_identity i r = r\<lparr>by_hash := bt_remove (h, b) (by_hash r),
      by_key := bt_remove (b, de_key p) (by_key r)\<rparr>"
    using Some p by (simp add: remove_identity_def i)
  show ?thesis unfolding r' dedup_wf_def
  proof (intro conjI allI impI)
    fix h' b' f
    assume "map_of (by_hash (r\<lparr>by_hash := bt_remove (h, b) (by_hash r),
      by_key := bt_remove (b, de_key p) (by_key r)\<rparr>)) (h', b') = Some f"
    then have f: "map_of (by_hash r) (h', b') = Some f" "(h', b') \<noteq> (h, b)" by (auto split: if_splits)
    then have key: "map_of (by_key r) (b', de_key f) = Some h'" using assms by (simp add: dedup_wf_def)
    show "de_content_hash f = h'" "de_backend f = b'" using f assms by (simp_all add: dedup_wf_def)
    show "map_of (by_key (r\<lparr>by_hash := bt_remove (h, b) (by_hash r),
      by_key := bt_remove (b, de_key p) (by_key r)\<rparr>)) (b', de_key f) = Some h'"
      using key p(3) f(2) by auto
  next
    fix b' k h'
    assume "map_of (by_key (r\<lparr>by_hash := bt_remove (h, b) (by_hash r),
      by_key := bt_remove (b, de_key p) (by_key r)\<rparr>)) (b', k) = Some h'"
    then have k: "map_of (by_key r) (b', k) = Some h'" "(b', k) \<noteq> (b, de_key p)" by (auto split: if_splits)
    then obtain f where "map_of (by_hash r) (h', b') = Some f" "de_key f = k"
      using dedup_wf_phys [OF assms] by blast
    then show "\<exists>e. map_of (by_hash (r\<lparr>by_hash := bt_remove (h, b) (by_hash r),
      by_key := bt_remove (b, de_key p) (by_key r)\<rparr>)) (h', b') = Some e \<and> de_key e = k"
      using k(2) Some i by auto
  qed (use assms in \<open>auto simp: dedup_wf_def\<close>)
qed

lemma dedup_wf_count:
  assumes "dedup_wf r" and e: "map_of (by_hash r) (h, b) = Some e"
  shows "dedup_wf (r\<lparr>by_hash := bt_insert (h, b) (e\<lparr>ref_count := n\<rparr>) (by_hash r)\<rparr>)"
proof -
  have wf: "bt_wf (by_hash r)" "bt_wf (by_key r)" using assms(1) by (simp_all add: dedup_wf_def)
  show ?thesis unfolding dedup_wf_def
  proof (intro conjI allI impI)
    fix h' b' f
    assume "map_of (by_hash (r\<lparr>by_hash := bt_insert (h, b) (e\<lparr>ref_count := n\<rparr>) (by_hash r)\<rparr>)) (h', b') = Some f"
    then have f: "\<exists>f0. map_of (by_hash r) (h', b') = Some f0 \<and> de_content_hash f = de_content_hash f0
        \<and> de_backend f = de_backend f0 \<and> de_key f = de_key f0"
      using wf e by (auto split: if_splits)
    then show "de_content_hash f = h'" "de_backend f = b'"
      "map_of (by_key (r\<lparr>by_hash := bt_insert (h, b) (e\<lparr>ref_count := n\<rparr>) (by_hash r)\<rparr>)) (b', de_key f) = Some h'"
      using dedup_wf_hash [OF assms(1)] by auto
  next
    fix b' k h'
    assume "map_of (by_key (r\<lparr>by_hash := bt_insert (h, b) (e\<lparr>ref_count := n\<rparr>) (by_hash r)\<rparr>)) (b', k) = Some h'"
    then have "map_of (by_key r) (b', k) = Some h'" by simp
    then obtain f where "map_of (by_hash r) (h', b') = Some f" "de_key f = k"
      using dedup_wf_phys [OF assms(1)] by blast
    then show "\<exists>f. map_of (by_hash (r\<lparr>by_hash := bt_insert (h, b) (e\<lparr>ref_count := n\<rparr>) (by_hash r)\<rparr>)) (h', b') = Some f
        \<and> de_key f = k"
      using wf e by auto
  qed (use wf in auto)
qed

lemma dedup_wf_acquire: "dedup_wf r \<Longrightarrow> acquire_on h b r = Inr r' \<Longrightarrow> dedup_wf r'"
  by (auto simp: acquire_on_def bindr_Inr_iff ok_or_Inr_iff intro: dedup_wf_count)

lemma dedup_wf_release: "dedup_wf r \<Longrightarrow> release_on h b r = Inr (l, r') \<Longrightarrow> dedup_wf r'"
  by (auto simp: release_on_def bindr_Inr_iff ok_or_Inr_iff split: if_splits intro: dedup_wf_count)

lemma dedup_wf_remove_hash: "dedup_wf r \<Longrightarrow> dedup_wf (remove_hash h r)"
proof -
  have "dedup_wf r \<Longrightarrow> dedup_wf (fold remove_identity is r)" for "is"
    by (induction "is" arbitrary: r) (auto intro: dedup_wf_remove)
  then show "dedup_wf r \<Longrightarrow> dedup_wf (remove_hash h r)" by (simp add: remove_hash_def)
qed

inductive dedup_step :: "dedup_registry \<Rightarrow> dedup_registry \<Rightarrow> bool" where
  inserted: "dedup_insert e r = Inr r' \<Longrightarrow> dedup_step r r'"
| acquired: "acquire h r = Inr r' \<Longrightarrow> dedup_step r r'"
| acquired_on: "acquire_on h b r = Inr r' \<Longrightarrow> dedup_step r r'"
| released: "release h r = Inr (l, r') \<Longrightarrow> dedup_step r r'"
| released_on: "release_on h b r = Inr (l, r') \<Longrightarrow> dedup_step r r'"
| removed: "dedup_step r (remove_hash h r)"
| removed_on: "dedup_step r (remove_on h b r)"

lemma dedup_step_wf: "dedup_step r r' \<Longrightarrow> dedup_wf r \<Longrightarrow> dedup_wf r'"
  by (induction rule: dedup_step.induct)
    (auto simp: acquire_def release_def remove_on_def bindr_Inr_iff
      intro: dedup_wf_insert dedup_wf_acquire dedup_wf_release dedup_wf_remove dedup_wf_remove_hash)


definition sample_entry :: "byte \<Rightarrow> string \<Rightarrow> dedup_entry" where
  "sample_entry x k = \<lparr>de_content_hash = [x], de_backend = ''b'', de_key = k, ref_count = 1, payload_size = 4\<rparr>"

definition sample_registry :: dedup_registry where
  "sample_registry = \<lparr>by_hash = [(([1], ''b''), sample_entry 1 ''k''), (([2], ''b''), sample_entry 2 ''l'')],
     by_key = [((''b'', ''k''), [1]), ((''b'', ''l''), [2])]\<rparr>"

lemma sample_registry_reachable: "dedup_step\<^sup>*\<^sup>* new_dedup sample_registry"
proof -
  let ?r = "\<lparr>by_hash = [(([1], ''b''), sample_entry 1 ''k'')], by_key = [((''b'', ''k''), [1])]\<rparr>"
  have "dedup_insert (sample_entry 1 ''k'') new_dedup = Inr ?r"
    by (simp add: dedup_insert_def new_dedup_def sample_entry_def)
  moreover have "dedup_insert (sample_entry 2 ''l'') ?r = Inr sample_registry" by code_simp
  ultimately show ?thesis
    by (meson inserted converse_rtranclp_into_rtranclp rtranclp.rtrancl_refl)
qed


text \<open>
  A payload with \<open>n + 1\<close> references reports "unreferenced" at the last of \<open>n + 1\<close>
  releases and at no earlier one, so content still referenced by another object is never
  offered for deletion.
\<close>

theorem release_reports_last_reference:
  assumes "bt_wf (by_hash r)" and "reg_refs r i = Some (Suc n)"
  shows "\<exists>r'. registry_refs.release_n (Suc n) i r = Inr (replicate n False @ [True], r')
    \<and> reg_refs r' i = Some 0"
  using registry_refs.release_all [OF assms] by blast

theorem release_reports_last_reference_witness:
  "\<exists>r'. registry_refs.release_n (Suc 0) ([1], ''b'') sample_registry = Inr ([True], r')
     \<and> reg_refs r' ([1], ''b'') = Some 0"
proof -
  have "bt_wf (by_hash sample_registry)" by code_simp
  moreover have "reg_refs sample_registry ([1], ''b'') = Some (Suc 0)"
    by (simp add: reg_refs_def sample_registry_def sample_entry_def)
  ultimately show ?thesis using release_reports_last_reference by fastforce
qed

subsection \<open>Reference counts after a restart\<close>

definition total_refs :: "dedup_entry list \<Rightarrow> content_hash \<Rightarrow> nat" where
  "total_refs es h = sum_list (map ref_count (filter (\<lambda>e. de_content_hash e = h) es))"

definition count_of :: "(content_hash \<times> nat) list \<Rightarrow> content_hash \<Rightarrow> nat" where
  "count_of m h = (case map_of m h of None \<Rightarrow> 0 | Some n \<Rightarrow> n)"

lemma add_refs_eq:
  "add_refs m e = (if count_of m (de_content_hash e) + ref_count e \<le> U64_MAX
     then Inr (bt_insert (de_content_hash e) (count_of m (de_content_hash e) + ref_count e) m)
     else Inl (Recovery [Lit ''dedup ref-count overflow'']))"
  by (simp add: add_refs_def count_of_def checked_add_u64_def Let_def)

lemma add_refs_fold:
  assumes "bt_wf m"
  shows "if \<forall>h\<in>de_content_hash ` set es. count_of m h + total_refs es h \<le> U64_MAX
    then \<exists>m'. fold_r add_refs m es = Inr m' \<and> bt_wf m' \<and>
      fst ` set m' = fst ` set m \<union> de_content_hash ` set es \<and>
      (\<forall>h. count_of m' h = count_of m h + total_refs es h)
    else \<exists>e. fold_r add_refs m es = Inl e"
  using assms
proof (induction es arbitrary: m)
  case Nil
  then show ?case by (simp add: total_refs_def)
next
  case (Cons e es)
  let ?h = "de_content_hash e" and ?m = "bt_insert (de_content_hash e) (count_of m (de_content_hash e) + ref_count e) m"
  have cnt: "count_of ?m h = count_of m h + (if h = ?h then ref_count e else 0)" for h
    using Cons.prems by (simp add: count_of_def)
  have tot: "total_refs (e # es) h = (if h = ?h then ref_count e else 0) + total_refs es h" for h
    by (simp add: total_refs_def)
  have wf: "bt_wf ?m" using Cons.prems by simp
  have none: "total_refs es h = 0" if "h \<notin> de_content_hash ` set es" for h
    using that by (auto simp: total_refs_def filter_empty_conv image_iff sum_list_eq_0_iff)
  show ?case
  proof (cases "count_of m ?h + ref_count e \<le> U64_MAX")
    case True
    have sum: "count_of m h + total_refs (e # es) h = count_of ?m h + total_refs es h" for h
      by (simp add: cnt tot)
    have "count_of ?m ?h + total_refs es ?h \<le> U64_MAX" if "?h \<notin> de_content_hash ` set es"
      using True none [OF that] by (simp add: cnt)
    then have iff: "(\<forall>h\<in>de_content_hash ` set (e # es). count_of ?m h + total_refs es h \<le> U64_MAX)
        \<longleftrightarrow> (\<forall>h\<in>de_content_hash ` set es. count_of ?m h + total_refs es h \<le> U64_MAX)"
      by (metis image_insert insertCI insertE list.simps(15))
    have keys: "fst ` set ?m \<union> de_content_hash ` set es = fst ` set m \<union> de_content_hash ` set (e # es)"
      by auto
    have step: "fold_r add_refs m (e # es) = fold_r add_refs ?m es" using True by (simp add: add_refs_eq)
    show ?thesis using Cons.IH [OF wf] by (simp only: step sum iff keys)
  next
    case False
    then have "\<not> (\<forall>h\<in>de_content_hash ` set (e # es). count_of m h + total_refs (e # es) h \<le> U64_MAX)"
      by (auto simp: tot)
    then show ?thesis using False by (simp add: add_refs_eq)
  qed
qed

lemma validate_ref_counts_iff:
  "validate_ref_counts es live = Inr () \<longleftrightarrow>
     (\<forall>h\<in>de_content_hash ` set es. total_refs es h = live h \<and> live h \<le> U64_MAX)"
proof (cases "\<forall>h\<in>de_content_hash ` set es. total_refs es h \<le> U64_MAX")
  case True
  then obtain m where m: "ref_totals es = Inr m" "bt_wf m" "fst ` set m = de_content_hash ` set es"
      and cnt: "\<forall>h. count_of m h = total_refs es h"
    using add_refs_fold [of "[]" es] by (auto simp: ref_totals_def count_of_def)
  have "(\<forall>(h, n)\<in>set m. n = live h) \<longleftrightarrow> (\<forall>h\<in>fst ` set m. count_of m h = live h)"
    using m(2) by (force simp: count_of_def bt_wf_def)
  then show ?thesis using m(1,3) cnt True
    by (auto simp: validate_ref_counts_def for_each_Inr_iff split_beta)
next
  case False
  then obtain e where "ref_totals es = Inl e"
    using add_refs_fold [of "[]" es] by (auto simp: ref_totals_def count_of_def split: if_splits)
  moreover from False obtain h where "h \<in> de_content_hash ` set es" "\<not> total_refs es h \<le> U64_MAX" by blast
  ultimately show ?thesis by (simp add: validate_ref_counts_def) (metis imageE)
qed

text \<open>
  C29: the check of reference counts after a restart accepts exactly when, for every content,
  the counts stored over all backends add up to the live references, a number that fits 64
  bits.
\<close>

theorem ref_counts_accepted_iff:
  "is_ok (validate_ref_counts es live_refs) \<longleftrightarrow>
     list_all (\<lambda>e. total_refs es (de_content_hash e) = live_refs (de_content_hash e)
       \<and> live_refs (de_content_hash e) \<le> U64_MAX) es"
  using validate_ref_counts_iff [of es live_refs] by (auto simp: is_ok_iff list_all_iff)

end
