(* ===== verification/Pressure.thy ===== *)
theory Pressure
  imports Errors
begin

section \<open>Resource pressure (src/pressure.rs)\<close>

text \<open>
  Pressure levels and metrics, the providers registered with a process and the reports of
  its nodes, and the aggregate the reclaim policy is fed with. A synthetic provider is a
  handle on a shared cell (the \<open>Arc\<close> of the source), so a handle the caller keeps stays
  connected to the registry: \<open>cells\<close> is the store of these cells and a handle is an
  index into it. A provider written outside this program is a name and a number that the
  parameter \<open>ext\<close> maps to the metrics it reports. The main results: the aggregate level
  is the highest level any source reports, and a source that breaks its contract makes the
  aggregate critical instead of disappearing from it.
\<close>

datatype pressure_level = Normal | Elevated | High | CriticalLevel

fun level_rank :: "pressure_level \<Rightarrow> nat" where
  "level_rank Normal = 0"
| "level_rank Elevated = 1"
| "level_rank High = 2"
| "level_rank CriticalLevel = 3"

lemma level_rank_inj: "level_rank a = level_rank b \<longleftrightarrow> a = b"
  by (cases a; cases b) auto

text \<open>The derived \<open>Ord\<close>: the order of the variants.\<close>

instantiation pressure_level :: linorder
begin

definition less_eq_pressure_level :: "pressure_level \<Rightarrow> pressure_level \<Rightarrow> bool" where
  "less_eq_pressure_level a b \<longleftrightarrow> level_rank a \<le> level_rank b"

definition less_pressure_level :: "pressure_level \<Rightarrow> pressure_level \<Rightarrow> bool" where
  "less_pressure_level a b \<longleftrightarrow> level_rank a < level_rank b"

instance
  by standard (auto simp: less_eq_pressure_level_def less_pressure_level_def level_rank_inj)

end

fun level_str :: "pressure_level \<Rightarrow> string" where
  "level_str Normal = ''NORMAL''"
| "level_str Elevated = ''ELEVATED''"
| "level_str High = ''HIGH''"
| "level_str CriticalLevel = ''CRITICAL''"

definition parse_level :: "string \<Rightarrow> pressure_level result" where
  "parse_level s =
     (if s = ''NORMAL'' then Inr Normal
      else if s = ''ELEVATED'' then Inr Elevated
      else if s = ''HIGH'' then Inr High
      else if s = ''CRITICAL'' then Inr CriticalLevel
      else Inl (InvalidArgument [Lit ''unknown pressure level: '', Str s]))"

fun multiplier :: "pressure_level \<Rightarrow> f64" where
  "multiplier Normal = Fin 1"
| "multiplier Elevated = Fin 2"
| "multiplier High = Fin 4"
| "multiplier CriticalLevel = Fin 8"

record pressure_metrics =
  accelerator_memory :: f64
  host_memory :: f64
  local_storage :: f64
  remote_storage :: f64
  metadata_pressure :: f64
  queue_pressure :: f64
  network :: f64

definition default_metrics :: pressure_metrics where
  "default_metrics = \<lparr>accelerator_memory = Fin 0, host_memory = Fin 0, local_storage = Fin 0,
     remote_storage = Fin 0, metadata_pressure = Fin 0, queue_pressure = Fin 0, network = Fin 0\<rparr>"

definition validate_metrics :: "pressure_metrics \<Rightarrow> unit result" where
  "validate_metrics m =
     for_each
       [(''accelerator_memory'', accelerator_memory m), (''host_memory'', host_memory m),
        (''local_storage'', local_storage m), (''remote_storage'', remote_storage m),
        (''metadata'', metadata_pressure m), (''queue'', queue_pressure m),
        (''network'', network m)]
       (\<lambda>(name, v). ensure (\<not> (\<not> fcontains (Fin 0) (Fin 1) v \<or> is_nan v))
          (InvalidArgument [Lit ''pressure metric '', Str name, Lit '' must be in [0,1]'']))"

definition level_of :: "f64 \<Rightarrow> pressure_level" where
  "level_of m =
     (if fle (round64 (90 / 100)) m then CriticalLevel
      else if fle (round64 (70 / 100)) m then High
      else if fle (round64 (45 / 100)) m then Elevated
      else Normal)"

definition metrics_level :: "pressure_metrics \<Rightarrow> pressure_level" where
  "metrics_level m =
     level_of (fmax (fmax (fmax (fmax (fmax (fmax (accelerator_memory m)
       (host_memory m)) (local_storage m)) (remote_storage m)) (metadata_pressure m))
       (queue_pressure m)) (network m))"

definition critical_sentinel :: pressure_metrics where
  "critical_sentinel = \<lparr>accelerator_memory = Fin 1, host_memory = Fin 1, local_storage = Fin 1,
     remote_storage = Fin 1, metadata_pressure = Fin 1, queue_pressure = Fin 1, network = Fin 1\<rparr>"

definition merge_max :: "pressure_metrics \<Rightarrow> pressure_metrics \<Rightarrow> pressure_metrics" where
  "merge_max a b = \<lparr>
     accelerator_memory = fmax (accelerator_memory a) (accelerator_memory b),
     host_memory = fmax (host_memory a) (host_memory b),
     local_storage = fmax (local_storage a) (local_storage b),
     remote_storage = fmax (remote_storage a) (remote_storage b),
     metadata_pressure = fmax (metadata_pressure a) (metadata_pressure b),
     queue_pressure = fmax (queue_pressure a) (queue_pressure b),
     network = fmax (network a) (network b)\<rparr>"

subsection \<open>Providers and the registry\<close>

datatype provider = External string nat | Synthetic string nat

fun provider_id :: "provider \<Rightarrow> string" where
  "provider_id (External i _) = i"
| "provider_id (Synthetic i _) = i"

record pressure_registry =
  providers :: "provider list"
  synthetic :: "(string \<times> nat) list"
  node_reports :: "(string \<times> pressure_metrics) list"
  cells :: "pressure_metrics list"

definition new_registry :: pressure_registry where
  "new_registry = \<lparr>providers = [], synthetic = [], node_reports = [], cells = []\<rparr>"

fun provider_metrics ::
  "(nat \<Rightarrow> pressure_metrics) \<Rightarrow> pressure_metrics list \<Rightarrow> provider \<Rightarrow> pressure_metrics" where
  "provider_metrics ext cs (External i n) = ext n"
| "provider_metrics ext cs (Synthetic i c) = cs ! c"

text \<open>Replace the provider with this id in place, or append it.\<close>

fun put_provider :: "provider \<Rightarrow> provider list \<Rightarrow> provider list" where
  "put_provider p [] = [p]"
| "put_provider p (q # qs) =
     (if provider_id q = provider_id p then p # qs else q # put_provider p qs)"

definition register :: "provider \<Rightarrow> pressure_registry \<Rightarrow> pressure_registry" where
  "register p r = r\<lparr>synthetic := bt_remove (provider_id p) (synthetic r),
                    providers := put_provider p (providers r)\<rparr>"

definition register_synthetic :: "string \<Rightarrow> pressure_registry \<Rightarrow> nat \<times> pressure_registry" where
  "register_synthetic i r =
     (let c = length (cells r)
      in (c, r\<lparr>cells := cells r @ [default_metrics],
               synthetic := bt_insert i c (synthetic r),
               providers := put_provider (Synthetic i c) (providers r)\<rparr>))"

definition find_synthetic :: "string \<Rightarrow> pressure_registry \<Rightarrow> nat option" where
  "find_synthetic i r = map_of (synthetic r) i"

text \<open>\<open>SyntheticPressureProvider::set\<close> and \<open>set_level\<close> through a handle.\<close>

definition set_metrics ::
  "nat \<Rightarrow> pressure_metrics \<Rightarrow> pressure_registry \<Rightarrow> pressure_registry result" where
  "set_metrics c m r =
     bindr (validate_metrics m) (\<lambda>_. Inr (r\<lparr>cells := (cells r)[c := m]\<rparr>))"

fun level_metrics :: "pressure_level \<Rightarrow> pressure_metrics" where
  "level_metrics Normal = default_metrics"
| "level_metrics Elevated = default_metrics\<lparr>host_memory := round64 (5 / 10)\<rparr>"
| "level_metrics High = default_metrics\<lparr>host_memory := round64 (75 / 100)\<rparr>"
| "level_metrics CriticalLevel = default_metrics\<lparr>host_memory := round64 (95 / 100)\<rparr>"

definition set_level ::
  "nat \<Rightarrow> pressure_level \<Rightarrow> pressure_registry \<Rightarrow> pressure_registry result" where
  "set_level c l r = set_metrics c (level_metrics l) r"

definition report_node ::
  "string \<Rightarrow> pressure_metrics \<Rightarrow> pressure_registry \<Rightarrow> pressure_registry result" where
  "report_node node m r =
     (if trim node = [] \<or> trim node \<noteq> node
      then Inl (InvalidArgument
        [Lit ''pressure-report node id must be non-empty and have no surrounding whitespace''])
      else bindr (validate_metrics m)
        (\<lambda>_. Inr (r\<lparr>node_reports := bt_insert node m (node_reports r)\<rparr>)))"

definition remove_node :: "string \<Rightarrow> pressure_registry \<Rightarrow> pressure_registry" where
  "remove_node node r = r\<lparr>node_reports := bt_remove node (node_reports r)\<rparr>"

definition merge_source ::
  "(error \<Rightarrow> error) \<Rightarrow> pressure_metrics \<Rightarrow> pressure_metrics \<Rightarrow> pressure_metrics result" where
  "merge_source wrap acc m =
     bindr (map_err wrap (validate_metrics m)) (\<lambda>_. Inr (merge_max acc m))"

definition provider_error :: "provider \<Rightarrow> error \<Rightarrow> error" where
  "provider_error p e =
     PressureErr ([Lit ''pressure provider '', Dbg (provider_id p),
       Lit '' returned invalid metrics: ''] @ display e)"

definition report_error :: "error \<Rightarrow> error" where
  "report_error e = PressureErr ([Lit ''stored node pressure report became invalid: ''] @ display e)"

definition try_aggregate ::
  "(nat \<Rightarrow> pressure_metrics) \<Rightarrow> pressure_registry \<Rightarrow> pressure_metrics result" where
  "try_aggregate ext r =
     bindr (fold_r (\<lambda>acc p. merge_source (provider_error p) acc (provider_metrics ext (cells r) p))
              default_metrics (providers r)) (\<lambda>acc.
     fold_r (\<lambda>acc e. merge_source report_error acc (snd e)) acc (node_reports r))"

definition aggregate :: "(nat \<Rightarrow> pressure_metrics) \<Rightarrow> pressure_registry \<Rightarrow> pressure_metrics" where
  "aggregate ext r = (case try_aggregate ext r of Inr m \<Rightarrow> m | Inl e \<Rightarrow> critical_sentinel)"

definition try_level ::
  "(nat \<Rightarrow> pressure_metrics) \<Rightarrow> pressure_registry \<Rightarrow> pressure_level result" where
  "try_level ext r = bindr (try_aggregate ext r) (\<lambda>m. Inr (metrics_level m))"

definition registry_level :: "(nat \<Rightarrow> pressure_metrics) \<Rightarrow> pressure_registry \<Rightarrow> pressure_level" where
  "registry_level ext r = metrics_level (aggregate ext r)"

definition provider_ids :: "pressure_registry \<Rightarrow> string list" where
  "provider_ids r = sort (map provider_id (providers r))"

subsection \<open>Levels\<close>

definition metrics_ok :: "pressure_metrics \<Rightarrow> bool" where
  "metrics_ok m \<longleftrightarrow>
     list_all (\<lambda>v. fle (Fin 0) v \<and> fle v (Fin 1))
       [accelerator_memory m, host_memory m, local_storage m, remote_storage m,
        metadata_pressure m, queue_pressure m, network m]"

definition sources :: "(nat \<Rightarrow> pressure_metrics) \<Rightarrow> pressure_registry \<Rightarrow> pressure_metrics list" where
  "sources ext r = map (provider_metrics ext (cells r)) (providers r) @ map snd (node_reports r)"

lemma in_unit_not_nan: "fle (Fin 0) v \<Longrightarrow> \<not> is_nan v"
  by (cases v) auto

lemma validate_metrics_iff: "validate_metrics m = Inr u \<longleftrightarrow> metrics_ok m"
proof -
  have "\<not> (\<not> fcontains (Fin 0) (Fin 1) v \<or> is_nan v) \<longleftrightarrow> fle (Fin 0) v \<and> fle v (Fin 1)" for v
    using in_unit_not_nan by (auto simp: fcontains_def)
  then show ?thesis
    unfolding validate_metrics_def metrics_ok_def by (simp add: bindr_Inr_iff)
qed

lemma parse_level_str: "parse_level (level_str l) = Inr l"
  by (cases l) (simp_all add: parse_level_def)

lemma parse_level_iff: "parse_level s = Inr l \<longleftrightarrow> s = level_str l"
  using parse_level_str [of l] by (auto simp: parse_level_def split: if_splits)

lemma level_of_mono:
  assumes "fle x y"
  shows "level_of x \<le> level_of y"
proof -
  have step: "fle t x \<Longrightarrow> fle t y" for t using assms fle_trans by blast
  then show ?thesis
    by (auto simp: level_of_def less_eq_pressure_level_def)
qed

lemma level_of_fmax:
  assumes "\<not> is_nan x" and "\<not> is_nan y"
  shows "level_of (fmax x y) = max (level_of x) (level_of y)"
proof (cases "fle x y")
  case True
  then show ?thesis using assms level_of_mono [OF True] by (simp add: fmax_def max_def)
next
  case False
  then have "fle y x" using assms fle_total by blast
  then show ?thesis using assms False level_of_mono [of y x] by (simp add: fmax_def max_def)
qed

lemma fmax_not_nan [simp]: "\<not> is_nan x \<Longrightarrow> \<not> is_nan y \<Longrightarrow> \<not> is_nan (fmax x y)"
  by (simp add: fmax_def)

lemma fmax_unit:
  "\<lbrakk>fle (Fin 0) x; fle x (Fin 1); fle (Fin 0) y; fle y (Fin 1)\<rbrakk>
   \<Longrightarrow> fle (Fin 0) (fmax x y) \<and> fle (fmax x y) (Fin 1)"
  by (simp add: fmax_def)

lemma metrics_level_eq:
  assumes "metrics_ok m"
  shows "metrics_level m = max (max (max (max (max (max (level_of (accelerator_memory m))
    (level_of (host_memory m))) (level_of (local_storage m))) (level_of (remote_storage m)))
    (level_of (metadata_pressure m))) (level_of (queue_pressure m))) (level_of (network m))"
  using assms by (simp add: metrics_level_def metrics_ok_def level_of_fmax in_unit_not_nan)

lemma metrics_ok_merge: "metrics_ok a \<Longrightarrow> metrics_ok b \<Longrightarrow> metrics_ok (merge_max a b)"
  by (simp add: metrics_ok_def merge_max_def fmax_unit)

lemma level_of_merge:
  assumes "metrics_ok a" and "metrics_ok b"
  shows "level_of (accelerator_memory (merge_max a b))
      = max (level_of (accelerator_memory a)) (level_of (accelerator_memory b))"
    and "level_of (host_memory (merge_max a b)) = max (level_of (host_memory a)) (level_of (host_memory b))"
    and "level_of (local_storage (merge_max a b))
      = max (level_of (local_storage a)) (level_of (local_storage b))"
    and "level_of (remote_storage (merge_max a b))
      = max (level_of (remote_storage a)) (level_of (remote_storage b))"
    and "level_of (metadata_pressure (merge_max a b))
      = max (level_of (metadata_pressure a)) (level_of (metadata_pressure b))"
    and "level_of (queue_pressure (merge_max a b))
      = max (level_of (queue_pressure a)) (level_of (queue_pressure b))"
    and "level_of (network (merge_max a b)) = max (level_of (network a)) (level_of (network b))"
  using assms by (simp_all add: merge_max_def metrics_ok_def level_of_fmax in_unit_not_nan)

lemma metrics_level_merge:
  assumes "metrics_ok a" and "metrics_ok b"
  shows "metrics_level (merge_max a b) = max (metrics_level a) (metrics_level b)"
  unfolding metrics_level_eq [OF assms(1)] metrics_level_eq [OF assms(2)]
    metrics_level_eq [OF metrics_ok_merge [OF assms]] level_of_merge [OF assms]
  by (simp only: ac_simps)

lemma metrics_ok_default [simp]: "metrics_ok default_metrics"
  by (simp add: metrics_ok_def default_metrics_def)

lemma threshold_bounds:
  "fle (Fin (7 / 16)) (round64 (45 / 100))" "fle (Fin (11 / 16)) (round64 (70 / 100))"
  "fle (Fin (7 / 8)) (round64 (90 / 100))" "fle (round64 (45 / 100)) (Fin (1 / 2))"
  "fle (round64 (70 / 100)) (Fin (3 / 4))" "fle (round64 (90 / 100)) (Fin (15 / 16))"
  "fle (Fin (15 / 16)) (round64 (95 / 100))" "fle (round64 (95 / 100)) (Fin 1)"
  using round64_mono [of "of_int 7 / 2 ^ 4" "45 / 100"] round64_dyadic [of 7 4]
    round64_mono [of "of_int 11 / 2 ^ 4" "70 / 100"] round64_dyadic [of 11 4]
    round64_mono [of "of_int 7 / 2 ^ 3" "90 / 100"] round64_dyadic [of 7 3]
    round64_mono [of "45 / 100" "of_int 1 / 2 ^ 1"] round64_dyadic [of 1 1]
    round64_mono [of "70 / 100" "of_int 3 / 2 ^ 2"] round64_dyadic [of 3 2]
    round64_mono [of "90 / 100" "of_int 15 / 2 ^ 4"] round64_dyadic [of 15 4]
    round64_mono [of "of_int 15 / 2 ^ 4" "95 / 100"] round64_mono [of "95 / 100" 1]
  by simp_all

lemma level_of_small: "flt v (Fin (7 / 16)) \<Longrightarrow> level_of v = Normal"
  using threshold_bounds(1-3)
  by (cases v; cases "round64 (45 / 100)"; cases "round64 (70 / 100)"; cases "round64 (90 / 100)")
    (auto simp: level_of_def flt_def)

lemma level_of_elevated: "fle (Fin (1 / 2)) v \<Longrightarrow> flt v (Fin (11 / 16)) \<Longrightarrow> level_of v = Elevated"
  using threshold_bounds(2-4)
  by (cases v; cases "round64 (45 / 100)"; cases "round64 (70 / 100)"; cases "round64 (90 / 100)")
    (auto simp: level_of_def flt_def)

lemma level_of_high: "fle (Fin (3 / 4)) v \<Longrightarrow> flt v (Fin (7 / 8)) \<Longrightarrow> level_of v = High"
  using threshold_bounds(3,5)
  by (cases v; cases "round64 (70 / 100)"; cases "round64 (90 / 100)")
    (auto simp: level_of_def flt_def)

lemma level_of_critical: "fle (Fin (15 / 16)) v \<Longrightarrow> level_of v = CriticalLevel"
  using fle_trans [OF threshold_bounds(6)] by (simp add: level_of_def)

lemma round64_half: "round64 (5 / 10) = Fin (1 / 2)" "round64 (75 / 100) = Fin (3 / 4)"
  using round64_dyadic [of 1 1] round64_dyadic [of 3 2] by simp_all

lemmas thresholds = threshold_bounds [simplified] round64_half [simplified]

lemma metrics_level_default: "metrics_level default_metrics = Normal"
  by (simp add: metrics_level_def default_metrics_def level_of_small)

lemma metrics_ok_host: "fle (Fin 0) v \<Longrightarrow> fle v (Fin 1) \<Longrightarrow> metrics_ok (default_metrics\<lparr>host_memory := v\<rparr>)"
  by (simp add: metrics_ok_def default_metrics_def)

lemma metrics_level_host:
  "fle (Fin 0) v \<Longrightarrow> metrics_level (default_metrics\<lparr>host_memory := v\<rparr>) = level_of v"
  by (cases v) (auto simp: metrics_level_def default_metrics_def fmax_def max_def)

lemma level_metrics_level: "metrics_level (level_metrics l) = l"
  using fle_trans [of "Fin 0", OF _ threshold_bounds(7)]
  by (cases l) (simp_all add: metrics_level_default metrics_level_host
      level_of_elevated level_of_high level_of_critical thresholds)

lemma level_metrics_ok: "metrics_ok (level_metrics l)"
  using fle_trans [of "Fin 0", OF _ threshold_bounds(7)]
  by (cases l) (simp_all add: metrics_ok_host thresholds)

lemma critical_sentinel_level: "metrics_level critical_sentinel = CriticalLevel"
  by (simp add: metrics_level_def critical_sentinel_def level_of_critical)

lemma Normal_least [simp]: "Normal \<le> l"
  by (simp add: less_eq_pressure_level_def)

subsection \<open>The aggregate\<close>

text \<open>One pass over a list of sources, whatever error an invalid one is reported with.\<close>

lemma merge_source_cases:
  "merge_source wrap acc m =
     (case validate_metrics m of Inl e \<Rightarrow> Inl (wrap e) | Inr _ \<Rightarrow> Inr (merge_max acc m))"
  by (cases "validate_metrics m") (simp_all add: merge_source_def)

lemma fold_sources_ok:
  assumes "metrics_ok acc" and "\<forall>x\<in>set xs. metrics_ok (m x)"
  shows "\<exists>out. fold_r (\<lambda>acc x. merge_source (g x) acc (m x)) acc xs = Inr out \<and> metrics_ok out
     \<and> metrics_level out = fold max (map (\<lambda>x. metrics_level (m x)) xs) (metrics_level acc)"
  using assms
proof (induction xs arbitrary: acc)
  case Nil
  then show ?case by simp
next
  case (Cons x xs)
  then have ok: "metrics_ok (m x)" by simp
  then have "validate_metrics (m x) = Inr ()" by (simp add: validate_metrics_iff)
  then show ?case
    using Cons.IH [OF metrics_ok_merge [OF Cons.prems(1) ok]] Cons.prems(2)
      metrics_level_merge [OF Cons.prems(1) ok]
    by (simp add: max.commute merge_source_cases)
qed

lemma fold_sources_err:
  assumes "\<exists>x\<in>set xs. \<not> metrics_ok (m x)"
  shows "\<exists>e. fold_r (\<lambda>acc x. merge_source (g x) acc (m x)) acc xs = Inl e"
  using assms
proof (induction xs arbitrary: acc)
  case Nil
  then show ?case by simp
next
  case (Cons x xs)
  show ?case
  proof (cases "validate_metrics (m x)")
    case (Inl e)
    then show ?thesis by (simp add: merge_source_cases)
  next
    case (Inr u)
    then have "metrics_ok (m x)" by (simp add: validate_metrics_iff)
    then show ?thesis using Inr Cons by (simp add: merge_source_cases)
  qed
qed

lemma try_aggregate_ok:
  assumes "\<forall>m\<in>set (sources ext r). metrics_ok m"
  shows "\<exists>out. try_aggregate ext r = Inr out
     \<and> metrics_level out = fold max (map metrics_level (sources ext r)) Normal"
proof -
  have "\<forall>p\<in>set (providers r). metrics_ok (provider_metrics ext (cells r) p)"
    and nodes: "\<forall>x\<in>set (node_reports r). metrics_ok (snd x)"
    using assms by (auto simp: sources_def)
  from fold_sources_ok [OF metrics_ok_default this(1), of provider_error]
  obtain acc where acc: "metrics_ok acc"
      "fold_r (\<lambda>acc p. merge_source (provider_error p) acc (provider_metrics ext (cells r) p))
        default_metrics (providers r) = Inr acc"
      "metrics_level acc = fold max
        (map (\<lambda>p. metrics_level (provider_metrics ext (cells r) p)) (providers r)) Normal"
    unfolding metrics_level_default by blast
  show ?thesis
    using fold_sources_ok [OF acc(1) nodes, of "\<lambda>_. report_error"] acc(2,3)
    by (auto simp: try_aggregate_def sources_def o_def)
qed

lemma try_aggregate_err:
  assumes "\<not> (\<forall>m\<in>set (sources ext r). metrics_ok m)"
  shows "\<exists>e. try_aggregate ext r = Inl e"
proof (cases "\<forall>p\<in>set (providers r). metrics_ok (provider_metrics ext (cells r) p)")
  case True
  then have "\<exists>x\<in>set (node_reports r). \<not> metrics_ok (snd x)"
    using assms by (auto simp: sources_def)
  from fold_sources_err [OF this, of "\<lambda>_. report_error"]
  show ?thesis unfolding try_aggregate_def bindr_Inl_iff by (metis sum.exhaust)
next
  case False
  then have "\<exists>p\<in>set (providers r). \<not> metrics_ok (provider_metrics ext (cells r) p)" by simp
  from fold_sources_err [OF this, of provider_error default_metrics]
  show ?thesis by (auto simp: try_aggregate_def)
qed

lemma fold_max_Max: "fold max xs (a::'a::linorder) = Max (insert a (set xs))"
proof (induction xs arbitrary: a)
  case Nil
  then show ?case by simp
next
  case (Cons x xs)
  have "Max (insert (max x a) (set xs)) = Max (insert a (insert x (set xs)))"
    by (cases "xs = []") (auto simp: max.commute max.left_commute)
  then show ?case using Cons by simp
qed
lemma registry_level_eq:
  "registry_level ext r =
     (if \<forall>m\<in>set (sources ext r). metrics_ok m
      then Max (insert Normal (set (map metrics_level (sources ext r)))) else CriticalLevel)"
proof (cases "\<forall>m\<in>set (sources ext r). metrics_ok m")
  case True
  then show ?thesis using try_aggregate_ok [OF True]
    by (auto simp: registry_level_def aggregate_def fold_max_Max)
next
  case False
  then show ?thesis using try_aggregate_err [OF False]
    by (auto simp: registry_level_def aggregate_def critical_sentinel_level)
qed

text \<open>
  C16: the pressure level of a process is the highest level any provider or node report gives,
  \<open>NORMAL\<close> when there is none; when a source reports a metric outside the unit interval the
  level is \<open>CRITICAL\<close>.
\<close>

theorem aggregate_is_worst_source:
  "registry_level ext r =
     (if list_all metrics_ok (sources ext r)
      then Max (set (Normal # map metrics_level (sources ext r))) else CriticalLevel)"
  by (simp add: registry_level_eq list_all_iff)

lemma put_provider_in: "p \<in> set (put_provider p ps)"
  by (induction ps) auto

lemma put_provider_ids:
  "provider_id ` set (put_provider p ps) = insert (provider_id p) (provider_id ` set ps)"
  by (induction ps) auto

lemma distinct_put_provider:
  "distinct (map provider_id ps) \<Longrightarrow> distinct (map provider_id (put_provider p ps))"
proof (induction ps)
  case Nil
  then show ?case by simp
next
  case (Cons q ps)
  then show ?case using put_provider_ids [of p ps] by (auto simp: image_iff)
qed

lemma registry_level_ge:
  assumes "m \<in> set (sources ext r)"
  shows "metrics_level m \<le> registry_level ext r"
  using assms by (auto simp: registry_level_eq intro: Max_ge) (simp add: less_eq_pressure_level_def,
    cases "metrics_level m"; simp)

text \<open>
  A caller that registers a synthetic provider and sets a level through the handle it was
  given raises the level of the process to at least that level: the handle and the registry
  share one cell.
\<close>

theorem set_level_raises_pressure:
  assumes "register_synthetic i r = (c, r1)" and "set_level c l r1 = Inr r2"
  shows "l \<le> registry_level ext r2"
proof -
  have c: "c = length (cells r)" and r2: "r2 = r1\<lparr>cells := (cells r1)[c := level_metrics l]\<rparr>"
    using assms by (auto simp: register_synthetic_def Let_def set_level_def set_metrics_def bindr_Inr_iff)
  have "Synthetic i c \<in> set (providers r2)" "cells r2 ! c = level_metrics l"
    using assms(1) by (auto simp: r2 c register_synthetic_def Let_def put_provider_in)
  then have "level_metrics l \<in> set (sources ext r2)"
    by (force simp: sources_def image_iff)
  from registry_level_ge [OF this] show ?thesis by (simp add: level_metrics_level)
qed

theorem set_level_raises_pressure_witness:
  "let (c, r1) = register_synthetic ''demo'' new_registry in
   \<exists>r2. set_level c High r1 = Inr r2 \<and> High \<le> registry_level (\<lambda>_. default_metrics) r2"
proof -
  obtain c r1 where r1: "register_synthetic ''demo'' new_registry = (c, r1)" by fastforce
  have "validate_metrics (level_metrics High) = Inr ()"
    by (simp only: validate_metrics_iff level_metrics_ok)
  then obtain r2 where r2: "set_level c High r1 = Inr r2"
    by (auto simp: set_level_def set_metrics_def)
  show ?thesis using r1 r2 set_level_raises_pressure [OF r1 r2] by auto
qed

text \<open>Provider ids stay unique and every handle in the registry points at an allocated cell.\<close>

definition registry_wf :: "pressure_registry \<Rightarrow> bool" where
  "registry_wf r \<longleftrightarrow>
     distinct (map provider_id (providers r)) \<and>
     bt_wf (synthetic r) \<and> bt_wf (node_reports r) \<and>
     (\<forall>i c. Synthetic i c \<in> set (providers r) \<longrightarrow> c < length (cells r)) \<and>
     (\<forall>i c. (i, c) \<in> set (synthetic r) \<longrightarrow> Synthetic i c \<in> set (providers r)) \<and>
     (\<forall>m\<in>set (cells r). metrics_ok m) \<and>
     (\<forall>n m. (n, m) \<in> set (node_reports r) \<longrightarrow> metrics_ok m)"

lemma in_put_provider:
  "distinct (map provider_id ps) \<Longrightarrow>
   q \<in> set (put_provider p ps) \<longleftrightarrow> q = p \<or> q \<in> set ps \<and> provider_id q \<noteq> provider_id p"
  by (induction ps) (auto simp: image_iff)

lemma in_bt_insert:
  "bt_wf m \<Longrightarrow> e \<in> set (bt_insert k v m) \<longleftrightarrow> e = (k, v) \<or> e \<in> set m \<and> fst e \<noteq> k"
  by (induction k v m rule: bt_insert.induct) (auto simp: bt_wf_Cons)

lemma set_bt_remove: "set (bt_remove k m) = {e \<in> set m. fst e \<noteq> k}"
  by (simp add: bt_remove_def)

lemma registry_wf_new: "registry_wf new_registry"
  by (simp add: registry_wf_def new_registry_def)

lemma registry_wf_register:
  assumes "registry_wf r" and "\<And>i c. p = Synthetic i c \<Longrightarrow> c < length (cells r)"
  shows "registry_wf (register p r)"
  using assms by (auto simp: registry_wf_def register_def distinct_put_provider in_put_provider
      set_bt_remove)

lemma registry_wf_register_synthetic:
  "registry_wf r \<Longrightarrow> registry_wf (snd (register_synthetic i r))"
  by (auto simp: registry_wf_def register_synthetic_def Let_def distinct_put_provider in_put_provider
      in_bt_insert less_Suc_eq)

lemma registry_wf_set_metrics:
  "registry_wf r \<Longrightarrow> set_metrics c m r = Inr r' \<Longrightarrow> registry_wf r'"
  using set_update_subset_insert [of "cells r" c m]
  by (auto simp: registry_wf_def set_metrics_def bindr_Inr_iff validate_metrics_iff)

lemma registry_wf_report_node:
  "registry_wf r \<Longrightarrow> report_node n m r = Inr r' \<Longrightarrow> registry_wf r'"
  by (auto simp: registry_wf_def report_node_def bindr_Inr_iff validate_metrics_iff in_bt_insert
      split: if_splits)

lemma registry_wf_remove_node: "registry_wf r \<Longrightarrow> registry_wf (remove_node n r)"
  by (auto simp: registry_wf_def remove_node_def set_bt_remove)

text \<open>The operations a process performs on its registry, in any order.\<close>

inductive registry_step :: "pressure_registry \<Rightarrow> pressure_registry \<Rightarrow> bool" where
  register_external: "registry_step r (register (External i n) r)"
| register_synth: "register_synthetic i r = (c, r') \<Longrightarrow> registry_step r r'"
| set_synth: "set_metrics c m r = Inr r' \<Longrightarrow> registry_step r r'"
| node_report: "report_node n m r = Inr r' \<Longrightarrow> registry_step r r'"
| node_removed: "registry_step r (remove_node n r)"

lemma registry_step_wf: "registry_step r r' \<Longrightarrow> registry_wf r \<Longrightarrow> registry_wf r'"
proof (induction rule: registry_step.induct)
  case (register_synth i r c r')
  then show ?case using registry_wf_register_synthetic [of r i] by simp
qed (auto intro: registry_wf_register registry_wf_set_metrics registry_wf_report_node
      registry_wf_remove_node)

text \<open>
  Whatever sequence of registrations, settings, node reports and removals a process
  performs, provider ids stay unique, the index of settable providers names only registered
  ones, and every metric stored in the registry is in the unit interval.
\<close>

theorem registry_wf_reachable:
  assumes "registry_step\<^sup>*\<^sup>* new_registry r"
  shows "registry_wf r"
  using assms by (induction rule: rtranclp_induct) (auto simp: registry_wf_new intro: registry_step_wf)

theorem registry_wf_reachable_witness:
  "registry_wf (remove_node ''n1'' (register (External ''gpu'' 0) new_registry))"
proof -
  have "registry_step new_registry (register (External ''gpu'' 0) new_registry)"
    by (rule register_external)
  moreover have "registry_step \<dots> (remove_node ''n1'' \<dots>)" by (rule node_removed)
  ultimately have "registry_step\<^sup>*\<^sup>* new_registry
      (remove_node ''n1'' (register (External ''gpu'' 0) new_registry))" by simp
  then show ?thesis by (rule registry_wf_reachable)
qed

end
