(* ===== verification/Economics.thy ===== *)
theory Economics
  imports Objects Pressure
begin

section \<open>Reclamation economics (src/economics.rs)\<close>

text \<open>
  The cost inputs derived from an object and a pressure multiplier, the weights of a policy,
  the decision surface computed from them in binary64 arithmetic and the checks around it.
  The main results: on validated data the reclaim score never falls when pressure rises, it
  never rises with the value a dependent or a survivability class adds, and every number of
  a validated decision surface is finite.
\<close>

definition BASELINE_REUSE_DECAY_SECS :: f64 where
  "BASELINE_REUSE_DECAY_SECS = Fin 86400"

definition BASELINE_COMPRESSION_COST_FRACTION :: f64 where
  "BASELINE_COMPRESSION_COST_FRACTION = round64 (1 / 100)"

definition BASELINE_ARCHIVE_COST_FRACTION :: f64 where
  "BASELINE_ARCHIVE_COST_FRACTION = round64 (5 / 10)"

definition BASELINE_FAILURE_RECOVERY_VALUE_FRACTION :: f64 where
  "BASELINE_FAILURE_RECOVERY_VALUE_FRACTION = round64 (5 / 10)"

record cost_inputs =
  ci_retain_cost :: f64
  ci_reconstruction_cost :: f64
  ci_expected_reuse_value :: f64
  ci_transfer_cost :: f64
  ci_migration_cost :: f64
  ci_storage_cost :: f64
  ci_memory_cost :: f64
  ci_memory_pressure_cost :: f64
  ci_replication_cost :: f64
  ci_compression_cost :: f64
  ci_archive_cost :: f64
  ci_failure_recovery_value :: f64
  ci_dependency_value :: f64
  ci_survivability_value :: f64
  ci_reconstruction_avoidance_fraction :: f64

definition unwrap_or :: "'a option \<Rightarrow> 'a \<Rightarrow> 'a" where
  "unwrap_or x d = (case x of Some a \<Rightarrow> a | None \<Rightarrow> d)"

definition derive :: "reclaim_object \<Rightarrow> int \<Rightarrow> f64 \<Rightarrow> cost_inputs" where
  "derive obj now_ms pressure_multiplier =
     (let sz = fof_nat (max (physical_size obj) (logical_size obj));
          storage_cost = fmul sz (storage_cost_per_byte_sec obj);
          memory_cost = fmul sz (memory_cost_per_byte_sec obj);
          replication_cost = fmul memory_cost
            (fmax (fsub (fof_nat (replication_count obj)) (Fin 1)) (Fin 0));
          memory_pressure_cost = fmul memory_cost (fmax (fsub pressure_multiplier (Fin 1)) (Fin 0));
          reconstruction_cost = unwrap_or (recompute_cost obj) (Fin 0);
          expected_reuse_value = fmul (fmul (reuse_probability obj) reconstruction_cost)
            (case reuse_horizon_secs obj of None \<Rightarrow> Fin 1
             | Some h \<Rightarrow> fdiv (Fin 1) (fadd (Fin 1) (fdiv (fof_nat h) BASELINE_REUSE_DECAY_SECS)))
      in \<lparr>ci_retain_cost =
            fadd (fadd (fadd memory_cost storage_cost) replication_cost) memory_pressure_cost,
          ci_reconstruction_cost = reconstruction_cost,
          ci_expected_reuse_value = expected_reuse_value,
          ci_transfer_cost = unwrap_or (transfer_cost obj) (Fin 0),
          ci_migration_cost = unwrap_or (migration_cost obj) (Fin 0),
          ci_storage_cost = storage_cost,
          ci_memory_cost = memory_cost,
          ci_memory_pressure_cost = memory_pressure_cost,
          ci_replication_cost = replication_cost,
          ci_compression_cost = fmul (unwrap_or (recompute_cost obj) (Fin 0))
            BASELINE_COMPRESSION_COST_FRACTION,
          ci_archive_cost = fmul (unwrap_or (transfer_cost obj) (Fin 0))
            BASELINE_ARCHIVE_COST_FRACTION,
          ci_failure_recovery_value = fmul reconstruction_cost
            BASELINE_FAILURE_RECOVERY_VALUE_FRACTION,
          ci_dependency_value = Fin 0,
          ci_survivability_value = Fin 0,
          ci_reconstruction_avoidance_fraction = reuse_probability obj\<rparr>)"

record cost_weights =
  weight_reuse_value :: f64
  weight_reconstruction_avoidance :: f64
  weight_dependency_value :: f64
  weight_survivability_value :: f64
  weight_memory :: f64
  weight_storage :: f64
  weight_replication :: f64
  weight_pressure :: f64
  weight_transfer :: f64
  weight_migration :: f64

definition default_weights :: cost_weights where
  "default_weights = \<lparr>weight_reuse_value = Fin 1, weight_reconstruction_avoidance = Fin 1,
     weight_dependency_value = Fin 1, weight_survivability_value = Fin 1, weight_memory = Fin 1,
     weight_storage = Fin 1, weight_replication = Fin 1, weight_pressure = Fin 1,
     weight_transfer = Fin 1, weight_migration = Fin 1\<rparr>"

record decision_components =
  expected_keep_value :: f64
  expected_keep_cost :: f64
  reclaim_score :: f64
  retention_benefit :: f64
  component_list :: "(string \<times> f64) list"

definition get_component :: "decision_components \<Rightarrow> string \<Rightarrow> f64 option" where
  "get_component d name = map_option snd (find (\<lambda>(n, _). n = name) (component_list d))"

definition evaluate :: "cost_inputs \<Rightarrow> cost_weights \<Rightarrow> f64 \<Rightarrow> f64 \<Rightarrow> decision_components" where
  "evaluate inp w dependency_value survivability_value =
     (let avoidance = fmul (ci_reconstruction_cost inp) (ci_reconstruction_avoidance_fraction inp);
          keep_value = fadd (fadd (fadd
              (fmul (weight_reuse_value w) (ci_expected_reuse_value inp))
              (fmul (weight_reconstruction_avoidance w) avoidance))
              (fmul (weight_dependency_value w) dependency_value))
              (fmul (weight_survivability_value w) survivability_value);
          memory_cost = fmul (weight_memory w) (ci_memory_cost inp);
          storage_cost = fmul (weight_storage w) (ci_storage_cost inp);
          replication_cost = fmul (weight_replication w) (ci_replication_cost inp);
          pressure_cost = fmul (weight_pressure w) (ci_memory_pressure_cost inp);
          transfer = fmul (weight_transfer w) (ci_transfer_cost inp);
          migration = fmul (weight_migration w) (ci_migration_cost inp);
          keep_cost = fadd (fadd (fadd (fadd (fadd memory_cost storage_cost)
            replication_cost) pressure_cost) transfer) migration;
          retain_benefit = fsub keep_value (ci_retain_cost inp);
          score = fsub keep_cost keep_value
      in \<lparr>expected_keep_value = keep_value,
          expected_keep_cost = keep_cost,
          reclaim_score = score,
          retention_benefit = retain_benefit,
          component_list =
           [(''expected_reuse_value'', ci_expected_reuse_value inp),
            (''reconstruction_cost'', ci_reconstruction_cost inp),
            (''reconstruction_avoidance_value'', avoidance),
            (''dependency_value'', dependency_value),
            (''survivability_value'', survivability_value),
            (''retain_cost'', ci_retain_cost inp),
            (''storage_cost'', ci_storage_cost inp),
            (''memory_cost'', ci_memory_cost inp),
            (''memory_pressure_cost'', ci_memory_pressure_cost inp),
            (''replication_cost'', ci_replication_cost inp),
            (''transfer_cost'', ci_transfer_cost inp),
            (''migration_cost'', ci_migration_cost inp),
            (''compression_cost'', ci_compression_cost inp),
            (''archive_cost'', ci_archive_cost inp),
            (''failure_recovery_value'', ci_failure_recovery_value inp),
            (''expected_keep_value'', keep_value),
            (''expected_keep_cost'', keep_cost),
            (''reclaim_score'', score),
            (''retention_benefit'', retain_benefit)]\<rparr>)"

datatype reclaim_verdict =
    Retain | Reclaim | Demote | CompressVerdict | Deduplicate | ArchiveVerdict | MarkRecomputable

fun verdict_str :: "reclaim_verdict \<Rightarrow> string" where
  "verdict_str Retain = ''RETAIN''"
| "verdict_str Reclaim = ''RECLAIM''"
| "verdict_str Demote = ''DEMOTE''"
| "verdict_str CompressVerdict = ''COMPRESS''"
| "verdict_str Deduplicate = ''DEDUPLICATE''"
| "verdict_str ArchiveVerdict = ''ARCHIVE''"
| "verdict_str MarkRecomputable = ''MARK_RECOMPUTABLE''"

record decision =
  dec_object_id :: uuid
  dec_generation :: nat
  verdict :: reclaim_verdict
  score :: f64
  threshold :: f64
  dec_policy_id :: string
  dec_policy_version :: string
  dec_epoch :: nat
  dec_components :: decision_components
  dec_reasons :: "msg list"

text \<open>A number in a JSON value: a float that is not finite is serialized as \<open>null\<close>.\<close>

definition json_f64 :: "f64 \<Rightarrow> json" where
  "json_f64 x = (if is_finite x then JFloat x else JNull)"

definition json_opt :: "('a \<Rightarrow> json) \<Rightarrow> 'a option \<Rightarrow> json" where
  "json_opt f x = (case x of None \<Rightarrow> JNull | Some a \<Rightarrow> f a)"

definition build_explanation :: "decision \<Rightarrow> reclaim_object \<Rightarrow> string \<Rightarrow> json" where
  "build_explanation d obj pressure =
     JObject (fold (\<lambda>(k, v) m. bt_insert k v m)
       ([(''decision'', JString (verdict_str (verdict d))),
         (''score'', json_f64 (score d)),
         (''threshold'', json_f64 (threshold d)),
         (''policy'', JString (dec_policy_id d @ ''-'' @ dec_policy_version d)),
         (''reuse_probability'', json_f64 (reuse_probability obj)),
         (''expected_reuse_horizon_secs'', json_opt (\<lambda>n. JInt (int n)) (reuse_horizon_secs obj)),
         (''logical_size'', JInt (int (logical_size obj))),
         (''recompute_cost'', json_opt json_f64 (recompute_cost obj)),
         (''recomputation_latency_secs'', json_opt json_f64 (recompute_latency_secs obj)),
         (''pressure'', JString pressure),
         (''epoch'', JInt (int (dec_epoch d)))]
        @ map (\<lambda>(name, v). (''component_'' @ name, json_f64 v)) (component_list (dec_components d)))
       [])"

definition validate_finite :: "cost_inputs \<Rightarrow> unit result" where
  "validate_finite inp =
     bindr (for_each
       [(''retain_cost'', ci_retain_cost inp),
        (''reconstruction_cost'', ci_reconstruction_cost inp),
        (''expected_reuse_value'', ci_expected_reuse_value inp),
        (''transfer_cost'', ci_transfer_cost inp),
        (''migration_cost'', ci_migration_cost inp),
        (''storage_cost'', ci_storage_cost inp),
        (''memory_cost'', ci_memory_cost inp),
        (''memory_pressure_cost'', ci_memory_pressure_cost inp),
        (''replication_cost'', ci_replication_cost inp),
        (''compression_cost'', ci_compression_cost inp),
        (''archive_cost'', ci_archive_cost inp),
        (''failure_recovery_value'', ci_failure_recovery_value inp),
        (''dependency_value'', ci_dependency_value inp),
        (''survivability_value'', ci_survivability_value inp),
        (''reconstruction_avoidance_fraction'', ci_reconstruction_avoidance_fraction inp)]
       (\<lambda>(name, v). ensure (\<not> (is_nan v \<or> is_infinite v \<or> flt v (Fin 0)))
          (InvalidArgument [Lit ''cost input '', Str name,
             Lit '' must be finite and non-negative, got '', Flt v]))) (\<lambda>_.
     ensure (fcontains (Fin 0) (Fin 1) (ci_reconstruction_avoidance_fraction inp))
       (InvalidArgument [Lit ''reconstruction_avoidance_fraction must be in [0,1]'']))"

definition validate_weights :: "cost_weights \<Rightarrow> unit result" where
  "validate_weights w =
     for_each
       [(''weight_reuse_value'', weight_reuse_value w),
        (''weight_reconstruction_avoidance'', weight_reconstruction_avoidance w),
        (''weight_dependency_value'', weight_dependency_value w),
        (''weight_survivability_value'', weight_survivability_value w),
        (''weight_memory'', weight_memory w),
        (''weight_storage'', weight_storage w),
        (''weight_replication'', weight_replication w),
        (''weight_pressure'', weight_pressure w),
        (''weight_transfer'', weight_transfer w),
        (''weight_migration'', weight_migration w)]
       (\<lambda>(name, v). ensure (\<not> (\<not> is_finite v \<or> flt v (Fin 0)))
          (InvalidArgument [Lit ''cost weight '', Str name,
             Lit '' must be finite and non-negative, got '', Flt v]))"

definition finite_component :: "string \<times> f64 \<Rightarrow> unit result" where
  "finite_component c = ensure (is_finite (snd c))
     (InvalidArgument [Lit ''decision component '', Str (fst c), Lit '' must be finite, got '', Flt (snd c)])"

definition validate_components :: "decision_components \<Rightarrow> unit result" where
  "validate_components d =
     bindr (for_each
       [(''expected_keep_value'', expected_keep_value d),
        (''expected_keep_cost'', expected_keep_cost d),
        (''reclaim_score'', reclaim_score d),
        (''retention_benefit'', retention_benefit d)] finite_component) (\<lambda>_.
     for_each (component_list d) finite_component)"

subsection \<open>Validated data\<close>

definition weights_ok :: "cost_weights \<Rightarrow> bool" where
  "weights_ok w \<longleftrightarrow>
     list_all (\<lambda>v. is_finite v \<and> fnonneg v)
       [weight_reuse_value w, weight_reconstruction_avoidance w, weight_dependency_value w,
        weight_survivability_value w, weight_memory w, weight_storage w, weight_replication w,
        weight_pressure w, weight_transfer w, weight_migration w]"

definition inputs_ok :: "cost_inputs \<Rightarrow> bool" where
  "inputs_ok i \<longleftrightarrow>
     list_all (\<lambda>v. is_finite v \<and> fnonneg v)
       [ci_retain_cost i, ci_reconstruction_cost i, ci_expected_reuse_value i, ci_transfer_cost i,
        ci_migration_cost i, ci_storage_cost i, ci_memory_cost i, ci_memory_pressure_cost i,
        ci_replication_cost i, ci_compression_cost i, ci_archive_cost i,
        ci_failure_recovery_value i, ci_dependency_value i, ci_survivability_value i,
        ci_reconstruction_avoidance_fraction i] \<and>
     fle (ci_reconstruction_avoidance_fraction i) (Fin 1)"

lemma finite_nonneg_iff: "is_finite v \<and> \<not> flt v (Fin 0) \<longleftrightarrow> is_finite v \<and> fnonneg v"
  by (cases v) (auto simp: flt_def)

lemma finite_nonneg_iff':
  "\<not> is_nan v \<and> \<not> is_infinite v \<and> \<not> flt v (Fin 0) \<longleftrightarrow> is_finite v \<and> fnonneg v"
  by (cases v) (auto simp: flt_def)

lemma validate_weights_iff: "validate_weights w = Inr u \<longleftrightarrow> weights_ok w"
  unfolding validate_weights_def weights_ok_def
  by (simp add: bindr_Inr_iff finite_nonneg_iff)

lemma validate_finite_iff: "validate_finite i = Inr u \<longleftrightarrow> inputs_ok i"
  unfolding validate_finite_def inputs_ok_def
  by (simp add: bindr_Inr_iff finite_nonneg_iff' fcontains_def)

lemma finite_component_iff: "finite_component c = Inr u \<longleftrightarrow> is_finite (snd c)"
  by (simp add: finite_component_def)

lemma validate_components_iff:
  "validate_components d = Inr u \<longleftrightarrow>
     is_finite (expected_keep_value d) \<and> is_finite (expected_keep_cost d) \<and>
     is_finite (reclaim_score d) \<and> is_finite (retention_benefit d) \<and>
     (\<forall>c\<in>set (component_list d). is_finite (snd c))"
  by (auto simp: validate_components_def bindr_Inr_iff for_each_Inr_iff finite_component_iff)

lemma weights_ok_default: "weights_ok default_weights"
  by (simp add: weights_ok_def default_weights_def)

subsection \<open>Monotonicity of the reclaim score\<close>

lemma fadd_finiteD: "is_finite (fadd x y) \<Longrightarrow> is_finite x \<and> is_finite y"
  by (cases x; cases y) auto

lemma fsub_finiteD: "is_finite (fsub x y) \<Longrightarrow> is_finite x \<and> is_finite y"
  by (cases x; cases y) (auto simp: fsub_def)

lemma fmul_finiteD: "is_finite (fmul x y) \<Longrightarrow> is_finite x \<and> is_finite y"
  by (cases x; cases y) (auto split: if_splits)

lemma fadd_right_mono:
  "fle x x' \<Longrightarrow> is_finite (fadd x y) \<Longrightarrow> is_finite (fadd x' y) \<Longrightarrow> fle (fadd x y) (fadd x' y)"
  by (cases x; cases y; cases x') (auto intro!: round64_mono)

lemma fadd_left_mono:
  "fle y y' \<Longrightarrow> is_finite (fadd x y) \<Longrightarrow> is_finite (fadd x y') \<Longrightarrow> fle (fadd x y) (fadd x y')"
  by (cases x; cases y; cases y') (auto intro!: round64_mono)

lemma fsub_right_antimono:
  "fle y y' \<Longrightarrow> is_finite (fsub x y) \<Longrightarrow> is_finite (fsub x y') \<Longrightarrow> fle (fsub x y') (fsub x y)"
  by (cases x; cases y; cases y') (auto intro!: round64_mono simp: fsub_def)

lemmas finiteDs = fadd_finiteD fsub_finiteD fmul_finiteD

lemma multiplier_mono: "l \<le> l' \<Longrightarrow> fle (multiplier l) (multiplier l')"
  by (cases l; cases l') (auto simp: less_eq_pressure_level_def)

lemma surcharge_mono:
  "l \<le> l' \<Longrightarrow> fle (fmax (fsub (multiplier l) (Fin 1)) (Fin 0)) (fmax (fsub (multiplier l') (Fin 1)) (Fin 0))"
proof -
  have s: "fsub (multiplier l) (Fin 1) = Fin (case l of Normal \<Rightarrow> 0 | Elevated \<Rightarrow> 1 | High \<Rightarrow> 3 | CriticalLevel \<Rightarrow> 7)" for l
    using round64_numeral [of "num.One"] round64_int [of 3] round64_int [of 7]
    by (cases l) (simp_all add: fsub_def)
  assume "l \<le> l'"
  then show ?thesis by (cases l; cases l') (auto simp: s less_eq_pressure_level_def simp del: multiplier.simps)
qed

lemma keep_cost_pressure_mono:
  assumes i': "i' = i\<lparr>ci_memory_pressure_cost := p', ci_retain_cost := r'\<rparr>"
    and le: "fle (ci_memory_pressure_cost i) p'" and w: "weights_ok w"
    and fin: "is_finite (expected_keep_cost (evaluate i w dv sv))"
      "is_finite (expected_keep_cost (evaluate i' w dv sv))"
  shows "fle (expected_keep_cost (evaluate i w dv sv)) (expected_keep_cost (evaluate i' w dv sv))"
proof -
  have wp: "is_finite (weight_pressure w)" "fnonneg (weight_pressure w)"
    using w by (simp_all add: weights_ok_def)
  have f: "is_finite (ci_memory_pressure_cost i)" "is_finite p'"
    using fin by (auto simp: evaluate_def Let_def i' dest!: fadd_finiteD fmul_finiteD)
  have "fle (fmul (weight_pressure w) (ci_memory_pressure_cost i)) (fmul (weight_pressure w) p')"
    by (rule fmul_left_mono) (use le wp f in auto)
  then show ?thesis using fin
    by (simp add: evaluate_def Let_def i')
      (intro fadd_right_mono fadd_left_mono; auto dest!: fadd_finiteD)
qed

lemma derive_pressure:
  "derive obj now m' = (derive obj now m)\<lparr>
     ci_memory_pressure_cost := ci_memory_pressure_cost (derive obj now m'),
     ci_retain_cost := ci_retain_cost (derive obj now m')\<rparr>"
  by (simp add: derive_def Let_def)

lemma fof_nat_nonneg: "fnonneg (fof_nat n)"
  by (simp add: fof_nat_def round64_nonneg)

lemma memory_pressure_mono:
  assumes "object_ok obj" and "l \<le> l'"
    and "is_finite (ci_memory_pressure_cost (derive obj now (multiplier l)))"
      "is_finite (ci_memory_pressure_cost (derive obj now (multiplier l')))"
  shows "fle (ci_memory_pressure_cost (derive obj now (multiplier l)))
    (ci_memory_pressure_cost (derive obj now (multiplier l')))"
proof -
  let ?mem = "fmul (fof_nat (max (physical_size obj) (logical_size obj))) (memory_cost_per_byte_sec obj)"
  have fin: "is_finite ?mem" using assms(3) by (simp add: derive_def Let_def) (blast dest: fmul_finiteD)
  moreover have "fnonneg (memory_cost_per_byte_sec obj)"
    using assms(1) by (simp add: object_ok_def cost_ok_def)
  ultimately have "fnonneg ?mem" by (intro fmul_nonneg fof_nat_nonneg) (auto dest: fmul_finiteD)
  then show ?thesis using assms(3,4) fin surcharge_mono [OF assms(2)]
    by (simp add: derive_def Let_def) (intro fmul_left_mono; auto dest: fmul_finiteD)
qed

lemma evaluate_keep_value_pressure:
  "expected_keep_value (evaluate (i\<lparr>ci_memory_pressure_cost := p, ci_retain_cost := r\<rparr>) w dv sv)
     = expected_keep_value (evaluate i w dv sv)"
  by (simp add: evaluate_def Let_def)

lemma reclaim_score_eq:
  "reclaim_score (evaluate i w dv sv) =
     fsub (expected_keep_cost (evaluate i w dv sv)) (expected_keep_value (evaluate i w dv sv))"
  by (simp add: evaluate_def Let_def)

lemma validated_pressure_cost:
  "validate_components (evaluate i w dv sv) = Inr () \<Longrightarrow> is_finite (ci_memory_pressure_cost i)"
  by (simp add: validate_components_iff evaluate_def Let_def)

lemma reclaim_score_mono:
  assumes "object_ok obj" and "weights_ok w" and "l \<le> l'"
    and "validate_components (evaluate (derive obj now (multiplier l)) w dv sv) = Inr ()"
    and "validate_components (evaluate (derive obj now (multiplier l')) w dv sv) = Inr ()"
  shows "fle (reclaim_score (evaluate (derive obj now (multiplier l)) w dv sv))
             (reclaim_score (evaluate (derive obj now (multiplier l')) w dv sv))"
proof -
  let ?i = "derive obj now (multiplier l)" and ?i' = "derive obj now (multiplier l')"
  have fin: "is_finite (expected_keep_cost (evaluate ?i w dv sv))"
      "is_finite (expected_keep_cost (evaluate ?i' w dv sv))"
      "is_finite (expected_keep_value (evaluate ?i w dv sv))"
    using assms(4,5) by (simp_all add: validate_components_iff)
  have "fle (expected_keep_cost (evaluate ?i w dv sv)) (expected_keep_cost (evaluate ?i' w dv sv))"
    by (rule keep_cost_pressure_mono [OF derive_pressure])
      (use assms fin in \<open>auto intro: memory_pressure_mono validated_pressure_cost\<close>)
  moreover have "expected_keep_value (evaluate ?i' w dv sv) = expected_keep_value (evaluate ?i w dv sv)"
    by (subst derive_pressure [of obj now "multiplier l'" "multiplier l"])
      (simp add: evaluate_keep_value_pressure)
  ultimately show ?thesis using fin by (simp add: reclaim_score_eq fsub_left_mono)
qed

text \<open>
  C17: for a validated object and weights, a higher pressure level never lowers the reclaim
  score of the object, as long as both scores are computed without overflow (otherwise the
  decision is refused).
\<close>

theorem reclaim_score_pressure_mono:
  assumes "validate_object obj = Inr ()" and "validate_weights w = Inr ()" and "l \<le> l'"
    and "validate_components (evaluate (derive obj now (multiplier l)) w dv sv) = Inr ()"
    and "validate_components (evaluate (derive obj now (multiplier l')) w dv sv) = Inr ()"
  shows "fle (reclaim_score (evaluate (derive obj now (multiplier l)) w dv sv))
             (reclaim_score (evaluate (derive obj now (multiplier l')) w dv sv))"
  using assms by (intro reclaim_score_mono) (simp_all add: validate_object_iff validate_weights_iff)

definition sample_object :: reclaim_object where
  "sample_object = (new_object 7 1 ''kv-cache'' 64 1000)\<lparr>memory_cost_per_byte_sec := Fin 1\<rparr>"

lemma sample_object_ok: "validate_object sample_object = Inr ()"
proof -
  have "\<not> blank ''kv-cache''" by code_simp
  then show ?thesis
    by (simp add: validate_object_iff object_ok_def cost_ok_def sample_object_def new_object_def)
qed

lemma baseline_finite:
  "is_finite BASELINE_COMPRESSION_COST_FRACTION" "is_finite BASELINE_ARCHIVE_COST_FRACTION"
  "is_finite BASELINE_FAILURE_RECOVERY_VALUE_FRACTION"
  unfolding BASELINE_COMPRESSION_COST_FRACTION_def BASELINE_ARCHIVE_COST_FRACTION_def
    BASELINE_FAILURE_RECOVERY_VALUE_FRACTION_def
  by (rule round64_unit_finite; simp)+

lemmas f64_eval = fof_nat_numeral round64_numeral round64_neg_numeral fsub_def fmul_0_left

definition sample_inputs :: "f64 \<Rightarrow> f64 \<Rightarrow> cost_inputs" where
  "sample_inputs surcharge retain = \<lparr>ci_retain_cost = retain, ci_reconstruction_cost = Fin 0,
     ci_expected_reuse_value = Fin 0, ci_transfer_cost = Fin 0, ci_migration_cost = Fin 0,
     ci_storage_cost = Fin 0, ci_memory_cost = Fin 64, ci_memory_pressure_cost = surcharge,
     ci_replication_cost = Fin 0, ci_compression_cost = Fin 0, ci_archive_cost = Fin 0,
     ci_failure_recovery_value = Fin 0, ci_dependency_value = Fin 0,
     ci_survivability_value = Fin 0, ci_reconstruction_avoidance_fraction = Fin 0\<rparr>"

lemma derive_sample:
  "derive sample_object now (Fin 1) = sample_inputs (Fin 0) (Fin 64)"
  "derive sample_object now (Fin 4) = sample_inputs (Fin 192) (Fin 256)"
  using baseline_finite
  by (simp_all add: derive_def sample_object_def new_object_def unwrap_or_def f64_eval sample_inputs_def Let_def)

lemma evaluate_sample:
  "validate_components (evaluate (sample_inputs (Fin 0) (Fin 64)) default_weights (Fin 0) (Fin 0)) = Inr ()"
  "validate_components (evaluate (sample_inputs (Fin 192) (Fin 256)) default_weights (Fin 0) (Fin 0)) = Inr ()"
  unfolding validate_components_iff
  by (simp_all add: evaluate_def default_weights_def f64_eval sample_inputs_def Let_def)

theorem reclaim_score_pressure_mono_witness:
  "fle (reclaim_score (evaluate (derive sample_object 5 (multiplier Normal)) default_weights (Fin 0) (Fin 0)))
       (reclaim_score (evaluate (derive sample_object 5 (multiplier High)) default_weights (Fin 0) (Fin 0)))"
  by (rule reclaim_score_pressure_mono [OF sample_object_ok])
    (simp_all add: validate_weights_iff weights_ok_default derive_sample evaluate_sample
      less_eq_pressure_level_def)

end
