(* ===== verification/Lineage.thy ===== *)
theory Lineage
  imports Economics
begin

section \<open>Lineage and dependency safety (src/lineage.rs)\<close>

text \<open>
  The typed lineage graph: its two adjacency indexes, the insertion that keeps it acyclic,
  the breadth-first searches and the check that decides whether an object may be reclaimed
  without invalidating a dependent. A hash map is the list of its entries by key; a hash
  set is a list without repetition. The main results: the searches compute the transitive
  closure of the index they walk, an accepted edge keeps the graph acyclic, dependency
  safety is exactly the absence of a live dependent that cannot be rebuilt at the end of a
  path of \<open>DEPENDS_ON\<close> edges, and the validation after a restart accepts exactly the
  acyclic graphs whose indexes agree.
\<close>

datatype edge_kind = DerivesFrom | DependsOn | Supersedes | Duplicates

fun edge_kind_str :: "edge_kind \<Rightarrow> string" where
  "edge_kind_str DerivesFrom = ''DERIVES_FROM''"
| "edge_kind_str DependsOn = ''DEPENDS_ON''"
| "edge_kind_str Supersedes = ''SUPERSEDES''"
| "edge_kind_str Duplicates = ''DUPLICATES''"

fun edge_rank :: "edge_kind \<Rightarrow> nat" where
  "edge_rank DerivesFrom = 0"
| "edge_rank DependsOn = 1"
| "edge_rank Supersedes = 2"
| "edge_rank Duplicates = 3"

record lineage_edge =
  edge_parent :: uuid
  edge_child :: uuid
  edge_kind :: edge_kind

record lineage_graph =
  parents :: "(uuid \<times> lineage_edge list) list"
  children :: "(uuid \<times> lineage_edge list) list"
  object_ids :: "uuid list"

definition empty_graph :: lineage_graph where
  "empty_graph = \<lparr>parents = [], children = [], object_ids = []\<rparr>"

definition entries :: "(uuid \<times> lineage_edge list) list \<Rightarrow> uuid \<Rightarrow> lineage_edge list" where
  "entries m k = unwrap_or (map_of m k) []"

definition push_entry ::
  "uuid \<Rightarrow> lineage_edge \<Rightarrow> (uuid \<times> lineage_edge list) list \<Rightarrow> (uuid \<times> lineage_edge list) list" where
  "push_entry k e m = bt_insert k (entries m k @ [e]) m"

definition add_object :: "uuid \<Rightarrow> lineage_graph \<Rightarrow> lineage_graph" where
  "add_object i g = g\<lparr>object_ids := List.insert i (object_ids g)\<rparr>"

subsection \<open>Breadth-first searches\<close>

text \<open>
  An adjacency map is what a search reads of an index. \<open>visit\<close> is the inner loop: it
  marks the neighbours that are new and queues them.
\<close>

type_synonym adjacency = "(uuid \<times> uuid list) list"

definition down :: "lineage_graph \<Rightarrow> adjacency" where
  "down g = map (\<lambda>(k, es). (k, map edge_child es)) (parents g)"

definition up :: "lineage_graph \<Rightarrow> adjacency" where
  "up g = map (\<lambda>(k, es). (k, map edge_parent es)) (children g)"

definition next_of :: "adjacency \<Rightarrow> uuid \<Rightarrow> uuid list" where
  "next_of adj n = unwrap_or (map_of adj n) []"

definition targets :: "adjacency \<Rightarrow> uuid set" where
  "targets adj = set (concat (map snd adj))"

fun visit :: "uuid list \<Rightarrow> uuid list \<Rightarrow> uuid list \<Rightarrow> uuid list \<times> uuid list" where
  "visit [] seen q = (seen, q)"
| "visit (c # cs) seen q =
     (if c \<in> set seen then visit cs seen q else visit cs (c # seen) (q @ [c]))"

lemma targets_finite [simp]: "finite (targets adj)"
  by (simp add: targets_def)

lemma next_of_targets: "set (next_of adj n) \<subseteq> targets adj"
  by (cases "map_of adj n") (auto simp: next_of_def targets_def unwrap_or_def dest: map_of_SomeD)

lemma visit_sets:
  "visit cs seen q = (seen', q') \<Longrightarrow>
     set seen' = set seen \<union> set cs \<and> set q' = set q \<union> (set cs - set seen)"
  by (induction cs seen q rule: visit.induct) (auto split: if_splits)

lemma visit_measure:
  assumes "visit cs seen q = (seen', q')" and "set cs \<subseteq> U" and "finite U"
  shows "card (U - set seen') + length q' = card (U - set seen) + length q"
  using assms
proof (induction cs seen q rule: visit.induct)
  case (2 c cs seen q)
  show ?case
  proof (cases "c \<in> set seen")
    case False
    have "card (U - set seen) = Suc (card (U - set (c # seen)))"
    proof -
      have "U - set seen = insert c (U - set (c # seen))" using 2 False by auto
      then show ?thesis using \<open>finite U\<close> by simp
    qed
    then show ?thesis using 2 False by simp
  qed (use 2 in simp)
qed simp

function closure_loop :: "adjacency \<Rightarrow> uuid list \<Rightarrow> uuid list \<Rightarrow> uuid list" where
  "closure_loop adj out [] = out"
| "closure_loop adj out (n # q) =
     (let (out', q') = visit (next_of adj n) out q in closure_loop adj out' q')"
  by pat_completeness auto
termination
proof (relation "measure (\<lambda>(adj, out, q). card (targets adj - set out) + length q)")
  fix adj out n q x out' q'
  assume "x = visit (next_of adj n) out q" and "(out', q') = x"
  then have "visit (next_of adj n) out q = (out', q')" by simp
  from visit_measure [OF this next_of_targets]
  show "((adj, out', q'), adj, out, n # q) \<in> measure (\<lambda>(adj, out, q). card (targets adj - set out) + length q)"
    by simp
qed simp

function reaches_loop :: "adjacency \<Rightarrow> uuid \<Rightarrow> uuid list \<Rightarrow> uuid list \<Rightarrow> bool" where
  "reaches_loop adj target seen [] = False"
| "reaches_loop adj target seen (n # q) =
     (if n = target then True
      else let (seen', q') = visit (next_of adj n) seen q in reaches_loop adj target seen' q')"
  by pat_completeness auto
termination
proof (relation "measure (\<lambda>(adj, t, out, q). card (targets adj - set out) + length q)")
  fix adj n q x seen' q' and t :: uuid and seen :: "uuid list"
  assume "x = visit (next_of adj n) seen q" and "(seen', q') = x"
  then have "visit (next_of adj n) seen q = (seen', q')" by simp
  from visit_measure [OF this next_of_targets]
  show "((adj, t, seen', q'), adj, t, seen, n # q)
      \<in> measure (\<lambda>(adj, t, out, q). card (targets adj - set out) + length q)"
    by simp
qed simp

definition reaches :: "lineage_graph \<Rightarrow> uuid \<Rightarrow> uuid \<Rightarrow> bool" where
  "reaches g start target = reaches_loop (down g) target [start] [start]"

definition descendants :: "lineage_graph \<Rightarrow> uuid \<Rightarrow> uuid list" where
  "descendants g start = closure_loop (down g) [] [start]"

definition ancestors :: "lineage_graph \<Rightarrow> uuid \<Rightarrow> uuid list" where
  "ancestors g start = closure_loop (up g) [] [start]"

subsection \<open>Edges\<close>

definition add_edge ::
  "uuid \<Rightarrow> uuid \<Rightarrow> edge_kind \<Rightarrow> lineage_graph \<Rightarrow> lineage_graph result" where
  "add_edge p c k g =
     (if p = c then Inl (DependencyViolation [Lit ''self-edge is not allowed''])
      else if p \<notin> set (object_ids g) \<or> c \<notin> set (object_ids g)
      then Inl (DependencyViolation [Lit ''edge endpoints must be registered objects''])
      else if \<exists>e\<in>set (entries (parents g) p). edge_child e = c \<and> edge_kind e = k then Inr g
      else if reaches g c p
      then Inl (DependencyViolation
             [Lit ''cycle would be created by edge '', Uid p, Lit ''->'', Uid c])
      else let e = \<lparr>edge_parent = p, edge_child = c, edge_kind = k\<rparr>
           in Inr (g\<lparr>parents := push_entry p e (parents g),
                     children := push_entry c e (children g)\<rparr>))"

definition retain_entry ::
  "uuid \<Rightarrow> (lineage_edge \<Rightarrow> bool) \<Rightarrow> (uuid \<times> lineage_edge list) list
   \<Rightarrow> (uuid \<times> lineage_edge list) list" where
  "retain_entry k keep m = map (\<lambda>(j, es). (j, if j = k then filter keep es else es)) m"

definition remove_edge :: "uuid \<Rightarrow> uuid \<Rightarrow> edge_kind \<Rightarrow> lineage_graph \<Rightarrow> lineage_graph" where
  "remove_edge p c k g =
     g\<lparr>parents := retain_entry p (\<lambda>e. \<not> (edge_child e = c \<and> edge_kind e = k)) (parents g),
       children := retain_entry c (\<lambda>e. \<not> (edge_parent e = p \<and> edge_kind e = k)) (children g)\<rparr>"

subsection \<open>Dependency safety\<close>

fun dep_visit ::
  "(uuid \<Rightarrow> bool) \<Rightarrow> uuid list \<Rightarrow> uuid \<Rightarrow> lineage_edge list \<Rightarrow> uuid list \<Rightarrow> uuid list
   \<Rightarrow> (uuid list \<times> uuid list) result" where
  "dep_visit reconstructible dead candidate [] seen q = Inr (seen, q)"
| "dep_visit reconstructible dead candidate (e # es) seen q =
     (if edge_kind e \<noteq> DependsOn then dep_visit reconstructible dead candidate es seen q
      else if edge_child e \<in> set seen then dep_visit reconstructible dead candidate es seen q
      else if edge_child e \<notin> set dead \<and> \<not> reconstructible (edge_child e)
      then Inl (DependencyViolation [Lit ''dependent '', Uid (edge_child e),
             Lit '' is not reconstructible and requires '', Uid candidate])
      else dep_visit reconstructible dead candidate es (edge_child e # seen) (q @ [edge_child e]))"

definition dep_children :: "lineage_edge list \<Rightarrow> uuid list" where
  "dep_children es = map edge_child (filter (\<lambda>e. edge_kind e = DependsOn) es)"

lemma dep_visit_Inr:
  "dep_visit rc dead cand es seen q = Inr r \<Longrightarrow>
     r = visit (dep_children es) seen q \<and>
     (\<forall>c\<in>set (dep_children es) - set seen. c \<in> set dead \<or> rc c)"
proof (induction es arbitrary: seen q)
  case (Cons e es)
  show ?case
  proof (cases "edge_kind e = DependsOn \<and> edge_child e \<notin> set seen")
    case True
    then have ok: "edge_child e \<in> set dead \<or> rc (edge_child e)"
      and r: "dep_visit rc dead cand es (edge_child e # seen) (q @ [edge_child e]) = Inr r"
      using Cons.prems by (auto split: if_splits)
    show ?thesis using Cons.IH [OF r] ok True by (auto simp: dep_children_def)
  next
    case False
    then show ?thesis using Cons by (auto simp: dep_children_def split: if_splits)
  qed
qed (simp add: dep_children_def)

lemma dep_visit_Inl:
  "dep_visit rc dead cand es seen q = Inl e \<Longrightarrow>
     \<exists>c\<in>set (dep_children es) - set seen. c \<notin> set dead \<and> \<not> rc c"
  by (induction es arbitrary: seen q) (fastforce simp: dep_children_def split: if_splits)+

lemma dep_children_targets: "set (dep_children (entries (parents g) n)) \<subseteq> targets (down g)"
proof
  fix c
  assume "c \<in> set (dep_children (entries (parents g) n))"
  then obtain e es where "map_of (parents g) n = Some es" "e \<in> set es" "c = edge_child e"
    by (cases "map_of (parents g) n") (auto simp: dep_children_def entries_def unwrap_or_def)
  then show "c \<in> targets (down g)"
    using map_of_SomeD by (force simp: targets_def down_def)
qed

function dep_loop ::
  "(uuid \<Rightarrow> bool) \<Rightarrow> uuid list \<Rightarrow> uuid \<Rightarrow> lineage_graph \<Rightarrow> uuid list \<Rightarrow> uuid list \<Rightarrow> unit result" where
  "dep_loop reconstructible dead candidate g seen [] = Inr ()"
| "dep_loop reconstructible dead candidate g seen (n # q) =
     (case dep_visit reconstructible dead candidate (entries (parents g) n) seen q of
        Inl e \<Rightarrow> Inl e
      | Inr (seen', q') \<Rightarrow> dep_loop reconstructible dead candidate g seen' q')"
  by pat_completeness auto
termination
proof (relation "measure (\<lambda>(rc, dead, cand, g, seen, q). card (targets (down g) - set seen) + length q)")
  fix rc dead cand seen n q r seen' q' and g :: lineage_graph
  assume "dep_visit rc dead cand (entries (parents g) n) seen q = Inr r" and "(seen', q') = r"
  then have "visit (dep_children (entries (parents g) n)) seen q = (seen', q')"
    by (auto dest: dep_visit_Inr)
  from visit_measure [OF this dep_children_targets]
  show "((rc, dead, cand, g, seen', q'), rc, dead, cand, g, seen, n # q)
    \<in> measure (\<lambda>(rc, dead, cand, g, seen, q). card (targets (down g) - set seen) + length q)"
    by simp
qed simp

definition dependency_safe ::
  "lineage_graph \<Rightarrow> uuid \<Rightarrow> (uuid \<Rightarrow> bool) \<Rightarrow> uuid list \<Rightarrow> unit result" where
  "dependency_safe g candidate reconstructible dead_nodes =
     dep_loop reconstructible dead_nodes candidate g [candidate] [candidate]"

definition superseded :: "lineage_graph \<Rightarrow> uuid list \<Rightarrow> uuid list" where
  "superseded g ids =
     filter (\<lambda>i. \<exists>e\<in>set (entries (parents g) i). edge_kind e = Supersedes \<and> edge_child e \<in> set ids) ids"

definition dependent_count :: "lineage_graph \<Rightarrow> uuid \<Rightarrow> nat" where
  "dependent_count g p = length (filter (\<lambda>e. edge_kind e = DependsOn) (entries (parents g) p))"

subsection \<open>Validation of a restored graph\<close>

definition all_entries :: "(uuid \<times> lineage_edge list) list \<Rightarrow> lineage_edge list" where
  "all_entries m = concat (map snd m)"

definition orphans :: "lineage_graph \<Rightarrow> uuid list" where
  "orphans g = sort (remdups (filter (\<lambda>i. i \<notin> set (object_ids g))
     (map fst (parents g) @ map edge_child (all_entries (parents g))
      @ map fst (children g) @ map edge_parent (all_entries (children g)))))"

text \<open>
  The check of one index: every edge stands under its own key, no edge twice. The edges of a
  valid index are returned as a set.
\<close>

definition index_edges ::
  "(lineage_edge \<Rightarrow> uuid) \<Rightarrow> (uuid \<Rightarrow> lineage_edge \<Rightarrow> error) \<Rightarrow> error
   \<Rightarrow> (uuid \<times> lineage_edge list) list \<Rightarrow> lineage_edge set result" where
  "index_edges key misplaced twice m =
     bindr (for_each m (\<lambda>(k, es). for_each es (\<lambda>e. ensure (key e = k) (misplaced k e)))) (\<lambda>_.
     bindr (ensure (card (set (all_entries m)) = length (all_entries m)) twice) (\<lambda>_.
     Inr (set (all_entries m))))"

definition parent_edges :: "lineage_graph \<Rightarrow> lineage_edge set result" where
  "parent_edges g = index_edges edge_parent
     (\<lambda>k e. Recovery [Lit ''lineage validation failed: parent index key '', Uid k,
        Lit '' contains edge from '', Uid (edge_parent e)])
     (Recovery [Lit ''lineage validation failed: duplicate edge in parent index'']) (parents g)"

definition child_edges :: "lineage_graph \<Rightarrow> lineage_edge set result" where
  "child_edges g = index_edges edge_child
     (\<lambda>k e. Recovery [Lit ''lineage validation failed: child index key '', Uid k,
        Lit '' contains edge to '', Uid (edge_child e)])
     (Recovery [Lit ''lineage validation failed: duplicate edge in child index'']) (children g)"

definition check_indexes :: "lineage_graph \<Rightarrow> unit result" where
  "check_indexes g =
     bindr (parent_edges g) (\<lambda>ps. bindr (child_edges g) (\<lambda>cs.
       ensure (ps = cs)
         (Recovery [Lit ''lineage validation failed: parent/child indexes disagree''])))"

text \<open>
  Kahn's algorithm. \<open>None\<close> is the panic of the source when an edge leads to a node without
  an indegree, or when an indegree would fall below zero. Every step takes a node from the
  queue; a node is queued only when its indegree falls to zero, so the loop is bounded by
  the queue and the sum of the indegrees.
\<close>

definition initial_indegree :: "lineage_graph \<Rightarrow> (uuid \<times> nat) list" where
  "initial_indegree g =
     fold (\<lambda>e d. bt_insert (edge_child e) (unwrap_or (map_of d (edge_child e)) 0 + 1) d)
       (all_entries (parents g)) (fold (\<lambda>i d. bt_insert i 0 d) (object_ids g) [])"

fun kahn_visit ::
  "uuid list \<Rightarrow> (uuid \<times> nat) list \<Rightarrow> uuid list \<Rightarrow> ((uuid \<times> nat) list \<times> uuid list) option" where
  "kahn_visit [] d q = Some (d, q)"
| "kahn_visit (c # cs) d q =
     (case map_of d c of
        None \<Rightarrow> None
      | Some 0 \<Rightarrow> None
      | Some (Suc n) \<Rightarrow> kahn_visit cs (bt_insert c n d) (if n = 0 then q @ [c] else q))"

definition indegree_sum :: "(uuid \<times> nat) list \<Rightarrow> nat" where
  "indegree_sum d = sum_list (map snd d)"

lemma indegree_sum_insert:
  assumes "map_of d c = Some (Suc n)" and "bt_wf d"
  shows "indegree_sum (bt_insert c n d) + 1 = indegree_sum d"
  using assms
proof (induction d)
  case (Cons e d)
  obtain k v where e: "e = (k, v)" by fastforce
  show ?case
  proof (cases "c = k")
    case False
    then have "map_of d c = Some (Suc n)" using Cons.prems e by (simp split: if_splits)
    moreover from this have "k < c" using Cons.prems(2) map_of_SomeD [of d c]
      by (force simp: e bt_wf_Cons)
    ultimately show ?thesis using Cons False by (auto simp: e bt_wf_Cons indegree_sum_def)
  qed (use Cons.prems e in \<open>auto simp: indegree_sum_def\<close>)
qed simp

lemma kahn_visit_bounds:
  "kahn_visit cs d q = Some (d', q') \<Longrightarrow> bt_wf d \<Longrightarrow>
     bt_wf d' \<and> indegree_sum d' + length q' \<le> indegree_sum d + length q"
proof (induction cs d q rule: kahn_visit.induct)
  case (2 c cs d q)
  then obtain n where n: "map_of d c = Some (Suc n)"
      and r: "kahn_visit cs (bt_insert c n d) (if n = 0 then q @ [c] else q) = Some (d', q')"
    by (auto split: option.splits nat.splits)
  have "bt_wf d' \<and> indegree_sum d' + length q'
      \<le> indegree_sum (bt_insert c n d) + length (if n = 0 then q @ [c] else q)"
    using 2 n r by auto
  then show ?case using indegree_sum_insert [OF n "2.prems"(2)] by (auto split: if_splits)
qed simp

text \<open>The loop keeps its indegree map ordered; on any other list it is not called.\<close>

function kahn_loop ::
  "adjacency \<Rightarrow> (uuid \<times> nat) list \<Rightarrow> uuid list \<Rightarrow> nat \<Rightarrow> nat option" where
  "kahn_loop adj d [] visited = Some visited"
| "kahn_loop adj d (n # q) visited =
     (if \<not> bt_wf d then None
      else case kahn_visit (next_of adj n) d q of
        None \<Rightarrow> None
      | Some (d', q') \<Rightarrow> kahn_loop adj d' q' (visited + 1))"
  by pat_completeness auto
termination
proof (relation "measure (\<lambda>(adj, d, q, v). indegree_sum d + length q)")
  fix adj d n q and v :: nat and r d' q'
  assume "\<not> \<not> bt_wf d" and "kahn_visit (next_of adj n) d q = Some r" and "(d', q') = r"
  then show "((adj, d', q', v + 1), adj, d, n # q, v) \<in> measure (\<lambda>(adj, d, q, v). indegree_sum d + length q)"
    using kahn_visit_bounds [of "next_of adj n" d q d' q'] by simp
qed simp

definition kahn :: "lineage_graph \<Rightarrow> nat option" where
  "kahn g = (let d = initial_indegree g
             in kahn_loop (down g) d (map fst (filter (\<lambda>e. snd e = 0) d)) 0)"

text \<open>\<open>validate\<close>; \<open>None\<close> is a panic.\<close>

definition validate_graph :: "lineage_graph \<Rightarrow> unit result option" where
  "validate_graph g =
     (if orphans g \<noteq> []
      then Some (Inl (Recovery (Lit ''lineage validation failed: orphan objects '' # map Uid (orphans g))))
      else case check_indexes g of
        Inl e \<Rightarrow> Some (Inl e)
      | Inr _ \<Rightarrow>
         (case kahn g of
            None \<Rightarrow> None
          | Some visited \<Rightarrow>
              Some (if visited \<noteq> length (object_ids g)
                    then Inl (Recovery [Lit ''lineage validation failed: cycle detected (visited '',
                           Num (int visited), Lit ''/'', Num (int (length (object_ids g))), Lit '' objects)''])
                    else Inr ())))"

definition edge_participants :: "lineage_graph \<Rightarrow> uuid list" where
  "edge_participants g = remdups (map fst (parents g) @ map edge_child (all_entries (parents g)))"

definition edge_key :: "lineage_edge \<Rightarrow> uuid \<times> uuid \<times> nat" where
  "edge_key e = (edge_parent e, edge_child e, edge_rank (edge_kind e))"

definition all_edges :: "lineage_graph \<Rightarrow> lineage_edge list" where
  "all_edges g = sort_key edge_key (all_entries (parents g))"

definition neighbors :: "lineage_graph \<Rightarrow> uuid \<Rightarrow> lineage_edge list" where
  "neighbors g i = sort_key edge_key (entries (parents g) i @ entries (children g) i)"

definition edge_count :: "lineage_graph \<Rightarrow> nat" where
  "edge_count g = sum_list (map (\<lambda>e. length (snd e)) (parents g))"

definition duplicate_groups :: "(uuid \<times> content_hash option) list \<Rightarrow> uuid list list" where
  "duplicate_groups by_hash =
     sort (map (\<lambda>h. sort (map fst (filter (\<lambda>e. snd e = Some h) by_hash)))
       (filter (\<lambda>h. length (filter (\<lambda>e. snd e = Some h) by_hash) > 1)
          (remdups (concat (map (\<lambda>e. case snd e of None \<Rightarrow> [] | Some h \<Rightarrow> [h]) by_hash)))))"

subsection \<open>The searches compute transitive closures\<close>

definition succ_rel :: "(uuid \<Rightarrow> uuid list) \<Rightarrow> (uuid \<times> uuid) set" where
  "succ_rel f = {(n, c). c \<in> set (f n)}"

definition edge_rel :: "lineage_graph \<Rightarrow> (uuid \<times> uuid) set" where
  "edge_rel g = {(n, c). \<exists>e\<in>set (entries (parents g) n). edge_child e = c}"

definition depends_rel :: "lineage_graph \<Rightarrow> (uuid \<times> uuid) set" where
  "depends_rel g = {(n, c). \<exists>e\<in>set (entries (parents g) n). edge_child e = c \<and> edge_kind e = DependsOn}"

text \<open>What has been marked and is no longer queued has had its neighbours marked.\<close>

definition expanded :: "(uuid \<Rightarrow> uuid list) \<Rightarrow> uuid list \<Rightarrow> uuid list \<Rightarrow> bool" where
  "expanded f seen q \<longleftrightarrow> (\<forall>x\<in>set seen - set q. set (f x) \<subseteq> set seen)"

lemma trancl_closed:
  assumes "(n, x) \<in> R\<^sup>+" and "R `` {n} \<subseteq> T" and "R `` T \<subseteq> T"
  shows "x \<in> T"
  using assms by (induction rule: trancl_induct) auto

lemma expanded_visit:
  assumes "visit (f n) seen q = (seen', q')" and "expanded f seen (n # q)"
  shows "expanded f seen' q'"
  using assms visit_sets [OF assms(1)] by (fastforce simp: expanded_def)

lemma visit_covers:
  assumes v: "visit (f n) seen q = (seen', q')" and inv: "expanded f seen (n # q)"
    and m: "m \<in> set (n # q)" and x: "(m, x) \<in> (succ_rel f)\<^sup>+"
  shows "x \<in> set seen' \<or> (\<exists>k\<in>set q'. (k, x) \<in> (succ_rel f)\<^sup>+)"
proof -
  let ?T = "set seen' \<union> {x. \<exists>k\<in>set q'. (k, x) \<in> (succ_rel f)\<^sup>+}"
  have sets: "set seen' = set seen \<union> set (f n)" "set q' = set q \<union> (set (f n) - set seen)"
    using visit_sets [OF v] by auto
  have "succ_rel f `` ?T \<subseteq> ?T"
    using expanded_visit [of f, OF v inv]
    by (auto simp: expanded_def succ_rel_def intro: trancl_into_trancl r_into_trancl)
  moreover have "succ_rel f `` {m} \<subseteq> ?T"
    using m sets by (auto simp: succ_rel_def)
  ultimately have "x \<in> ?T" using trancl_closed [OF x] by blast
  then show ?thesis by auto
qed

lemma visit_sound:
  assumes "visit (f n) seen q = (seen', q')" and "k \<in> set q'" and "(k, x) \<in> (succ_rel f)\<^sup>+"
  shows "\<exists>m\<in>set (n # q). (m, x) \<in> (succ_rel f)\<^sup>+"
proof (cases "k \<in> set q")
  case False
  then have "(n, k) \<in> succ_rel f" using assms(1,2) visit_sets by (fastforce simp: succ_rel_def)
  then show ?thesis using assms(3) by (auto intro: trancl_into_trancl2)
qed (use assms(3) in auto)

lemma closure_loop_set:
  assumes "expanded (next_of adj) out q"
  shows "set (closure_loop adj out q) =
    set out \<union> {x. \<exists>n\<in>set q. (n, x) \<in> (succ_rel (next_of adj))\<^sup>+}"
  using assms
proof (induction adj out q rule: closure_loop.induct)
  case (1 adj out)
  then show ?case by simp
next
  case (2 adj out n q)
  obtain out' q' where v: "visit (next_of adj n) out q = (out', q')" by fastforce
  have IH: "set (closure_loop adj out' q') =
      set out' \<union> {x. \<exists>n\<in>set q'. (n, x) \<in> (succ_rel (next_of adj))\<^sup>+}"
    using "2.IH" [OF v [symmetric] refl] expanded_visit [OF v "2.prems"] by simp
  have out': "set out' = set out \<union> set (next_of adj n)" using visit_sets [OF v] by simp
  have step: "(n, x) \<in> (succ_rel (next_of adj))\<^sup>+" if "x \<in> set (next_of adj n)" for x
    using that by (auto simp: succ_rel_def)
  show ?case
  proof (intro equalityI subsetI)
    fix x
    assume "x \<in> set (closure_loop adj out (n # q))"
    then have "x \<in> set out \<or> x \<in> set (next_of adj n)
        \<or> (\<exists>k\<in>set q'. (k, x) \<in> (succ_rel (next_of adj))\<^sup>+)"
      using IH v out' by auto
    then show "x \<in> set out \<union> {x. \<exists>n\<in>set (n # q). (n, x) \<in> (succ_rel (next_of adj))\<^sup>+}"
      using step visit_sound [where f = "next_of adj", OF v] by auto
  next
    fix x
    assume "x \<in> set out \<union> {x. \<exists>n\<in>set (n # q). (n, x) \<in> (succ_rel (next_of adj))\<^sup>+}"
    then have "x \<in> set out' \<or> (\<exists>k\<in>set q'. (k, x) \<in> (succ_rel (next_of adj))\<^sup>+)"
      using visit_covers [OF v "2.prems"] out' by blast
    then show "x \<in> set (closure_loop adj out (n # q))" using IH v by auto
  qed
qed

lemma reaches_loop_iff:
  assumes "expanded (next_of adj) seen q" and "t \<notin> set seen - set q"
  shows "reaches_loop adj t seen q \<longleftrightarrow> (\<exists>n\<in>set q. (n, t) \<in> (succ_rel (next_of adj))\<^sup>*)"
  using assms
proof (induction adj t seen q rule: reaches_loop.induct)
  case (1 adj t seen)
  then show ?case by simp
next
  case (2 adj t seen n q)
  show ?case
  proof (cases "n = t")
    case False
    let ?R = "succ_rel (next_of adj)"
    obtain seen' q' where v: "visit (next_of adj n) seen q = (seen', q')" by fastforce
    have sets: "set seen' = set seen \<union> set (next_of adj n)"
      "set q' = set q \<union> (set (next_of adj n) - set seen)" using visit_sets [OF v] by auto
    have "reaches_loop adj t seen (n # q) \<longleftrightarrow> (\<exists>m\<in>set q'. (m, t) \<in> ?R\<^sup>*)"
      using "2.IH" [OF False v [symmetric] refl] expanded_visit [OF v "2.prems"(1)]
        "2.prems"(2) False v sets by auto
    also have "\<dots> \<longleftrightarrow> (\<exists>m\<in>set (n # q). (m, t) \<in> ?R\<^sup>*)"
    proof
      assume "\<exists>m\<in>set q'. (m, t) \<in> ?R\<^sup>*"
      then obtain m where m: "m \<in> set q'" "(m, t) \<in> ?R\<^sup>*" by blast
      then show "\<exists>m\<in>set (n # q). (m, t) \<in> ?R\<^sup>*"
        using sets by (cases "m \<in> set q") (auto simp: succ_rel_def intro: converse_rtrancl_into_rtrancl)
    next
      assume "\<exists>m\<in>set (n # q). (m, t) \<in> ?R\<^sup>*"
      then obtain m where m: "m \<in> set (n # q)" "(m, t) \<in> ?R\<^sup>*" by blast
      show "\<exists>m\<in>set q'. (m, t) \<in> ?R\<^sup>*"
      proof (cases "m = t")
        case True
        then show ?thesis using m False sets by auto
      next
        case neq: False
        then have "(m, t) \<in> ?R\<^sup>+" using m by (meson rtranclD)
        from visit_covers [OF v "2.prems"(1) m(1) this] show ?thesis
          using "2.prems"(2) False sets by (auto intro: trancl_into_rtrancl)
      qed
    qed
    finally show ?thesis .
  qed auto
qed

lemma succ_rel_down: "succ_rel (next_of (down g)) = edge_rel g"
proof -
  have "map_of (down g) n = map_option (map edge_child) (map_of (parents g) n)" for n
    unfolding down_def by (induction "parents g" rule: list.induct) (auto simp: map_of_map)
  then show ?thesis
    by (auto simp: succ_rel_def edge_rel_def next_of_def entries_def unwrap_or_def split: option.splits)
qed

lemma reaches_iff: "reaches g a b \<longleftrightarrow> (a, b) \<in> (edge_rel g)\<^sup>*"
  using reaches_loop_iff [of "down g" "[a]" "[a]" b]
  by (simp add: reaches_def expanded_def succ_rel_down)

lemma descendants_set: "set (descendants g a) = {b. (a, b) \<in> (edge_rel g)\<^sup>+}"
  using closure_loop_set [of "down g" "[]" "[a]"]
  by (simp add: descendants_def expanded_def succ_rel_down)


lemma dep_loop_iff:
  assumes "expanded (\<lambda>n. dep_children (entries (parents g) n)) seen q"
  shows "dep_loop rc dead cand g seen q = Inr () \<longleftrightarrow>
    (\<forall>x. (\<exists>n\<in>set q. (n, x) \<in> (depends_rel g)\<^sup>+) \<and> x \<notin> set seen \<longrightarrow> x \<in> set dead \<or> rc x)"
  using assms
proof (induction rc dead cand g seen q rule: dep_loop.induct)
  case (1 rc dead cand g seen)
  then show ?case by simp
next
  case (2 rc dead cand g seen n q)
  let ?f = "\<lambda>n. dep_children (entries (parents g) n)"
  have R: "depends_rel g = succ_rel ?f"
    by (auto simp: depends_rel_def succ_rel_def dep_children_def)
  show ?case
  proof (cases "dep_visit rc dead cand (entries (parents g) n) seen q")
    case (Inl e)
    then obtain c where c: "c \<in> set (?f n)" "c \<notin> set seen" "c \<notin> set dead" "\<not> rc c"
      using dep_visit_Inl by blast
    then have "(n, c) \<in> (depends_rel g)\<^sup>+" by (auto simp: R succ_rel_def)
    then show ?thesis using Inl c by auto
  next
    case (Inr r)
    obtain seen' q' where r: "r = (seen', q')" by fastforce
    have v: "visit (?f n) seen q = (seen', q')"
      and ok: "\<forall>c\<in>set (?f n) - set seen. c \<in> set dead \<or> rc c"
      using dep_visit_Inr [OF Inr] r by auto
    have seen': "set seen' = set seen \<union> set (?f n)" using visit_sets [OF v] by simp
    have IH: "dep_loop rc dead cand g seen (n # q) = Inr () \<longleftrightarrow>
        (\<forall>x. (\<exists>n\<in>set q'. (n, x) \<in> (depends_rel g)\<^sup>+) \<and> x \<notin> set seen' \<longrightarrow> x \<in> set dead \<or> rc x)"
      using "2.IH" [OF Inr r [symmetric]] expanded_visit [of ?f, OF v "2.prems"] Inr r by simp
    show ?thesis unfolding IH
      using ok seen' visit_covers [of ?f, OF v "2.prems"] visit_sound [of ?f, OF v]
      unfolding R by blast
  qed
qed

lemma dep_loop_error:
  "dep_loop rc dead cand g seen q = Inl e \<Longrightarrow> \<exists>m. e = DependencyViolation m"
proof (induction rc dead cand g seen q rule: dep_loop.induct)
  case (2 rc dead cand g seen n q)
  have "dep_visit rc dead cand es seen q = Inl e \<Longrightarrow> \<exists>m. e = DependencyViolation m" for es seen q
    by (induction es arbitrary: seen q) (auto split: if_splits)
  then show ?case using 2 by (auto split: sum.splits prod.splits)
qed simp

lemma dependency_safe_Inr_iff:
  "dependency_safe g candidate rc dead = Inr () \<longleftrightarrow>
     (\<forall>x. (candidate, x) \<in> (depends_rel g)\<^sup>+ \<and> x \<noteq> candidate \<longrightarrow> x \<in> set dead \<or> rc x)"
  using dep_loop_iff [of g "[candidate]" "[candidate]" rc dead candidate]
  by (auto simp: dependency_safe_def expanded_def)

subsection \<open>The graph stays acyclic\<close>

definition index_wf :: "(lineage_edge \<Rightarrow> uuid) \<Rightarrow> (uuid \<times> lineage_edge list) list \<Rightarrow> bool" where
  "index_wf key m \<longleftrightarrow> bt_wf m \<and> (\<forall>k. \<forall>e\<in>set (entries m k). key e = k) \<and> (\<forall>k. distinct (entries m k))"

definition graph_wf :: "lineage_graph \<Rightarrow> bool" where
  "graph_wf g \<longleftrightarrow>
     index_wf edge_parent (parents g) \<and> index_wf edge_child (children g) \<and>
     distinct (object_ids g) \<and>
     fst ` set (parents g) \<subseteq> set (object_ids g) \<and> fst ` set (children g) \<subseteq> set (object_ids g) \<and>
     (\<forall>e. e \<in> set (entries (parents g) (edge_parent e)) \<longleftrightarrow> e \<in> set (entries (children g) (edge_child e))) \<and>
     (\<forall>e. e \<in> set (entries (parents g) (edge_parent e)) \<longrightarrow>
        edge_parent e \<in> set (object_ids g) \<and> edge_child e \<in> set (object_ids g)) \<and>
     acyclic (edge_rel g)"

lemma entries_push:
  "bt_wf m \<Longrightarrow> entries (push_entry k e m) j = (if j = k then entries m k @ [e] else entries m j)"
  by (simp add: entries_def push_entry_def unwrap_or_def)

lemma entries_retain:
  "entries (retain_entry k keep m) j = (if j = k then filter keep (entries m j) else entries m j)"
proof -
  have "map_of (retain_entry k keep m) j =
      map_option (\<lambda>es. if j = k then filter keep es else es) (map_of m j)"
    unfolding retain_entry_def by (induction m) auto
  then show ?thesis by (auto simp: entries_def unwrap_or_def split: option.splits)
qed

lemma keys_retain: "map fst (retain_entry k keep m) = map fst m"
  by (induction m) (auto simp: retain_entry_def)

lemma bt_wf_keys: "map fst m = map fst m' \<Longrightarrow> bt_wf m = bt_wf m'"
  by (simp add: bt_wf_def)

lemma index_wf_push:
  "index_wf key m \<Longrightarrow> key e = k \<Longrightarrow> e \<notin> set (entries m k) \<Longrightarrow> index_wf key (push_entry k e m)"
  by (auto simp: index_wf_def entries_push) (simp_all add: push_entry_def)

lemma index_wf_retain: "index_wf key m \<Longrightarrow> index_wf key (retain_entry k keep m)"
  by (auto simp: index_wf_def entries_retain bt_wf_keys [OF keys_retain])

lemma graph_wf_empty: "graph_wf empty_graph"
  by (simp add: graph_wf_def empty_graph_def index_wf_def entries_def unwrap_or_def edge_rel_def acyclic_def)

lemma graph_wf_add_object: "graph_wf g \<Longrightarrow> graph_wf (add_object i g)"
  by (auto simp: graph_wf_def add_object_def edge_rel_def)

lemma edge_rel_add:
  assumes "bt_wf (parents g)"
  shows "edge_rel (g\<lparr>parents := push_entry p e (parents g), children := cs\<rparr>)
    = insert (p, edge_child e) (edge_rel g)"
  using assms by (auto simp: edge_rel_def entries_push split: if_splits)

lemma add_edge_cases:
  assumes "add_edge p c k g = Inr g'"
  shows "g' = g \<and> p \<noteq> c \<and> (\<exists>e\<in>set (entries (parents g) p). edge_child e = c \<and> edge_kind e = k) \<or>
    p \<noteq> c \<and> p \<in> set (object_ids g) \<and> c \<in> set (object_ids g) \<and> (c, p) \<notin> (edge_rel g)\<^sup>* \<and>
    (\<forall>e\<in>set (entries (parents g) p). \<not> (edge_child e = c \<and> edge_kind e = k)) \<and>
    g' = g\<lparr>parents := push_entry p \<lparr>edge_parent = p, edge_child = c, edge_kind = k\<rparr> (parents g),
           children := push_entry c \<lparr>edge_parent = p, edge_child = c, edge_kind = k\<rparr> (children g)\<rparr>"
  using assms by (auto simp: add_edge_def reaches_iff Let_def split: if_splits)

lemma graph_wf_add_edge:
  assumes wf: "graph_wf g" and add: "add_edge p c k g = Inr g'"
  shows "graph_wf g'"
proof (cases "g' = g")
  case True
  then show ?thesis using wf by simp
next
  case False
  let ?e = "\<lparr>edge_parent = p, edge_child = c, edge_kind = k\<rparr>"
  from add_edge_cases [OF add] False
  have ids: "p \<in> set (object_ids g)" "c \<in> set (object_ids g)" and ac: "(c, p) \<notin> (edge_rel g)\<^sup>*"
    and new: "?e \<notin> set (entries (parents g) p)"
    and g': "g' = g\<lparr>parents := push_entry p ?e (parents g), children := push_entry c ?e (children g)\<rparr>"
    by auto
  have wfi: "bt_wf (parents g)" "bt_wf (children g)" using wf by (auto simp: graph_wf_def index_wf_def)
  have new': "?e \<notin> set (entries (children g) c)"
    using wf new by (auto simp: graph_wf_def dest: spec [of _ ?e])
  have "acyclic (edge_rel g')"
    using wf ac unfolding g' edge_rel_add [OF wfi(1)] by (simp add: graph_wf_def acyclic_insert)
  moreover have "index_wf edge_parent (parents g')" "index_wf edge_child (children g')"
    using wf new new' by (auto simp: g' graph_wf_def intro!: index_wf_push)
  moreover have "fst ` set (parents g') \<subseteq> set (object_ids g')" "fst ` set (children g') \<subseteq> set (object_ids g')"
    using wf ids by (auto simp: g' graph_wf_def push_entry_def simp flip: image_set)
  moreover have "(e \<in> set (entries (parents g') (edge_parent e)) \<longleftrightarrow> e \<in> set (entries (children g') (edge_child e)))
      \<and> (e \<in> set (entries (parents g') (edge_parent e)) \<longrightarrow>
        edge_parent e \<in> set (object_ids g') \<and> edge_child e \<in> set (object_ids g'))" for e
  proof -
    have "e \<in> set (entries (parents g') (edge_parent e)) \<longleftrightarrow> e = ?e \<or> e \<in> set (entries (parents g) (edge_parent e))"
      "e \<in> set (entries (children g') (edge_child e)) \<longleftrightarrow> e = ?e \<or> e \<in> set (entries (children g) (edge_child e))"
      using wfi by (cases "e = ?e"; simp add: g' entries_push)+
    moreover have "object_ids g' = object_ids g" by (simp add: g')
    ultimately show ?thesis using wf ids unfolding graph_wf_def by (metis lineage_edge.select_convs(1,2))
  qed
  ultimately show ?thesis using wf by (auto simp: graph_wf_def g')
qed

lemma graph_wf_remove_edge:
  assumes "graph_wf g"
  shows "graph_wf (remove_edge p c k g)"
proof -
  have "edge_rel (remove_edge p c k g) \<subseteq> edge_rel g"
    by (auto simp: edge_rel_def remove_edge_def entries_retain split: if_splits)
  then have "acyclic (edge_rel (remove_edge p c k g))"
    using assms by (auto simp: graph_wf_def intro: acyclic_subset)
  moreover have "fst ` set (retain_entry a b m) = fst ` set m" for a b and m :: "(uuid \<times> lineage_edge list) list"
    using arg_cong [OF keys_retain [of a b m], of set] by simp
  ultimately show ?thesis using assms
    by (auto simp: graph_wf_def remove_edge_def index_wf_retain entries_retain)
qed

subsection \<open>Kahn's algorithm\<close>

lemma kahn_visit_spec:
  assumes "bt_wf d" and "\<forall>x\<in>V. map_of d x = Some (k x)" and "set cs \<subseteq> V"
    and "\<forall>x. count_list cs x \<le> k x" and "distinct q" and "\<forall>x\<in>set q. k x = 0"
  shows "\<exists>d' q'. kahn_visit cs d q = Some (d', q') \<and> bt_wf d' \<and>
    (\<forall>x\<in>V. map_of d' x = Some (k x - count_list cs x)) \<and> distinct q' \<and>
    set q' = set q \<union> {x\<in>set cs. k x = count_list cs x}"
  using assms
proof (induction cs arbitrary: d q k)
  case Nil
  then show ?case by simp
next
  case (Cons c cs)
  have kc: "0 < k c" using Cons.prems(4) [rule_format, of c] by simp
  then obtain n where n: "k c = Suc n" by (cases "k c") auto
  let ?k = "k(c := n)" and ?q = "if n = 0 then q @ [c] else q" and ?d = "bt_insert c n d"
  have d: "map_of d c = Some (Suc n)" using Cons.prems(2,3) n by simp
  have cq: "c \<notin> set q" using kc Cons.prems(6) by auto
  have cnt: "\<forall>x. count_list cs x \<le> ?k x"
  proof
    fix x
    show "count_list cs x \<le> ?k x" using Cons.prems(4) [rule_format, of x] n by (cases "x = c") auto
  qed
  have p: "bt_wf ?d" "\<forall>x\<in>V. map_of ?d x = Some (?k x)" "set cs \<subseteq> V"
    using Cons.prems(1-3) by simp_all
  have q: "distinct ?q" "\<forall>x\<in>set ?q. ?k x = 0"
    using Cons.prems(5,6) cq by auto
  note Cons.IH [OF p cnt q]
  then obtain d' q' where r: "kahn_visit cs ?d ?q = Some (d', q')" "bt_wf d'"
      "\<forall>x\<in>V. map_of d' x = Some (?k x - count_list cs x)" "distinct q'"
      "set q' = set ?q \<union> {x\<in>set cs. ?k x = count_list cs x}"
    by blast
  have "\<forall>x\<in>V. map_of d' x = Some (k x - count_list (c # cs) x)" using r(3) n by auto
  moreover have "set q' = set q \<union> {x\<in>set (c # cs). k x = count_list (c # cs) x}"
  proof (rule set_eqI)
    fix x
    show "x \<in> set q' \<longleftrightarrow> x \<in> set q \<union> {x\<in>set (c # cs). k x = count_list (c # cs) x}"
    proof (cases "x = c")
      case True
      have "count_list cs c \<le> n" using cnt [rule_format, of c] by simp
      then show ?thesis unfolding r(5) using True n cq count_list_0_iff [of cs c]
        by (cases "n = 0") auto
    next
      case False
      then show ?thesis unfolding r(5) by (cases "n = 0") simp_all
    qed
  qed
  moreover have "kahn_visit (c # cs) d q = Some (d', q')" using r(1) d by simp
  ultimately show ?case using r(2,4) by blast
qed

text \<open>The in-edges of a node whose parent has not been processed.\<close>

definition pending_in :: "lineage_edge list \<Rightarrow> uuid set \<Rightarrow> uuid \<Rightarrow> nat" where
  "pending_in E D x = length (filter (\<lambda>e. edge_child e = x \<and> edge_parent e \<notin> D) E)"

lemma pending_in_insert:
  assumes "n \<notin> D"
  shows "pending_in E D x =
    pending_in E (insert n D) x + length (filter (\<lambda>e. edge_child e = x \<and> edge_parent e = n) E)"
  using assms by (induction E) (auto simp: pending_in_def)

lemma pending_in_0: "pending_in E D x = 0 \<longleftrightarrow> (\<forall>e\<in>set E. edge_child e = x \<longrightarrow> edge_parent e \<in> D)"
  by (auto simp: pending_in_def filter_empty_conv)

lemma pending_in_anti: "D \<subseteq> D' \<Longrightarrow> pending_in E D' x \<le> pending_in E D x"
  unfolding pending_in_def by (induction E) auto

lemma count_list_map: "count_list (map f xs) x = length (filter (\<lambda>e. f e = x) xs)"
  by (induction xs) auto

definition edges_rel :: "lineage_edge list \<Rightarrow> (uuid \<times> uuid) set" where
  "edges_rel E = (\<lambda>e. (edge_parent e, edge_child e)) ` set E"

lemma acyclic_add_sink:
  assumes "acyclic (Restr R D)" and "\<forall>p. (p, n) \<in> R \<longrightarrow> p \<in> D" and "n \<notin> D"
    and "\<forall>x\<in>D. \<forall>p. (p, x) \<in> R \<longrightarrow> p \<in> D"
  shows "acyclic (Restr R (insert n D))"
proof (rule acyclicI, intro allI notI)
  fix x
  assume x: "(x, x) \<in> (Restr R (insert n D))\<^sup>+"
  have eq: "Restr R (insert n D) \<subseteq> Restr R D \<union> D \<times> {n}" using assms(2,4) assms(3) by auto
  have "b = n \<or> (a, b) \<in> (Restr R D)\<^sup>+" if "(a, b) \<in> (Restr R (insert n D))\<^sup>+" for a b
    using that
  proof (induction rule: trancl_induct)
    case (base y)
    then show ?case using eq by auto
  next
    case (step y z)
    then show ?case using eq assms(3) by (auto intro: trancl_into_trancl)
  qed
  moreover have "n \<notin> Domain (Restr R (insert n D))" using eq assms(3) by auto
  moreover from x have "x \<in> Domain (Restr R (insert n D))" by (metis DomainI tranclD)
  ultimately have "(x, x) \<in> (Restr R D)\<^sup>+" using x by auto
  then show False using assms(1) by (simp add: acyclic_def)
qed

lemma filter_key_entries:
  assumes "index_wf key m"
  shows "filter (\<lambda>e. key e = n) (all_entries m) = entries m n"
proof -
  have "bt_wf m" using assms by (simp add: index_wf_def)
  moreover have "key e = k" if "(k, es) \<in> set m" "e \<in> set es" for k es e
  proof -
    have "map_of m k = Some es" using that(1) \<open>bt_wf m\<close> by (simp add: bt_wf_def)
    then show ?thesis using assms that(2) by (auto simp: index_wf_def entries_def unwrap_or_def dest!: spec [of _ k])
  qed
  ultimately show ?thesis
  proof (induction m)
    case Nil
    then show ?case by (simp add: all_entries_def entries_def unwrap_or_def)
  next
    case (Cons a m)
    obtain k es where a: "a = (k, es)" by fastforce
    have here: "filter (\<lambda>e. key e = n) es = (if k = n then es else [])"
      using Cons.prems(2) [of k es] by (auto simp: a filter_empty_conv filter_id_conv)
    have rest: "filter (\<lambda>e. key e = n) (all_entries m) = entries m n"
    proof (rule Cons.IH)
      show "bt_wf m" using Cons.prems(1) by (simp add: bt_wf_Cons)
      show "key e = j" if "(j, fs) \<in> set m" "e \<in> set fs" for j fs e
        using Cons.prems(2) that by (meson list.set_intros(2))
    qed
    have "k = n \<Longrightarrow> entries m n = []"
      using Cons.prems(1) by (auto simp: a bt_wf_Cons entries_def unwrap_or_def
          split: option.splits dest!: map_of_SomeD)
    then show ?case using here rest
      by (auto simp: a all_entries_def entries_def unwrap_or_def)
  qed
qed

lemma next_of_down: "next_of (down g) n = map edge_child (entries (parents g) n)"
proof -
  have "map_of (map (\<lambda>(k, es). (k, map edge_child es)) m) n = map_option (map edge_child) (map_of m n)"
    for m :: "(uuid \<times> lineage_edge list) list"
    by (induction m) auto
  then show ?thesis
    by (auto simp: next_of_def down_def entries_def unwrap_or_def split: option.splits)
qed

lemma count_next_of:
  assumes "index_wf edge_parent (parents g)"
  shows "count_list (next_of (down g) n) x =
    length (filter (\<lambda>e. edge_child e = x \<and> edge_parent e = n) (all_entries (parents g)))"
  unfolding next_of_down count_list_map filter_key_entries [OF assms, symmetric]
  by (simp add: conj_commute)

definition kahn_inv :: "lineage_graph \<Rightarrow> uuid list \<Rightarrow> uuid list \<Rightarrow> bool" where
  "kahn_inv g D q \<longleftrightarrow>
     distinct (D @ q) \<and> set (D @ q) \<subseteq> set (object_ids g) \<and>
     (\<forall>x\<in>set (object_ids g). x \<in> set (D @ q) \<longleftrightarrow> pending_in (all_entries (parents g)) (set D) x = 0) \<and>
     acyclic (Restr (edges_rel (all_entries (parents g))) (set D))"

lemma kahn_inv_step:
  assumes wf: "index_wf edge_parent (parents g)" and inv: "kahn_inv g D (n # q)"
    and q': "set q' = set q \<union> {x \<in> set (next_of (down g) n).
        pending_in (all_entries (parents g)) (set D) x = count_list (next_of (down g) n) x}"
    and "distinct q'" and V: "set (next_of (down g) n) \<subseteq> set (object_ids g)"
  shows "kahn_inv g (D @ [n]) q'"
proof -
  let ?E = "all_entries (parents g)" and ?V = "set (object_ids g)" and ?cs = "next_of (down g) n"
  have nD: "n \<notin> set D" "n \<in> ?V" using inv by (auto simp: kahn_inv_def)
  have step: "pending_in ?E (set D) x = pending_in ?E (set (D @ [n])) x + count_list ?cs x" for x
    using pending_in_insert [OF nD(1)] count_next_of [OF wf] by simp
  have mem: "x \<in> set D \<or> x = n \<or> x \<in> set q \<longleftrightarrow> pending_in ?E (set D) x = 0" if "x \<in> ?V" for x
    using inv that by (auto simp: kahn_inv_def)
  have pos: "0 < pending_in ?E (set D) x" if "x \<in> set ?cs" for x
    using that step [of x] count_list_0_iff [of ?cs x] by linarith
  have new: "x \<notin> set D \<and> x \<noteq> n" if "x \<in> set ?cs" for x
    using pos [OF that] mem [of x] V that by auto
  have "distinct ((D @ [n]) @ q')"
    using inv assms(4) new by (auto simp: kahn_inv_def q')
  moreover have "set ((D @ [n]) @ q') \<subseteq> ?V"
    using inv q' V by (auto simp: kahn_inv_def)
  moreover have "x \<in> set ((D @ [n]) @ q') \<longleftrightarrow> pending_in ?E (set (D @ [n])) x = 0" if "x \<in> ?V" for x
    using mem [OF that] step [of x] count_list_0_iff [of ?cs x] by (auto simp: q')
  moreover have "acyclic (Restr (edges_rel ?E) (insert n (set D)))"
  proof (rule acyclic_add_sink [OF _ _ nD(1)])
    show "acyclic (Restr (edges_rel ?E) (set D))" using inv by (simp add: kahn_inv_def)
    show "\<forall>p. (p, n) \<in> edges_rel ?E \<longrightarrow> p \<in> set D"
      using mem [OF nD(2)] by (auto simp: pending_in_0 edges_rel_def)
    show "\<forall>x\<in>set D. \<forall>p. (p, x) \<in> edges_rel ?E \<longrightarrow> p \<in> set D"
    proof (intro ballI allI impI)
      fix x p
      assume x: "x \<in> set D" and p: "(p, x) \<in> edges_rel ?E"
      have "x \<in> ?V" using inv x by (auto simp: kahn_inv_def)
      then have "pending_in ?E (set D) x = 0" using mem x by blast
      then show "p \<in> set D" using p by (auto simp: pending_in_0 edges_rel_def)
    qed
  qed
  ultimately show ?thesis by (simp add: kahn_inv_def)
qed

lemma kahn_loop_spec:
  assumes "index_wf edge_parent (parents g)" and "edge_child ` set (all_entries (parents g)) \<subseteq> set (object_ids g)"
    and "bt_wf d" and "\<forall>x\<in>set (object_ids g). map_of d x = Some (pending_in (all_entries (parents g)) (set D) x)"
    and "kahn_inv g D q"
  shows "\<exists>D'. kahn_loop (down g) d q (length D) = Some (length D') \<and> kahn_inv g D' []"
  using assms(3-)
proof (induction "down g" d q "length D" arbitrary: D rule: kahn_loop.induct)
  case (1 d)
  then show ?case by auto
next
  case (2 d n q)
  let ?E = "all_entries (parents g)" and ?V = "set (object_ids g)" and ?cs = "next_of (down g) n"
  let ?k = "pending_in ?E (set D)"
  have nD: "n \<notin> set D" using "2.prems"(3) by (auto simp: kahn_inv_def)
  have step: "?k x = pending_in ?E (set (D @ [n])) x + count_list ?cs x" for x
    using pending_in_insert [OF nD] count_next_of [OF assms(1)] by simp
  have V: "set ?cs \<subseteq> ?V"
  proof -
    have "set (entries (parents g) n) \<subseteq> set ?E"
      using filter_key_entries [OF assms(1), of n] by (metis filter_is_subset)
    then show ?thesis using assms(2) by (auto simp: next_of_down)
  qed
  have q: "distinct q" "\<forall>x\<in>set q. ?k x = 0" using "2.prems"(3) by (auto simp: kahn_inv_def)
  obtain d' q' where v: "kahn_visit ?cs d q = Some (d', q')" and wf': "bt_wf d'"
      and d': "\<forall>x\<in>?V. map_of d' x = Some (?k x - count_list ?cs x)" and "distinct q'"
      and q': "set q' = set q \<union> {x\<in>set ?cs. ?k x = count_list ?cs x}"
    using kahn_visit_spec [OF "2.prems"(1,2) V _ q] step by fastforce
  have "kahn_inv g (D @ [n]) q'"
    by (rule kahn_inv_step [OF assms(1) "2.prems"(3) q' \<open>distinct q'\<close> V])
  moreover have "\<forall>x\<in>?V. map_of d' x = Some (pending_in ?E (set (D @ [n])) x)"
    using d' step by simp
  ultimately have "\<exists>D'. kahn_loop (down g) d' q' (length (D @ [n])) = Some (length D') \<and> kahn_inv g D' []"
    using "2.hyps" [of "(d', q')" d' q' "D @ [n]"] "2.prems"(1) v wf' by auto
  then show ?case using v "2.prems"(1) by simp
qed

lemma fold_indegree:
  fixes es :: "lineage_edge list"
  defines "F \<equiv> fold (\<lambda>e d. bt_insert (edge_child e) (unwrap_or (map_of d (edge_child e)) 0 + 1) d) es"
  assumes "bt_wf d"
  shows "bt_wf (F d)" and "fst ` set (F d) = fst ` set d \<union> edge_child ` set es"
    and "map_of d x = Some k \<Longrightarrow> map_of (F d) x = Some (k + length (filter (\<lambda>e. edge_child e = x) es))"
  using assms(2) unfolding F_def
  by (induction es arbitrary: d k) (auto simp: unwrap_or_def)

lemma fold_zero:
  assumes "bt_wf d"
  shows "bt_wf (fold (\<lambda>i d. bt_insert i (0::nat) d) xs d)"
    and "fst ` set (fold (\<lambda>i d. bt_insert i 0 d) xs d) = fst ` set d \<union> set xs"
    and "x \<in> set xs \<or> map_of d x = Some 0 \<Longrightarrow> map_of (fold (\<lambda>i d. bt_insert i 0 d) xs d) x = Some 0"
  using assms by (induction xs arbitrary: d) auto

lemma initial_indegree_spec:
  assumes "edge_child ` set (all_entries (parents g)) \<subseteq> set (object_ids g)"
  shows "bt_wf (initial_indegree g)" and "fst ` set (initial_indegree g) = set (object_ids g)"
    and "x \<in> set (object_ids g) \<Longrightarrow>
      map_of (initial_indegree g) x = Some (pending_in (all_entries (parents g)) {} x)"
proof -
  let ?z = "fold (\<lambda>i d. bt_insert i (0::nat) d) (object_ids g) []"
  have z: "bt_wf ?z" "fst ` set ?z = set (object_ids g)"
    using fold_zero [of "[]" "object_ids g"] by simp_all
  show "bt_wf (initial_indegree g)" "fst ` set (initial_indegree g) = set (object_ids g)"
    using fold_indegree(1,2) [OF z(1), of "all_entries (parents g)"] z(2) assms
    by (auto simp: initial_indegree_def)
  assume "x \<in> set (object_ids g)"
  then have "map_of ?z x = Some 0" using fold_zero(3) [of "[]" x "object_ids g"] by simp
  from fold_indegree(3) [OF z(1) this, of "all_entries (parents g)"]
  show "map_of (initial_indegree g) x = Some (pending_in (all_entries (parents g)) {} x)"
    by (simp add: initial_indegree_def pending_in_def)
qed

lemma kahn_inv_initial:
  assumes "edge_child ` set (all_entries (parents g)) \<subseteq> set (object_ids g)"
  shows "kahn_inv g [] (map fst (filter (\<lambda>e. snd e = 0) (initial_indegree g)))"
proof -
  let ?d = "initial_indegree g"
  note d = initial_indegree_spec [OF assms]
  have dist: "distinct (map fst ?d)" using d(1) by (simp add: bt_wf_def)
  have "x \<in> fst ` {e \<in> set ?d. snd e = 0} \<longleftrightarrow> pending_in (all_entries (parents g)) {} x = 0"
    if "x \<in> set (object_ids g)" for x
  proof -
    have "x \<in> fst ` {e \<in> set ?d. snd e = 0} \<longleftrightarrow> (x, 0) \<in> set ?d" by force
    also have "\<dots> \<longleftrightarrow> map_of ?d x = Some 0" using map_of_eq_Some_iff [OF dist] by simp
    finally show ?thesis using d(3) [OF that] by simp
  qed
  then show ?thesis using d(2) dist
    by (auto simp: kahn_inv_def distinct_keys_filter acyclic_def)
qed

lemma kahn_complete:
  assumes inv: "kahn_inv g D []" and sub: "edges_rel (all_entries (parents g)) \<subseteq> set (object_ids g) \<times> set (object_ids g)"
    and dist: "distinct (object_ids g)"
  shows "length D = length (object_ids g) \<longleftrightarrow> acyclic (edges_rel (all_entries (parents g)))"
proof
  let ?R = "edges_rel (all_entries (parents g))" and ?V = "set (object_ids g)"
  have D: "distinct D" "set D \<subseteq> ?V" using inv by (auto simp: kahn_inv_def)
  assume "length D = length (object_ids g)"
  then have "card (set D) = card ?V" using D(1) dist by (simp add: distinct_card)
  then have "set D = ?V" using D(2) by (simp add: card_subset_eq)
  then have "Restr ?R (set D) = ?R" using sub by auto
  then show "acyclic ?R" using inv by (simp add: kahn_inv_def)
next
  let ?R = "edges_rel (all_entries (parents g))" and ?V = "set (object_ids g)"
  assume "acyclic ?R"
  then have wf: "wf ?R" by (intro finite_acyclic_wf) (simp add: edges_rel_def)
  have D: "distinct D" "set D \<subseteq> ?V" using inv by (auto simp: kahn_inv_def)
  have "x \<notin> ?V - set D" for x
    using wf
  proof (induction x rule: wf_induct_rule)
    case (less x)
    show ?case
    proof
      assume x: "x \<in> ?V - set D"
      then have "pending_in (all_entries (parents g)) (set D) x \<noteq> 0" using inv by (auto simp: kahn_inv_def)
      then obtain p where p: "(p, x) \<in> ?R" "p \<notin> set D"
        by (auto simp: pending_in_0 edges_rel_def)
      then show False using less [OF p(1)] sub by auto
    qed
  qed
  then have "set D = ?V" using D(2) by auto
  then show "length D = length (object_ids g)" using D(1) dist by (metis distinct_card)
qed

lemma kahn_iff:
  assumes "index_wf edge_parent (parents g)" and "distinct (object_ids g)"
    and sub: "edges_rel (all_entries (parents g)) \<subseteq> set (object_ids g) \<times> set (object_ids g)"
  shows "\<exists>v. kahn g = Some v \<and> (v = length (object_ids g) \<longleftrightarrow> acyclic (edges_rel (all_entries (parents g))))"
proof -
  have ch: "edge_child ` set (all_entries (parents g)) \<subseteq> set (object_ids g)"
    using sub by (auto simp: edges_rel_def)
  have "\<forall>x\<in>set (object_ids g). map_of (initial_indegree g) x
      = Some (pending_in (all_entries (parents g)) (set []) x)"
    using initial_indegree_spec(3) [OF ch] by simp
  from kahn_loop_spec [OF assms(1) ch initial_indegree_spec(1) [OF ch] this kahn_inv_initial [OF ch]]
  obtain D where "kahn g = Some (length D)" "kahn_inv g D []"
    by (auto simp: kahn_def Let_def)
  then show ?thesis using kahn_complete [OF _ sub assms(2)] by auto
qed

subsection \<open>Validation\<close>

definition indexes_agree :: "lineage_graph \<Rightarrow> bool" where
  "indexes_agree g \<longleftrightarrow>
     orphans g = [] \<and>
     (\<forall>(k, es)\<in>set (parents g). \<forall>e\<in>set es. edge_parent e = k) \<and>
     (\<forall>(k, es)\<in>set (children g). \<forall>e\<in>set es. edge_child e = k) \<and>
     distinct (all_entries (parents g)) \<and> distinct (all_entries (children g)) \<and>
     set (all_entries (parents g)) = set (all_entries (children g))"

text \<open>What the hash maps and the hash set of the source guarantee: keys occur once.\<close>

definition maps_wf :: "lineage_graph \<Rightarrow> bool" where
  "maps_wf g \<longleftrightarrow> bt_wf (parents g) \<and> bt_wf (children g) \<and> distinct (object_ids g)"

lemma index_edges_Inr:
  "index_edges key mis tw m = Inr s \<longleftrightarrow>
     (\<forall>(k, es)\<in>set m. \<forall>e\<in>set es. key e = k) \<and> distinct (all_entries m) \<and> s = set (all_entries m)"
  by (auto simp: index_edges_def bindr_Inr_iff for_each_Inr_iff card_distinct distinct_card)

lemma entries_mem: "bt_wf m \<Longrightarrow> e \<in> set (entries m k) \<longleftrightarrow> (\<exists>es. (k, es) \<in> set m \<and> e \<in> set es)"
  by (auto simp: entries_def unwrap_or_def bt_wf_def split: option.splits
      dest: map_of_SomeD map_of_is_SomeI)

lemma distinct_concat_elem: "distinct (concat xss) \<Longrightarrow> xs \<in> set xss \<Longrightarrow> distinct xs"
  by (induction xss) auto

lemma index_wf_checked:
  assumes "bt_wf m" and "\<forall>(k, es)\<in>set m. \<forall>e\<in>set es. key e = k" and "distinct (all_entries m)"
  shows "index_wf key m"
proof -
  have "distinct (entries m k)" for k
  proof (cases "map_of m k")
    case (Some es)
    then have "es \<in> set (map snd m)" by (metis image_set map_of_SomeD rev_image_eqI snd_conv)
    then show ?thesis using distinct_concat_elem [OF assms(3) [unfolded all_entries_def]] Some
      by (simp add: entries_def unwrap_or_def)
  qed (simp add: entries_def unwrap_or_def)
  then show ?thesis using assms by (fastforce simp: index_wf_def entries_mem)
qed

lemma distinct_all_entries:
  assumes "index_wf key m"
  shows "distinct (all_entries m)"
proof -
  have keys: "\<forall>(k, es)\<in>set m. distinct es \<and> (\<forall>e\<in>set es. key e = k)" and "bt_wf m"
  proof -
    show wf: "bt_wf m" using assms by (simp add: index_wf_def)
    have "entries m k = es" if "(k, es) \<in> set m" for k es
      using that wf by (simp add: entries_def unwrap_or_def bt_wf_def)
    then show "\<forall>(k, es)\<in>set m. distinct es \<and> (\<forall>e\<in>set es. key e = k)"
      using assms by (fastforce simp: index_wf_def)
  qed
  then show ?thesis
  proof (induction m)
    case (Cons a m)
    then have "distinct (all_entries m)" by (simp add: bt_wf_Cons)
    moreover have "set (snd a) \<inter> set (all_entries m) = {}"
      using Cons.prems by (fastforce simp: all_entries_def bt_wf_Cons)
    ultimately show ?case using Cons.prems by (auto simp: all_entries_def)
  qed (simp add: all_entries_def)
qed

lemma edge_rel_edges:
  assumes "index_wf edge_parent (parents g)"
  shows "edge_rel g = edges_rel (all_entries (parents g))"
  unfolding edge_rel_def edges_rel_def filter_key_entries [OF assms, symmetric] by auto

lemma orphans_empty:
  "orphans g = [] \<longleftrightarrow>
     fst ` set (parents g) \<union> edge_child ` set (all_entries (parents g)) \<subseteq> set (object_ids g) \<and>
     fst ` set (children g) \<union> edge_parent ` set (all_entries (children g)) \<subseteq> set (object_ids g)"
proof -
  have "orphans g = [] \<longleftrightarrow> set (orphans g) = {}" by simp
  also have "\<dots> \<longleftrightarrow> (\<forall>i\<in>fst ` set (parents g) \<union> edge_child ` set (all_entries (parents g))
      \<union> (fst ` set (children g) \<union> edge_parent ` set (all_entries (children g))). i \<in> set (object_ids g))"
    unfolding orphans_def by auto
  finally show ?thesis by blast
qed

lemma check_indexes_Inr:
  "check_indexes g = Inr () \<longleftrightarrow>
     (\<forall>(k, es)\<in>set (parents g). \<forall>e\<in>set es. edge_parent e = k) \<and>
     (\<forall>(k, es)\<in>set (children g). \<forall>e\<in>set es. edge_child e = k) \<and>
     distinct (all_entries (parents g)) \<and> distinct (all_entries (children g)) \<and>
     set (all_entries (parents g)) = set (all_entries (children g))"
  by (auto simp: check_indexes_def bindr_Inr_iff parent_edges_def child_edges_def index_edges_Inr)

lemma validate_graph_unfold:
  "validate_graph g = Some (Inr ()) \<longleftrightarrow> indexes_agree g \<and> kahn g = Some (length (object_ids g))"
proof -
  have "indexes_agree g \<longleftrightarrow> orphans g = [] \<and> check_indexes g = Inr ()"
    by (simp add: indexes_agree_def check_indexes_Inr)
  then show ?thesis
    by (auto simp: validate_graph_def split: sum.splits option.splits if_splits)
qed

lemma agree_index:
  assumes "maps_wf g" and "indexes_agree g"
  shows "index_wf edge_parent (parents g)"
    and "edges_rel (all_entries (parents g)) \<subseteq> set (object_ids g) \<times> set (object_ids g)"
  using assms
  by (auto simp: indexes_agree_def maps_wf_def orphans_empty edges_rel_def intro!: index_wf_checked)

lemma validate_graph_iff:
  assumes "maps_wf g"
  shows "validate_graph g = Some (Inr ()) \<longleftrightarrow> indexes_agree g \<and> acyclic (edge_rel g)"
proof (cases "indexes_agree g")
  case True
  note wf = agree_index [OF assms True]
  have "distinct (object_ids g)" using assms by (simp add: maps_wf_def)
  from kahn_iff [OF wf(1) this wf(2)] show ?thesis
    using True by (auto simp: validate_graph_unfold edge_rel_edges [OF wf(1)])
qed (simp add: validate_graph_unfold)

lemma validate_graph_no_panic:
  assumes "maps_wf g"
  shows "\<exists>r. validate_graph g = Some r"
proof (cases "indexes_agree g")
  case True
  note wf = agree_index [OF assms True]
  have "distinct (object_ids g)" using assms by (simp add: maps_wf_def)
  from kahn_iff [OF wf(1) this wf(2)] show ?thesis
    by (auto simp: validate_graph_def split: sum.splits)
next
  case False
  then have "orphans g \<noteq> [] \<or> check_indexes g \<noteq> Inr ()"
    by (auto simp: indexes_agree_def check_indexes_Inr)
  then show ?thesis by (auto simp: validate_graph_def split: sum.splits)
qed

lemma graph_wf_agree:
  assumes "graph_wf g"
  shows "maps_wf g" and "indexes_agree g"
proof -
  have p: "index_wf edge_parent (parents g)" and c: "index_wf edge_child (children g)"
    using assms by (simp_all add: graph_wf_def)
  then have wf: "bt_wf (parents g)" "bt_wf (children g)" by (simp_all add: index_wf_def)
  show "maps_wf g" using assms wf by (simp add: maps_wf_def graph_wf_def)
  have mem: "e \<in> set (all_entries (parents g)) \<longleftrightarrow> e \<in> set (entries (parents g) (edge_parent e))"
    "e \<in> set (all_entries (children g)) \<longleftrightarrow> e \<in> set (entries (children g) (edge_child e))" for e
    unfolding filter_key_entries [OF p, symmetric] filter_key_entries [OF c, symmetric] by simp_all
  have "orphans g = []"
    using assms mem unfolding orphans_empty graph_wf_def by blast
  moreover have "\<forall>(k, es)\<in>set (parents g). \<forall>e\<in>set es. edge_parent e = k"
    "\<forall>(k, es)\<in>set (children g). \<forall>e\<in>set es. edge_child e = k"
    using p c entries_mem [OF wf(1)] entries_mem [OF wf(2)] by (auto simp: index_wf_def) blast+
  moreover have "set (all_entries (parents g)) = set (all_entries (children g))"
    using mem assms by (auto simp: graph_wf_def)
  ultimately show "indexes_agree g"
    using distinct_all_entries [OF p] distinct_all_entries [OF c] by (simp add: indexes_agree_def)
qed

subsection \<open>What the graph guarantees\<close>

inductive graph_step :: "lineage_graph \<Rightarrow> lineage_graph \<Rightarrow> bool" where
  object_added: "graph_step g (add_object i g)"
| edge_added: "add_edge p c k g = Inr g' \<Longrightarrow> graph_step g g'"
| edge_removed: "graph_step g (remove_edge p c k g)"

inductive_simps graph_step_iff: "graph_step g g'"

lemma graph_step_wf: "graph_step g g' \<Longrightarrow> graph_wf g \<Longrightarrow> graph_wf g'"
  by (auto simp: graph_step_iff intro: graph_wf_add_object graph_wf_add_edge graph_wf_remove_edge)

lemma reachable_graph_wf: "graph_step\<^sup>*\<^sup>* empty_graph g \<Longrightarrow> graph_wf g"
  by (induction rule: rtranclp_induct) (auto simp: graph_wf_empty intro: graph_step_wf)

text \<open>
  C10: every graph built by adding objects and edges and by removing edges is acyclic, its two
  indexes agree, and the validation that runs after a restart accepts it.
\<close>

theorem lineage_stays_acyclic:
  assumes "graph_step\<^sup>*\<^sup>* empty_graph g"
  shows "acyclic (edge_rel g) \<and> indexes_agree g \<and> validate_graph g = Some (Inr ())"
proof -
  note wf = reachable_graph_wf [OF assms]
  have "acyclic (edge_rel g)" using wf by (simp add: graph_wf_def)
  then show ?thesis
    using graph_wf_agree [OF wf] validate_graph_iff [OF graph_wf_agree(1) [OF wf]] by simp
qed

definition sample_graph :: lineage_graph where
  "sample_graph = \<lparr>parents = [(1, [\<lparr>edge_parent = 1, edge_child = 2, edge_kind = DependsOn\<rparr>])],
     children = [(2, [\<lparr>edge_parent = 1, edge_child = 2, edge_kind = DependsOn\<rparr>])],
     object_ids = [2, 1]\<rparr>"

lemma sample_graph_add:
  "add_edge 1 2 DependsOn (add_object 2 (add_object 1 empty_graph)) = Inr sample_graph"
  by code_simp

lemma sample_graph_reachable: "graph_step\<^sup>*\<^sup>* empty_graph sample_graph"
proof -
  have "graph_step empty_graph (add_object 1 empty_graph)" by (rule object_added)
  moreover have "graph_step \<dots> (add_object 2 \<dots>)" by (rule object_added)
  moreover have "graph_step \<dots> sample_graph" by (rule edge_added [OF sample_graph_add])
  ultimately show ?thesis by (meson converse_rtranclp_into_rtranclp rtranclp.rtrancl_refl)
qed

theorem lineage_stays_acyclic_witness:
  "acyclic (edge_rel sample_graph) \<and> validate_graph sample_graph = Some (Inr ())"
  using lineage_stays_acyclic [OF sample_graph_reachable] by simp

text \<open>
  C11: after a restart the validation of a restored graph never panics, and it accepts exactly the graphs
  without orphans whose parent and child indexes hold the same edges, each once and under
  its own key, and whose edges form no cycle.
\<close>

theorem validate_accepts_iff:
  assumes "maps_wf g"
  shows "(\<exists>r. validate_graph g = Some r) \<and>
    (validate_graph g = Some (Inr ()) \<longleftrightarrow> indexes_agree g \<and> acyclic (edge_rel g))"
  using validate_graph_no_panic [OF assms] validate_graph_iff [OF assms] by simp

theorem validate_accepts_iff_witness:
  "maps_wf sample_graph \<and>
   (validate_graph sample_graph = Some (Inr ()) \<longleftrightarrow>
      indexes_agree sample_graph \<and> acyclic (edge_rel sample_graph))"
proof -
  have "maps_wf sample_graph" using graph_wf_agree(1) [OF reachable_graph_wf [OF sample_graph_reachable]] .
  then show ?thesis using validate_accepts_iff by blast
qed

text \<open>
  C9: an object may be reclaimed exactly when every other object at the end of a path of
  \<open>DEPENDS_ON\<close> edges from it is already reclaimed or can be rebuilt; otherwise the answer is a
  dependency violation. Other kinds of edges never block and never hide such a path.
\<close>

theorem dependency_safe_iff:
  "(dependency_safe g candidate reconstructible dead = Inr () \<longleftrightarrow>
     (\<forall>x. (candidate, x) \<in> (depends_rel g)\<^sup>+ \<longrightarrow>
        x = candidate \<or> x \<in> set dead \<or> reconstructible x)) \<and>
   (dependency_safe g candidate reconstructible dead = Inr () \<or>
     (\<exists>m. dependency_safe g candidate reconstructible dead = Inl (DependencyViolation m)))"
proof -
  have "dependency_safe g candidate reconstructible dead = Inr () \<or>
     (\<exists>m. dependency_safe g candidate reconstructible dead = Inl (DependencyViolation m))"
    using dep_loop_error [of reconstructible dead candidate g "[candidate]" "[candidate]"]
    by (cases "dependency_safe g candidate reconstructible dead") (auto simp: dependency_safe_def)
  then show ?thesis using dependency_safe_Inr_iff [of g candidate reconstructible dead] by blast
qed

theorem dependency_safe_iff_witness:
  "dependency_safe sample_graph 1 (\<lambda>_. False) [2] = Inr () \<and>
   (\<exists>m. dependency_safe sample_graph 1 (\<lambda>_. False) [] = Inl (DependencyViolation m))"
proof -
  have "dependency_safe sample_graph 1 (\<lambda>_. False) [2] = Inr ()"
    "dependency_safe sample_graph 1 (\<lambda>_. False) [] \<noteq> Inr ()"
    by code_simp+
  then show ?thesis using dependency_safe_iff [of sample_graph 1 "\<lambda>_. False"] by blast
qed

text \<open>
  Breadth-first reachability is the reflexive transitive closure of the edges, and the
  descendants of an object are exactly the objects its edges lead to in one or more steps.
\<close>

theorem searches_are_closures:
  "(reaches g a b \<longleftrightarrow> (a, b) \<in> (edge_rel g)\<^sup>*) \<and>
   set (descendants g a) = {b. (a, b) \<in> (edge_rel g)\<^sup>+}"
  by (simp add: reaches_iff descendants_set)

end
