(* ===== verification/Rows.thy ===== *)
theory Rows
  imports Dedup Lineage
begin

section \<open>Columns and rows of the store (src/persistence.rs)\<close>

text \<open>
  How the store writes a record into the columns of a table and reads it back. A column is
  text, a 64-bit INTEGER, a REAL or NULL: \<open>sql_u64\<close> is the guard on the way in, the
  \<open>decode_\<close> functions are the guards on the way out. The canonical text of a UUID
  (crate \<open>uuid\<close>) and the text of a JSON value (crate \<open>serde_json\<close>) are parameters.
  The main results: every record that passes the guards is read back unchanged, so theory
  Store may keep the records themselves in its tables, and a value outside the range of a
  column is refused and never stored truncated.
\<close>

subsection \<open>Errors of the database\<close>

datatype sqlite_error = InvalidParameterName msg | ConstraintFailed string | DatabaseFull

fun sqlite_text :: "sqlite_error \<Rightarrow> msg" where
  "sqlite_text (InvalidParameterName m) = Lit ''Invalid parameter name: '' # m"
| "sqlite_text (ConstraintFailed s) = [Lit ''UNIQUE constraint failed: '', Str s]"
| "sqlite_text DatabaseFull = [Lit ''database or disk is full'']"

definition map_sqlite :: "sqlite_error \<Rightarrow> error" where
  "map_sqlite e = Persistence (sqlite_text e)"

subsection \<open>Integers\<close>

definition MAX_QUERY_LIMIT :: nat where "MAX_QUERY_LIMIT = 100000"

definition sql_u64 :: "string \<Rightarrow> nat \<Rightarrow> int result" where
  "sql_u64 field v =
     (if v \<le> I64_MAX then Inr (int v)
      else Inl (InvalidArgument [Str field, Lit '' value '', Num (int v),
        Lit '' exceeds SQLite INTEGER range'']))"

definition sql_optional_u64 :: "string \<Rightarrow> nat option \<Rightarrow> int option result" where
  "sql_optional_u64 field v =
     (case v of None \<Rightarrow> Inr None | Some n \<Rightarrow> bindr (sql_u64 field n) (\<lambda>i. Inr (Some i)))"

definition sql_limit :: "nat \<Rightarrow> int result" where
  "sql_limit limit =
     (if limit > MAX_QUERY_LIMIT
      then Inl (InvalidArgument [Lit ''query limit '', Num (int limit), Lit '' exceeds maximum '',
        Num (int MAX_QUERY_LIMIT)])
      else sql_u64 ''query limit'' limit)"

definition decode_u64 :: "int \<Rightarrow> string \<Rightarrow> sqlite_error + nat" where
  "decode_u64 v field =
     (if 0 \<le> v then Inr (nat v)
      else Inl (InvalidParameterName [Lit ''corrupt '', Str field,
        Lit '': expected non-negative INTEGER, got '', Num v]))"

definition decode_optional_u64 :: "int option \<Rightarrow> string \<Rightarrow> sqlite_error + nat option" where
  "decode_optional_u64 v field =
     (case v of None \<Rightarrow> Inr None | Some i \<Rightarrow> bindr (decode_u64 i field) (\<lambda>n. Inr (Some n)))"

definition decode_u32 :: "int \<Rightarrow> string \<Rightarrow> sqlite_error + nat" where
  "decode_u32 v field =
     (if 0 \<le> v \<and> v \<le> int U32_MAX then Inr (nat v)
      else Inl (InvalidParameterName [Lit ''corrupt '', Str field,
        Lit '': expected an unsigned 32-bit INTEGER, got '', Num v]))"

definition decode_bool :: "int \<Rightarrow> string \<Rightarrow> sqlite_error + bool" where
  "decode_bool v field =
     (if v = 0 then Inr False else if v = 1 then Inr True
      else Inl (InvalidParameterName [Lit ''corrupt '', Str field,
        Lit '': expected 0 or 1, got '', Num v]))"

subsection \<open>Text columns\<close>

text \<open>
  The text forms of the two libraries: printing and parsing of a UUID, of a JSON value and of
  the ordered map of an object's metadata.
\<close>

record text_forms =
  uuid_str :: "uuid \<Rightarrow> string"
  parse_uuid :: "string \<Rightarrow> string + uuid"
  json_str :: "json \<Rightarrow> string"
  parse_json :: "string \<Rightarrow> string + json"
  meta_str :: "(string \<times> json) list \<Rightarrow> string"
  parse_meta :: "string \<Rightarrow> string + (string \<times> json) list"

definition decode_uuid :: "text_forms \<Rightarrow> string \<Rightarrow> string \<Rightarrow> sqlite_error + uuid" where
  "decode_uuid tf v field =
     bindr (map_err (\<lambda>e. InvalidParameterName [Lit ''corrupt '', Str field, Lit '': '', Str e])
       (parse_uuid tf v)) (\<lambda>parsed.
     if uuid_str tf parsed \<noteq> v
     then Inl (InvalidParameterName [Lit ''corrupt '', Str field, Lit '': UUID is not in canonical form''])
     else Inr parsed)"

definition decode_optional_uuid ::
  "text_forms \<Rightarrow> string option \<Rightarrow> string \<Rightarrow> sqlite_error + uuid option" where
  "decode_optional_uuid tf v field =
     (case v of None \<Rightarrow> Inr None | Some s \<Rightarrow> bindr (decode_uuid tf s field) (\<lambda>u. Inr (Some u)))"

definition decode_hash :: "string \<Rightarrow> string \<Rightarrow> sqlite_error + content_hash" where
  "decode_hash v field =
     bindr (map_err (\<lambda>e. InvalidParameterName ([Lit ''corrupt '', Str field, Lit '': ''] @ display e))
       (from_hex v)) (\<lambda>parsed.
     if hash_str parsed \<noteq> v
     then Inl (InvalidParameterName [Lit ''corrupt '', Str field,
       Lit '': content hash is not canonical lowercase hex''])
     else Inr parsed)"

fun dura_str :: "durability_class \<Rightarrow> string" where
  "dura_str DurEphemeral = ''EPHEMERAL''"
| "dura_str DurRecomputable = ''RECOMPUTABLE''"
| "dura_str DurDurable = ''DURABLE''"
| "dura_str DurCritical = ''CRITICAL''"

fun surv_str :: "survivability_class \<Rightarrow> string" where
  "surv_str SurEphemeral = ''EPHEMERAL''"
| "surv_str SurRecomputable = ''RECOMPUTABLE''"
| "surv_str SurDurable = ''DURABLE''"
| "surv_str SurCritical = ''CRITICAL''"

definition decode_durability :: "string \<Rightarrow> sqlite_error + durability_class" where
  "decode_durability s =
     (if s = ''EPHEMERAL'' then Inr DurEphemeral
      else if s = ''RECOMPUTABLE'' then Inr DurRecomputable
      else if s = ''DURABLE'' then Inr DurDurable
      else if s = ''CRITICAL'' then Inr DurCritical
      else Inl (InvalidParameterName [Lit ''bad durability '', Str s]))"

definition decode_survivability :: "string \<Rightarrow> sqlite_error + survivability_class" where
  "decode_survivability s =
     (if s = ''EPHEMERAL'' then Inr SurEphemeral
      else if s = ''RECOMPUTABLE'' then Inr SurRecomputable
      else if s = ''DURABLE'' then Inr SurDurable
      else if s = ''CRITICAL'' then Inr SurCritical
      else Inl (InvalidParameterName [Lit ''bad survivability '', Str s]))"

definition decode_kind :: "string \<Rightarrow> sqlite_error + physical_kind" where
  "decode_kind s =
     (if s = ''HOT'' then Inr HotKind
      else if s = ''DURABLE'' then Inr DurableKind
      else if s = ''ARCHIVED'' then Inr ArchivedKind
      else Inl (InvalidParameterName [Lit ''bad kind '', Str s]))"

definition decode_edge_kind :: "string \<Rightarrow> sqlite_error + edge_kind" where
  "decode_edge_kind k =
     (if k = ''DERIVES_FROM'' then Inr DerivesFrom
      else if k = ''DEPENDS_ON'' then Inr DependsOn
      else if k = ''SUPERSEDES'' then Inr Supersedes
      else if k = ''DUPLICATES'' then Inr Duplicates
      else Inl (InvalidParameterName [Lit ''bad edge kind '', Str k]))"

subsection \<open>The records of the store\<close>

datatype journal_phase =
  Reserved | Validated | PhysicalStarted | PhysicalDone | Committed | RolledBack | JFailed

fun phase_str :: "journal_phase \<Rightarrow> string" where
  "phase_str Reserved = ''RESERVED''"
| "phase_str Validated = ''VALIDATED''"
| "phase_str PhysicalStarted = ''PHYSICAL_STARTED''"
| "phase_str PhysicalDone = ''PHYSICAL_DONE''"
| "phase_str Committed = ''COMMITTED''"
| "phase_str RolledBack = ''ROLLED_BACK''"
| "phase_str JFailed = ''FAILED''"

record journal_entry =
  j_attempt_id :: uuid
  j_object_id :: uuid
  j_generation :: nat
  j_phase :: journal_phase
  j_created_at_ms :: int
  j_updated_at_ms :: int
  j_payload :: json

datatype attempt_status = AOpen | ACommitted | AFailed | ARolledBack

fun attempt_status_str :: "attempt_status \<Rightarrow> string" where
  "attempt_status_str AOpen = ''OPEN''"
| "attempt_status_str ACommitted = ''COMMITTED''"
| "attempt_status_str AFailed = ''FAILED''"
| "attempt_status_str ARolledBack = ''ROLLED_BACK''"

record attempt =
  a_attempt_id :: uuid
  a_object_id :: uuid
  a_generation :: nat
  a_node :: string
  a_created_at_ms :: int
  a_updated_at_ms :: int
  a_status :: attempt_status

record reservation =
  reservation_id :: uuid
  r_attempt_id :: uuid
  r_object_id :: uuid
  r_generation :: nat
  r_node :: string
  r_created_at_ms :: int
  expires_at_ms :: int
  r_status :: string

record audit_entry =
  au_id :: int
  au_ts_ms :: int
  actor :: string
  action :: string
  au_object_id :: "uuid option"
  au_generation :: "nat option"
  prior_state :: "string option"
  new_state :: "string option"
  au_policy :: "string option"
  au_attempt_id :: "uuid option"
  au_node :: "string option"
  detail :: json

record failure_record =
  f_id :: int
  f_ts_ms :: int
  f_object_id :: "uuid option"
  f_attempt_id :: "uuid option"
  f_kind :: string
  f_message :: msg
  recovered :: bool

record coordinator_state =
  epoch :: nat
  process_id :: string
  boot_id :: uuid
  last_seen_ms :: int

record archive_record =
  archive_id :: string
  ar_object_id :: uuid
  ar_generation :: nat
  ar_backend :: string
  ar_key :: string
  ar_size :: nat
  ar_content_hash :: content_hash
  ar_created_at_ms :: int

definition decode_phase :: "string \<Rightarrow> sqlite_error + journal_phase" where
  "decode_phase s =
     (if s = ''RESERVED'' then Inr Reserved
      else if s = ''VALIDATED'' then Inr Validated
      else if s = ''PHYSICAL_STARTED'' then Inr PhysicalStarted
      else if s = ''PHYSICAL_DONE'' then Inr PhysicalDone
      else if s = ''COMMITTED'' then Inr Committed
      else if s = ''ROLLED_BACK'' then Inr RolledBack
      else if s = ''FAILED'' then Inr JFailed
      else Inl (InvalidParameterName [Lit ''bad phase '', Str s]))"

subsection \<open>Objects\<close>

record object_row =
  c_id :: string
  c_generation :: int
  c_class :: string
  c_logical_size :: int
  c_physical_size :: int
  c_compressed_size :: "int option"
  c_created_at_ms :: int
  c_last_access_ms :: int
  c_access_count :: int
  c_reuse_probability :: f64
  c_reuse_horizon_secs :: "int option"
  c_recompute_cost :: "f64 option"
  c_recompute_latency_secs :: "f64 option"
  c_transfer_cost :: "f64 option"
  c_migration_cost :: "f64 option"
  c_storage_cost :: f64
  c_memory_cost :: f64
  c_replication_count :: int
  c_durability :: string
  c_survivability :: string
  c_owner :: string
  c_content_hash :: "string option"
  c_lifecycle_state :: string
  c_policy_version :: string
  c_decision_epoch :: int
  c_pinned :: int
  c_protected :: int
  c_min_retention :: "int option"
  c_max_retention :: "int option"
  c_app_metadata :: string

text \<open>The integer columns in the order the statement binds them.\<close>

definition object_ints :: "reclaim_object \<Rightarrow> unit result" where
  "object_ints obj =
     bindr (sql_u64 ''object generation'' (generation obj)) (\<lambda>_.
     bindr (sql_u64 ''object logical_size'' (logical_size obj)) (\<lambda>_.
     bindr (sql_u64 ''object physical_size'' (physical_size obj)) (\<lambda>_.
     bindr (sql_optional_u64 ''object compressed_size'' (compressed_size obj)) (\<lambda>_.
     bindr (sql_u64 ''object access_count'' (access_count obj)) (\<lambda>_.
     bindr (sql_optional_u64 ''object reuse_horizon_secs'' (reuse_horizon_secs obj)) (\<lambda>_.
     bindr (sql_u64 ''object decision_epoch'' (decision_epoch obj)) (\<lambda>_. Inr ())))))))"

definition object_columns :: "text_forms \<Rightarrow> reclaim_object \<Rightarrow> object_row" where
  "object_columns tf obj = \<lparr>
     c_id = uuid_str tf (id obj), c_generation = int (generation obj), c_class = obj_class obj,
     c_logical_size = int (logical_size obj), c_physical_size = int (physical_size obj),
     c_compressed_size = map_option int (compressed_size obj),
     c_created_at_ms = created_at_ms obj, c_last_access_ms = last_access_ms obj,
     c_access_count = int (access_count obj), c_reuse_probability = reuse_probability obj,
     c_reuse_horizon_secs = map_option int (reuse_horizon_secs obj),
     c_recompute_cost = recompute_cost obj, c_recompute_latency_secs = recompute_latency_secs obj,
     c_transfer_cost = transfer_cost obj, c_migration_cost = migration_cost obj,
     c_storage_cost = storage_cost_per_byte_sec obj, c_memory_cost = memory_cost_per_byte_sec obj,
     c_replication_count = int (replication_count obj), c_durability = dura_str (obj_durability obj),
     c_survivability = surv_str (obj_survivability obj), c_owner = owner obj,
     c_content_hash = map_option hash_str (obj_content_hash obj),
     c_lifecycle_state = state_str (obj_state obj), c_policy_version = policy_version obj,
     c_decision_epoch = int (decision_epoch obj), c_pinned = of_bool (pinned obj),
     c_protected = of_bool (protected obj), c_min_retention = min_retention_deadline_ms obj,
     c_max_retention = max_retention_deadline_ms obj, c_app_metadata = meta_str tf (app_metadata obj)\<rparr>"

definition object_row_of :: "text_forms \<Rightarrow> reclaim_object \<Rightarrow> object_row result" where
  "object_row_of tf obj = bindr (object_ints obj) (\<lambda>_. Inr (object_columns tf obj))"

text \<open>The last step of reading an object: what was decoded is validated again.\<close>

definition checked_object :: "reclaim_object \<Rightarrow> sqlite_error + reclaim_object" where
  "checked_object obj =
     bindr (map_err (\<lambda>e. InvalidParameterName ([Lit ''corrupt object '', Uid (id obj), Lit '': ''] @ display e))
       (validate_object obj)) (\<lambda>_. Inr obj)"

definition row_to_object :: "text_forms \<Rightarrow> object_row \<Rightarrow> sqlite_error + reclaim_object" where
  "row_to_object tf r =
     bindr (map_err (\<lambda>e. InvalidParameterName [Str e]) (parse_meta tf (c_app_metadata r))) (\<lambda>meta.
     bindr (decode_uuid tf (c_id r) ''objects.id'') (\<lambda>i.
     bindr (decode_u64 (c_generation r) ''objects.generation'') (\<lambda>g.
     bindr (decode_u64 (c_logical_size r) ''objects.logical_size'') (\<lambda>ls.
     bindr (decode_u64 (c_physical_size r) ''objects.physical_size'') (\<lambda>ps.
     bindr (decode_optional_u64 (c_compressed_size r) ''objects.compressed_size'') (\<lambda>cs.
     bindr (decode_u64 (c_access_count r) ''objects.access_count'') (\<lambda>ac.
     bindr (decode_optional_u64 (c_reuse_horizon_secs r) ''objects.reuse_horizon_secs'') (\<lambda>rh.
     bindr (decode_u32 (c_replication_count r) ''objects.replication_count'') (\<lambda>rc.
     bindr (decode_durability (c_durability r)) (\<lambda>du.
     bindr (decode_survivability (c_survivability r)) (\<lambda>su.
     bindr (case c_content_hash r of None \<Rightarrow> Inr None
       | Some h \<Rightarrow> bindr (decode_hash h ''objects.content_hash'') (\<lambda>x. Inr (Some x))) (\<lambda>ch.
     bindr (map_err (\<lambda>e. InvalidParameterName (display e)) (parse_state (c_lifecycle_state r))) (\<lambda>st.
     bindr (decode_u64 (c_decision_epoch r) ''objects.decision_epoch'') (\<lambda>de.
     bindr (decode_bool (c_pinned r) ''objects.pinned'') (\<lambda>pi.
     bindr (decode_bool (c_protected r) ''objects.protected'') (\<lambda>pr.
     checked_object \<lparr>
       id = i, generation = g, obj_class = c_class r, logical_size = ls, physical_size = ps,
       compressed_size = cs, created_at_ms = c_created_at_ms r, last_access_ms = c_last_access_ms r,
       access_count = ac, reuse_probability = c_reuse_probability r, reuse_horizon_secs = rh,
       recompute_cost = c_recompute_cost r, recompute_latency_secs = c_recompute_latency_secs r,
       transfer_cost = c_transfer_cost r, migration_cost = c_migration_cost r,
       storage_cost_per_byte_sec = c_storage_cost r, memory_cost_per_byte_sec = c_memory_cost r,
       replication_count = rc, obj_durability = du, obj_survivability = su, owner = c_owner r,
       obj_content_hash = ch, obj_state = st, policy_version = c_policy_version r,
       decision_epoch = de, pinned = pi, protected = pr,
       min_retention_deadline_ms = c_min_retention r, max_retention_deadline_ms = c_max_retention r,
       app_metadata = meta\<rparr>))))))))))))))))"

subsection \<open>Replicas, archives, the journal and the audit trail\<close>

definition validate_replica_descriptor :: "replica \<Rightarrow> unit result" where
  "validate_replica_descriptor r =
     bindr (ensure (\<not> (blank (loc_backend (rep_location r)) \<or> blank (loc_key (rep_location r))))
       (InvalidArgument [Lit ''replica backend and key must not be empty''])) (\<lambda>_.
     bindr (ensure (\<not> (case owner_node r of None \<Rightarrow> False | Some n \<Rightarrow> blank n))
       (InvalidArgument [Lit ''replica owner_node must not be empty when present''])) (\<lambda>_.
     bindr (sql_u64 ''replica generation'' (rep_generation r)) (\<lambda>_.
     bindr (sql_u64 ''replica size'' (rep_size r)) (\<lambda>_. Inr ()))))"

record replica_row =
  p_replica_id :: string
  p_object_id :: string
  p_generation :: int
  p_backend :: string
  p_key :: string
  p_kind :: string
  p_size :: int
  p_content_hash :: string
  p_created_at_ms :: int
  p_verified_at_ms :: "int option"
  p_valid :: int
  p_owner_node :: "string option"

definition replica_columns :: "text_forms \<Rightarrow> replica \<Rightarrow> replica_row" where
  "replica_columns tf r = \<lparr>
     p_replica_id = uuid_str tf (replica_id r), p_object_id = uuid_str tf (rep_object_id r),
     p_generation = int (rep_generation r), p_backend = loc_backend (rep_location r),
     p_key = loc_key (rep_location r), p_kind = kind_str (loc_kind (rep_location r)),
     p_size = int (rep_size r), p_content_hash = hash_str (rep_content_hash r),
     p_created_at_ms = rep_created_at_ms r, p_verified_at_ms = verified_at_ms r,
     p_valid = of_bool (valid r), p_owner_node = owner_node r\<rparr>"

definition replica_row_of :: "text_forms \<Rightarrow> replica \<Rightarrow> replica_row result" where
  "replica_row_of tf r =
     bindr (validate_replica_descriptor r) (\<lambda>_.
     bindr (sql_u64 ''replica generation'' (rep_generation r)) (\<lambda>g.
     bindr (sql_u64 ''replica size'' (rep_size r)) (\<lambda>sz. Inr (replica_columns tf r))))"

definition checked_replica :: "replica \<Rightarrow> sqlite_error + replica" where
  "checked_replica r =
     bindr (map_err (\<lambda>e. InvalidParameterName
         ([Lit ''corrupt replica '', Uid (replica_id r), Lit '': ''] @ display e))
       (validate_replica_descriptor r)) (\<lambda>_. Inr r)"

definition row_to_replica :: "text_forms \<Rightarrow> replica_row \<Rightarrow> sqlite_error + replica" where
  "row_to_replica tf r =
     bindr (decode_uuid tf (p_replica_id r) ''replicas.replica_id'') (\<lambda>rid.
     bindr (decode_uuid tf (p_object_id r) ''replicas.object_id'') (\<lambda>oid.
     bindr (decode_u64 (p_generation r) ''replicas.generation'') (\<lambda>g.
     bindr (decode_kind (p_kind r)) (\<lambda>k.
     bindr (decode_u64 (p_size r) ''replicas.size'') (\<lambda>sz.
     bindr (decode_hash (p_content_hash r) ''replicas.content_hash'') (\<lambda>h.
     bindr (decode_bool (p_valid r) ''replicas.valid'') (\<lambda>v.
     checked_replica \<lparr>replica_id = rid, rep_object_id = oid, rep_generation = g,
       rep_location = \<lparr>loc_backend = p_backend r, loc_key = p_key r, loc_kind = k\<rparr>,
       rep_size = sz, rep_content_hash = h, rep_created_at_ms = p_created_at_ms r,
       verified_at_ms = p_verified_at_ms r, valid = v, owner_node = p_owner_node r\<rparr>)))))))"

record archive_row =
  v_archive_id :: string
  v_object_id :: string
  v_generation :: int
  v_backend :: string
  v_key :: string
  v_size :: int
  v_content_hash :: string
  v_created_at_ms :: int
  v_valid :: int

definition archive_columns :: "text_forms \<Rightarrow> archive_record \<Rightarrow> archive_row" where
  "archive_columns tf a = \<lparr>
     v_archive_id = archive_id a, v_object_id = uuid_str tf (ar_object_id a),
     v_generation = int (ar_generation a), v_backend = ar_backend a, v_key = ar_key a,
     v_size = int (ar_size a), v_content_hash = hash_str (ar_content_hash a),
     v_created_at_ms = ar_created_at_ms a, v_valid = 1\<rparr>"

definition archive_row_of :: "text_forms \<Rightarrow> archive_record \<Rightarrow> archive_row result" where
  "archive_row_of tf a =
     bindr (sql_u64 ''archive generation'' (ar_generation a)) (\<lambda>g.
     bindr (sql_u64 ''archive size'' (ar_size a)) (\<lambda>sz. Inr (archive_columns tf a)))"

definition row_to_archive :: "text_forms \<Rightarrow> archive_row \<Rightarrow> sqlite_error + archive_record option" where
  "row_to_archive tf r =
     bindr (decode_bool (v_valid r) ''archives.valid'') (\<lambda>va.
     if \<not> va then Inr None
     else
       bindr (decode_uuid tf (v_object_id r) ''archives.object_id'') (\<lambda>oid.
       bindr (decode_u64 (v_generation r) ''archives.generation'') (\<lambda>g.
       bindr (decode_u64 (v_size r) ''archives.size'') (\<lambda>sz.
       bindr (decode_hash (v_content_hash r) ''archives.content_hash'') (\<lambda>h.
       Inr (Some \<lparr>archive_id = v_archive_id r, ar_object_id = oid, ar_generation = g,
         ar_backend = v_backend r, ar_key = v_key r, ar_size = sz, ar_content_hash = h,
         ar_created_at_ms = v_created_at_ms r\<rparr>))))))"

record journal_row =
  g_attempt_id :: string
  g_object_id :: string
  g_generation :: int
  g_phase :: string
  g_created_at_ms :: int
  g_updated_at_ms :: int
  g_payload :: string

definition journal_columns :: "text_forms \<Rightarrow> journal_entry \<Rightarrow> journal_row" where
  "journal_columns tf e = \<lparr>
     g_attempt_id = uuid_str tf (j_attempt_id e), g_object_id = uuid_str tf (j_object_id e),
     g_generation = int (j_generation e), g_phase = phase_str (j_phase e),
     g_created_at_ms = j_created_at_ms e, g_updated_at_ms = j_updated_at_ms e,
     g_payload = json_str tf (j_payload e)\<rparr>"

definition journal_row_of :: "text_forms \<Rightarrow> journal_entry \<Rightarrow> journal_row result" where
  "journal_row_of tf e =
     bindr (sql_u64 ''journal generation'' (j_generation e)) (\<lambda>g. Inr (journal_columns tf e))"

definition row_to_journal :: "text_forms \<Rightarrow> journal_row \<Rightarrow> sqlite_error + journal_entry" where
  "row_to_journal tf r =
     bindr (decode_phase (g_phase r)) (\<lambda>ph.
     bindr (decode_uuid tf (g_attempt_id r) ''journal.attempt_id'') (\<lambda>aid.
     bindr (decode_uuid tf (g_object_id r) ''journal.object_id'') (\<lambda>oid.
     bindr (decode_u64 (g_generation r) ''journal.generation'') (\<lambda>g.
     bindr (map_err (\<lambda>e. InvalidParameterName [Str e]) (parse_json tf (g_payload r))) (\<lambda>p.
     Inr \<lparr>j_attempt_id = aid, j_object_id = oid, j_generation = g, j_phase = ph,
       j_created_at_ms = g_created_at_ms r, j_updated_at_ms = g_updated_at_ms r, j_payload = p\<rparr>)))))"

record audit_row =
  w_id :: int
  w_ts_ms :: int
  w_actor :: string
  w_action :: string
  w_object_id :: "string option"
  w_generation :: "int option"
  w_prior_state :: "string option"
  w_new_state :: "string option"
  w_policy :: "string option"
  w_attempt_id :: "string option"
  w_node :: "string option"
  w_detail :: string

definition audit_columns :: "text_forms \<Rightarrow> int \<Rightarrow> audit_entry \<Rightarrow> audit_row" where
  "audit_columns tf i a = \<lparr>
     w_id = i, w_ts_ms = au_ts_ms a, w_actor = actor a, w_action = action a,
     w_object_id = map_option (uuid_str tf) (au_object_id a),
     w_generation = map_option int (au_generation a), w_prior_state = prior_state a,
     w_new_state = new_state a, w_policy = au_policy a,
     w_attempt_id = map_option (uuid_str tf) (au_attempt_id a), w_node = au_node a,
     w_detail = json_str tf (detail a)\<rparr>"

definition audit_row_of :: "text_forms \<Rightarrow> int \<Rightarrow> audit_entry \<Rightarrow> audit_row result" where
  "audit_row_of tf i a =
     bindr (sql_optional_u64 ''audit generation'' (au_generation a)) (\<lambda>g. Inr (audit_columns tf i a))"

definition row_to_audit :: "text_forms \<Rightarrow> audit_row \<Rightarrow> sqlite_error + audit_entry" where
  "row_to_audit tf r =
     bindr (decode_optional_uuid tf (w_object_id r) ''audit.object_id'') (\<lambda>oid.
     bindr (decode_optional_u64 (w_generation r) ''audit.generation'') (\<lambda>g.
     bindr (decode_optional_uuid tf (w_attempt_id r) ''audit.attempt_id'') (\<lambda>aid.
     bindr (map_err (\<lambda>e. InvalidParameterName [Str e]) (parse_json tf (w_detail r))) (\<lambda>d.
     Inr \<lparr>au_id = w_id r, au_ts_ms = w_ts_ms r, actor = w_actor r, action = w_action r,
       au_object_id = oid, au_generation = g, prior_state = w_prior_state r,
       new_state = w_new_state r, au_policy = w_policy r, au_attempt_id = aid,
       au_node = w_node r, detail = d\<rparr>))))"

subsection \<open>Guards and their inverses\<close>

lemma sql_u64_Inr [result_simps]: "sql_u64 f v = Inr i \<longleftrightarrow> v \<le> I64_MAX \<and> i = int v"
  by (auto simp: sql_u64_def)

lemma sql_u64_errs: "errs (\<lambda>e. err_class e = ''invalid_argument'') (sql_u64 f v)"
  by (simp add: sql_u64_def)

lemma sql_optional_u64_Inr [result_simps]:
  "sql_optional_u64 f v = Inr i \<longleftrightarrow> (\<forall>n. v = Some n \<longrightarrow> n \<le> I64_MAX) \<and> i = map_option int v"
  by (cases v) (auto simp: sql_optional_u64_def result_simps)

lemma decode_u64_int [simp]: "decode_u64 (int n) f = Inr n"
  by (simp add: decode_u64_def)

lemma decode_optional_u64_int [simp]: "decode_optional_u64 (map_option int v) f = Inr v"
  by (cases v) (simp_all add: decode_optional_u64_def)

lemma decode_u32_int: "n \<le> U32_MAX \<Longrightarrow> decode_u32 (int n) f = Inr n"
  by (simp add: decode_u32_def)

lemma decode_bool_of_bool [simp]: "decode_bool (of_bool b) f = Inr b"
  by (simp add: decode_bool_def)

lemma decode_hash_str: "hash_wf h \<Longrightarrow> decode_hash (hash_str h) f = Inr h"
  by (simp add: decode_hash_def from_hex_inverse)

lemma decode_durability_str [simp]: "decode_durability (dura_str d) = Inr d"
  by (cases d) (simp_all add: decode_durability_def)

lemma decode_survivability_str [simp]: "decode_survivability (surv_str s) = Inr s"
  by (cases s) (simp_all add: decode_survivability_def)

lemma decode_kind_str [simp]: "decode_kind (kind_str k) = Inr k"
  by (cases k) (simp_all add: decode_kind_def)

lemma decode_edge_kind_str [simp]: "decode_edge_kind (edge_kind_str k) = Inr k"
  by (cases k) (simp_all add: decode_edge_kind_def)

lemma decode_phase_str [simp]: "decode_phase (phase_str p) = Inr p"
  by (cases p) (simp_all add: decode_phase_def)

text \<open>What the two text libraries promise about one value.\<close>

definition uuid_text_ok :: "text_forms \<Rightarrow> uuid \<Rightarrow> bool" where
  "uuid_text_ok tf u \<longleftrightarrow> parse_uuid tf (uuid_str tf u) = Inr u"

lemma decode_uuid_str: "uuid_text_ok tf u \<Longrightarrow> decode_uuid tf (uuid_str tf u) f = Inr u"
  by (simp add: decode_uuid_def uuid_text_ok_def)

lemma decode_optional_uuid_str:
  "(\<And>u. v = Some u \<Longrightarrow> uuid_text_ok tf u) \<Longrightarrow>
     decode_optional_uuid tf (map_option (uuid_str tf) v) f = Inr v"
  by (cases v) (simp_all add: decode_optional_uuid_def decode_uuid_str)

definition object_fits :: "reclaim_object \<Rightarrow> bool" where
  "object_fits obj \<longleftrightarrow> generation obj \<le> I64_MAX \<and> logical_size obj \<le> I64_MAX \<and>
     physical_size obj \<le> I64_MAX \<and> (\<forall>n. compressed_size obj = Some n \<longrightarrow> n \<le> I64_MAX) \<and>
     access_count obj \<le> I64_MAX \<and> (\<forall>n. reuse_horizon_secs obj = Some n \<longrightarrow> n \<le> I64_MAX) \<and>
     decision_epoch obj \<le> I64_MAX"

lemma object_ints_Inr: "object_ints obj = Inr u \<longleftrightarrow> object_fits obj"
  by (auto simp: object_ints_def object_fits_def result_simps)

lemma object_ints_errs: "errs (\<lambda>e. err_class e = ''invalid_argument'') (object_ints obj)"
  unfolding object_ints_def sql_optional_u64_def
  by (intro errs_bindr sql_u64_errs) (auto simp: errs_bindr sql_u64_errs split: option.splits)

lemma checked_object_Inr: "checked_object obj = Inr x \<longleftrightarrow> object_ok obj \<and> x = obj"
  by (auto simp: checked_object_def bindr_Inr_iff map_err_Inr_iff validate_object_iff)

lemma validate_replica_descriptor_Inr:
  "validate_replica_descriptor r = Inr u \<longleftrightarrow>
     \<not> blank (loc_backend (rep_location r)) \<and> \<not> blank (loc_key (rep_location r)) \<and>
     (\<forall>n. owner_node r = Some n \<longrightarrow> \<not> blank n) \<and> rep_generation r \<le> I64_MAX \<and> rep_size r \<le> I64_MAX"
  by (auto simp: validate_replica_descriptor_def result_simps split: option.splits)

text \<open>
  C26: an object whose scalars are in range and whose integers fit the columns is written to a
  row from which exactly that object is read back, and an integer the columns cannot hold is
  refused with \<open>invalid_argument\<close> before anything is written.
\<close>

theorem object_row_roundtrip:
  assumes "validate_object obj = Inr ()"
    and "replication_count obj \<le> U32_MAX"
    and "\<forall>h. obj_content_hash obj = Some h \<longrightarrow> hash_wf h"
    and "uuid_text_ok tf (id obj)"
    and "parse_meta tf (meta_str tf (app_metadata obj)) = Inr (app_metadata obj)"
  shows "(case object_row_of tf obj of
            Inr row \<Rightarrow> object_fits obj \<and> row_to_object tf row = Inr obj
          | Inl e \<Rightarrow> \<not> object_fits obj \<and> err_class e = ''invalid_argument'')"
proof (cases "object_ints obj")
  case (Inl e)
  then have "\<not> object_fits obj" using object_ints_Inr [of obj "()"] by auto
  then show ?thesis using Inl errsD [OF object_ints_errs Inl] by (simp add: object_row_of_def)
next
  case (Inr u)
  have hash: "(case map_option hash_str (obj_content_hash obj) of None \<Rightarrow> Inr None
      | Some h \<Rightarrow> bindr (decode_hash h f) (\<lambda>x. Inr (Some x))) = Inr (obj_content_hash obj)" for f
    using assms(3) by (cases "obj_content_hash obj") (simp_all add: decode_hash_str)
  have ok: "object_ok obj" using assms(1) by (simp add: validate_object_iff)
  have "row_to_object tf (object_columns tf obj) = checked_object obj"
    using assms(2,4,5) hash
    by (simp add: row_to_object_def object_columns_def decode_uuid_str decode_u32_int)
      (intro arg_cong [of _ _ checked_object] reclaim_object.equality, simp_all)
  also have "\<dots> = Inr obj" using ok by (simp add: checked_object_Inr)
  finally have "row_to_object tf (object_columns tf obj) = Inr obj" .
  moreover have "object_fits obj" using Inr object_ints_Inr by blast
  ultimately show ?thesis using Inr by (simp add: object_row_of_def)
qed

text \<open>Text forms that suit a single identifier and an object without metadata.\<close>

definition sample_forms :: text_forms where
  "sample_forms = \<lparr>uuid_str = (\<lambda>_. ''1''), parse_uuid = (\<lambda>_. Inr 1), json_str = (\<lambda>_. ''null''),
     parse_json = (\<lambda>_. Inr JNull), meta_str = (\<lambda>_. ''{}''), parse_meta = (\<lambda>_. Inr [])\<rparr>"

lemma new_object_ok: "\<not> blank cls \<Longrightarrow> validate_object (new_object i g cls n t) = Inr ()"
  by (simp add: validate_object_iff object_ok_def new_object_def cost_ok_def)

lemma not_blank_checkpoint: "\<not> blank ''checkpoint''"
  by (simp add: blank_def trim_def strip_ws.simps ws_len_def ws_len_rev_def ascii_ws_def wide_ws_def)

theorem object_row_roundtrip_witness:
  "\<exists>row. object_row_of sample_forms (new_object 1 1 ''checkpoint'' 4 0) = Inr row \<and>
     row_to_object sample_forms row = Inr (new_object 1 1 ''checkpoint'' 4 0)"
proof -
  let ?o = "new_object 1 1 ''checkpoint'' 4 0"
  have v: "validate_object ?o = Inr ()" by (rule new_object_ok [OF not_blank_checkpoint])
  have fits: "object_fits ?o" by (simp add: object_fits_def new_object_def I64_MAX_def)
  have "case object_row_of sample_forms ?o of
      Inr row \<Rightarrow> object_fits ?o \<and> row_to_object sample_forms row = Inr ?o
    | Inl e \<Rightarrow> \<not> object_fits ?o \<and> err_class e = ''invalid_argument''"
    by (rule object_row_roundtrip [OF v])
      (simp_all add: new_object_def uuid_text_ok_def sample_forms_def U32_MAX_def)
  then show ?thesis using fits by (simp split: sum.splits)
qed

text \<open>
  The other durable records survive their tables as well: a replica that passes the
  descriptor check, an archive record, a journal entry and an audit entry are read back as
  they were written, the audit entry with the identifier the table gave it.
\<close>

theorem rows_roundtrip:
  assumes "replica_row_of tf r = Inr pr" and "hash_wf (rep_content_hash r)"
    and "uuid_text_ok tf (replica_id r)" and "uuid_text_ok tf (rep_object_id r)"
    and "archive_row_of tf a = Inr ar" and "hash_wf (ar_content_hash a)"
    and "uuid_text_ok tf (ar_object_id a)"
    and "journal_row_of tf j = Inr jr" and "uuid_text_ok tf (j_attempt_id j)"
    and "uuid_text_ok tf (j_object_id j)"
    and "parse_json tf (json_str tf (j_payload j)) = Inr (j_payload j)"
    and "audit_row_of tf i w = Inr wr" and "\<forall>u. au_object_id w = Some u \<longrightarrow> uuid_text_ok tf u"
    and "\<forall>u. au_attempt_id w = Some u \<longrightarrow> uuid_text_ok tf u"
    and "parse_json tf (json_str tf (detail w)) = Inr (detail w)"
  shows "row_to_replica tf pr = Inr r \<and> row_to_archive tf ar = Inr (Some a) \<and>
    row_to_journal tf jr = Inr j \<and> row_to_audit tf wr = Inr (w\<lparr>au_id := i\<rparr>)"
proof (intro conjI)
  have d: "validate_replica_descriptor r = Inr ()"
    using assms(1) by (auto simp: replica_row_of_def bindr_Inr_iff)
  then have pr: "pr = replica_columns tf r"
    using assms(1) by (simp add: replica_row_of_def bindr_Inr_iff sql_u64_Inr replica_columns_def)
  have "row_to_replica tf pr = checked_replica r"
    using assms(2-4) unfolding pr
    by (simp add: row_to_replica_def replica_columns_def decode_uuid_str decode_hash_str)
      (intro arg_cong [of _ _ checked_replica] replica.equality physical_location.equality, simp_all)
  then show "row_to_replica tf pr = Inr r" using d by (simp add: checked_replica_def)
  have ar: "archive_row_of tf a = Inr ar \<Longrightarrow> ar = archive_columns tf a"
    by (simp add: archive_row_of_def bindr_Inr_iff sql_u64_Inr)
  show "row_to_archive tf ar = Inr (Some a)"
    unfolding ar [OF assms(5)] using assms(6,7)
    by (simp add: row_to_archive_def archive_columns_def decode_uuid_str decode_hash_str decode_bool_def)
  have jr: "journal_row_of tf j = Inr jr \<Longrightarrow> jr = journal_columns tf j"
    by (simp add: journal_row_of_def bindr_Inr_iff sql_u64_Inr)
  show "row_to_journal tf jr = Inr j"
    unfolding jr [OF assms(8)] using assms(9-11)
    by (simp add: row_to_journal_def journal_columns_def decode_uuid_str)
  have wr: "audit_row_of tf i w = Inr wr \<Longrightarrow> wr = audit_columns tf i w"
    by (simp add: audit_row_of_def bindr_Inr_iff sql_optional_u64_Inr)
  show "row_to_audit tf wr = Inr (w\<lparr>au_id := i\<rparr>)"
    unfolding wr [OF assms(12)] using assms(13-15)
    by (simp add: row_to_audit_def audit_columns_def decode_optional_uuid_str)
qed

definition sample_replica :: replica where
  "sample_replica = \<lparr>replica_id = 1, rep_object_id = 1, rep_generation = 1,
     rep_location = \<lparr>loc_backend = ''memory'', loc_key = ''k'', loc_kind = HotKind\<rparr>, rep_size = 4,
     rep_content_hash = replicate 32 7, rep_created_at_ms = 0, verified_at_ms = None, valid = True,
     owner_node = None\<rparr>"

definition sample_archive :: archive_record where
  "sample_archive = \<lparr>archive_id = ''a'', ar_object_id = 1, ar_generation = 1, ar_backend = ''archive'',
     ar_key = ''k'', ar_size = 4, ar_content_hash = replicate 32 7, ar_created_at_ms = 0\<rparr>"

definition sample_journal :: journal_entry where
  "sample_journal = \<lparr>j_attempt_id = 1, j_object_id = 1, j_generation = 1, j_phase = Reserved,
     j_created_at_ms = 0, j_updated_at_ms = 0, j_payload = JNull\<rparr>"

definition sample_audit :: audit_entry where
  "sample_audit = \<lparr>au_id = 0, au_ts_ms = 0, actor = ''coordinator'', action = ''register'',
     au_object_id = Some 1, au_generation = Some 1, prior_state = None, new_state = Some ''CREATED'',
     au_policy = None, au_attempt_id = None, au_node = None, detail = JNull\<rparr>"

theorem rows_roundtrip_witness:
  "\<exists>pr ar jr wr. row_to_replica sample_forms pr = Inr sample_replica \<and>
     row_to_archive sample_forms ar = Inr (Some sample_archive) \<and>
     row_to_journal sample_forms jr = Inr sample_journal \<and>
     row_to_audit sample_forms wr = Inr (sample_audit\<lparr>au_id := 5\<rparr>)"
proof -
  have "validate_replica_descriptor sample_replica = Inr ()"
    by (simp add: validate_replica_descriptor_Inr sample_replica_def I64_MAX_def blank_def trim_def
        strip_ws.simps ws_len_def ws_len_rev_def ascii_ws_def wide_ws_def)
  then have "\<exists>pr. replica_row_of sample_forms sample_replica = Inr pr"
    by (simp add: replica_row_of_def sql_u64_def sample_replica_def I64_MAX_def)
  moreover have "\<exists>ar. archive_row_of sample_forms sample_archive = Inr ar"
    "\<exists>jr. journal_row_of sample_forms sample_journal = Inr jr"
    "\<exists>wr. audit_row_of sample_forms 5 sample_audit = Inr wr"
    by (simp_all add: archive_row_of_def journal_row_of_def audit_row_of_def sql_u64_def
        sql_optional_u64_def sample_archive_def sample_journal_def sample_audit_def I64_MAX_def)
  ultimately obtain pr ar jr wr where
    "replica_row_of sample_forms sample_replica = Inr pr" "archive_row_of sample_forms sample_archive = Inr ar"
    "journal_row_of sample_forms sample_journal = Inr jr" "audit_row_of sample_forms 5 sample_audit = Inr wr"
    by blast
  note rows = this
  have "row_to_replica sample_forms pr = Inr sample_replica \<and>
      row_to_archive sample_forms ar = Inr (Some sample_archive) \<and>
      row_to_journal sample_forms jr = Inr sample_journal \<and>
      row_to_audit sample_forms wr = Inr (sample_audit\<lparr>au_id := 5\<rparr>)"
    by (rule rows_roundtrip [OF rows(1) _ _ _ rows(2) _ _ rows(3) _ _ _ rows(4)])
      (simp_all add: sample_replica_def sample_archive_def sample_journal_def sample_audit_def
        sample_forms_def uuid_text_ok_def hash_wf_def)
  then show ?thesis by blast
qed

end
