(* ===== verification/Policy.thy ===== *)
theory Policy
  imports Economics "HOL-Library.Multiset"
begin

section \<open>The policy engine (src/policy.rs)\<close>

text \<open>
  Versioned policies, their registry, the resolution of the policy that applies to an object
  under a pressure level, and the decision. The main results: a complete registry resolves
  every object, resolution does not depend on the order of registration, the most specific
  matching tier wins, an emergency policy applies only under \<open>CRITICAL\<close> pressure, and a
  decision recommends reclamation only for an object that is neither pinned nor protected,
  exactly when the score reaches the threshold and the reuse probability is low enough.
\<close>

datatype policy_kind =
    KDefault | KObjectClass | KOwner | KPressure | KDurability | KSurvivability
  | KAge | KReuse | KRecomposition | KDependency | KEmergency

fun policy_kind_dbg :: "policy_kind \<Rightarrow> string" where
  "policy_kind_dbg KDefault = ''Default''"
| "policy_kind_dbg KObjectClass = ''ObjectClass''"
| "policy_kind_dbg KOwner = ''Owner''"
| "policy_kind_dbg KPressure = ''Pressure''"
| "policy_kind_dbg KDurability = ''Durability''"
| "policy_kind_dbg KSurvivability = ''Survivability''"
| "policy_kind_dbg KAge = ''Age''"
| "policy_kind_dbg KReuse = ''Reuse''"
| "policy_kind_dbg KRecomposition = ''Recomposition''"
| "policy_kind_dbg KDependency = ''Dependency''"
| "policy_kind_dbg KEmergency = ''Emergency''"

record policy =
  pol_id :: string
  pol_version :: string
  pol_kind :: policy_kind
  reclaim_threshold :: f64
  min_reuse_probability :: f64
  pol_weights :: cost_weights
  match_class :: "string option"
  match_owner :: "string option"
  match_pressure :: "pressure_level option"
  match_durability :: "durability_class option"
  match_survivability :: "survivability_class option"
  emergency :: bool
  description :: string

definition full_id :: "policy \<Rightarrow> string" where
  "full_id p = pol_id p @ ''-'' @ pol_version p"

definition default_policy :: policy where
  "default_policy = \<lparr>pol_id = ''reclaim-default'', pol_version = ''v1'', pol_kind = KDefault,
     reclaim_threshold = Fin 0, min_reuse_probability = round64 (5 / 100),
     pol_weights = default_weights, match_class = None, match_owner = None,
     match_pressure = None, match_durability = None, match_survivability = None,
     emergency = False, description =
      ''Baseline policy: reclaim when expected keep cost exceeds expected keep value.''\<rparr>"

definition emergency_policy :: policy where
  "emergency_policy = default_policy\<lparr>pol_id := ''reclaim-emergency'', pol_kind := KEmergency,
     emergency := True, match_pressure := Some CriticalLevel,
     min_reuse_probability := round64 (5 / 10), description :=
      ''Emergency policy: aggressive reclamation under CRITICAL pressure. Pins, protection, and survivability invariants still apply.''\<rparr>"

type_synonym policy_registry = "policy list"

definition with_defaults :: policy_registry where
  "with_defaults = [default_policy, emergency_policy]"

definition no_selectors :: "policy \<Rightarrow> bool" where
  "no_selectors p \<longleftrightarrow> match_class p = None \<and> match_owner p = None \<and> match_pressure p = None
     \<and> match_durability p = None \<and> match_survivability p = None"

definition some_text :: "string option \<Rightarrow> bool" where
  "some_text x \<longleftrightarrow> (case x of Some s \<Rightarrow> \<not> blank s | None \<Rightarrow> False)"

definition selector_valid :: "policy \<Rightarrow> bool result" where
  "selector_valid p =
     (let no_class = match_class p = None; no_owner = match_owner p = None;
          no_pressure = match_pressure p = None; no_durability = match_durability p = None;
          no_survivability = match_survivability p = None;
          only_class = some_text (match_class p) \<and> no_owner \<and> no_pressure \<and> no_durability
            \<and> no_survivability;
          only_owner = some_text (match_owner p) \<and> no_class \<and> no_pressure \<and> no_durability
            \<and> no_survivability;
          only_pressure = match_pressure p \<noteq> None \<and> no_class \<and> no_owner \<and> no_durability
            \<and> no_survivability;
          only_durability = match_durability p \<noteq> None \<and> no_class \<and> no_owner \<and> no_pressure
            \<and> no_survivability;
          only_survivability = match_survivability p \<noteq> None \<and> no_class \<and> no_owner
            \<and> no_pressure \<and> no_durability
      in case pol_kind p of
           KDefault \<Rightarrow> Inr (no_selectors p \<and> \<not> emergency p)
         | KObjectClass \<Rightarrow> Inr (only_class \<and> \<not> emergency p)
         | KOwner \<Rightarrow> Inr (only_owner \<and> \<not> emergency p)
         | KPressure \<Rightarrow> Inr (only_pressure \<and> \<not> emergency p)
         | KDurability \<Rightarrow> Inr (only_durability \<and> \<not> emergency p)
         | KSurvivability \<Rightarrow> Inr (only_survivability \<and> \<not> emergency p)
         | KEmergency \<Rightarrow> Inr (only_pressure \<and> emergency p \<and> match_pressure p = Some CriticalLevel)
         | k \<Rightarrow> Inl (PolicyErr [Lit ''policy kind '', Str (policy_kind_dbg k),
                Lit '' is not supported by the current resolver'']))"

definition validate_policy :: "policy \<Rightarrow> unit result" where
  "validate_policy p =
     bindr (ensure (\<not> (blank (pol_id p) \<or> blank (pol_version p)))
       (PolicyErr [Lit ''policy id and version must not be empty''])) (\<lambda>_.
     bindr (ensure (is_finite (reclaim_threshold p))
       (PolicyErr [Lit ''reclaim_threshold must be finite''])) (\<lambda>_.
     bindr (ensure (fcontains (Fin 0) (Fin 1) (min_reuse_probability p))
       (PolicyErr [Lit ''min_reuse_probability must be in [0,1]''])) (\<lambda>_.
     bindr (map_err (\<lambda>e. PolicyErr (display e)) (validate_weights (pol_weights p))) (\<lambda>_.
     bindr (selector_valid p) (\<lambda>ok.
     ensure ok (PolicyErr [Lit ''policy kind '', Str (policy_kind_dbg (pol_kind p)),
       Lit '' has inconsistent match selectors or emergency flag'']))))))"

definition add_policy :: "policy \<Rightarrow> policy_registry \<Rightarrow> policy_registry result" where
  "add_policy p ps =
     bindr (validate_policy p) (\<lambda>_.
     if \<exists>q\<in>set ps. pol_id q = pol_id p \<and> pol_version q = pol_version p
     then Inl (PolicyErr [Lit ''policy '', Str (pol_id p), Lit ''-'', Str (pol_version p),
            Lit '' already registered''])
     else Inr (ps @ [p]))"

definition list_policies :: "policy_registry \<Rightarrow> policy list" where
  "list_policies ps = sort_key full_id ps"

definition get_policy :: "string \<Rightarrow> string \<Rightarrow> policy_registry \<Rightarrow> policy result" where
  "get_policy i v ps =
     ok_or (find (\<lambda>p. pol_id p = i \<and> pol_version p = v) ps)
       (PolicyErr [Lit ''policy '', Str i, Lit ''-'', Str v, Lit '' not found''])"

fun durability_dbg :: "durability_class \<Rightarrow> string" where
  "durability_dbg DurEphemeral = ''Ephemeral''"
| "durability_dbg DurRecomputable = ''Recomputable''"
| "durability_dbg DurDurable = ''Durable''"
| "durability_dbg DurCritical = ''Critical''"

fun survivability_dbg :: "survivability_class \<Rightarrow> string" where
  "survivability_dbg SurEphemeral = ''Ephemeral''"
| "survivability_dbg SurRecomputable = ''Recomputable''"
| "survivability_dbg SurDurable = ''Durable''"
| "survivability_dbg SurCritical = ''Critical''"

definition option_dbg :: "('a \<Rightarrow> string) \<Rightarrow> 'a option \<Rightarrow> string" where
  "option_dbg f x = (case x of None \<Rightarrow> ''None'' | Some a \<Rightarrow> ''Some('' @ f a @ '')'')"

definition policy_selector_key :: "policy \<Rightarrow> string" where
  "policy_selector_key p =
     (case pol_kind p of
        KDefault \<Rightarrow> ''DEFAULT''
      | KObjectClass \<Rightarrow> ''OBJECT_CLASS:'' @ unwrap_or (match_class p) []
      | KOwner \<Rightarrow> ''OWNER:'' @ unwrap_or (match_owner p) []
      | KPressure \<Rightarrow> ''PRESSURE:'' @ (case match_pressure p of None \<Rightarrow> [] | Some l \<Rightarrow> level_str l)
      | KDurability \<Rightarrow> ''DURABILITY:'' @ option_dbg durability_dbg (match_durability p)
      | KSurvivability \<Rightarrow> ''SURVIVABILITY:'' @ option_dbg survivability_dbg (match_survivability p)
      | KEmergency \<Rightarrow> ''EMERGENCY:'' @ (case match_pressure p of None \<Rightarrow> [] | Some l \<Rightarrow> level_str l)
      | k \<Rightarrow> ''UNSUPPORTED:'' @ policy_kind_dbg k)"

text \<open>The selector map: selector keys in order, each with the full ids registered under it.\<close>

definition selector_map :: "policy_registry \<Rightarrow> (string \<times> string list) list" where
  "selector_map ps =
     fold (\<lambda>p m. bt_insert (policy_selector_key p)
        (unwrap_or (map_of m (policy_selector_key p)) [] @ [full_id p]) m) ps []"

definition validate_complete :: "policy_registry \<Rightarrow> unit result" where
  "validate_complete ps =
     bindr (for_each ps validate_policy) (\<lambda>_.
     let default_count = length (filter (\<lambda>p. pol_kind p = KDefault) ps) in
     if default_count \<noteq> 1
     then Inl (PolicyErr [Lit ''policy registry must contain exactly one default policy, found '',
            Num (int default_count)])
     else for_each (selector_map ps) (\<lambda>(selector, ids).
        ensure (\<not> length ids > 1)
          (PolicyErr [Lit ''ambiguous policy selector '', Str selector, Lit '': '',
             Str (join '', '' (sort ids))])))"

definition unique_policy :: "policy list \<Rightarrow> string \<Rightarrow> policy option result" where
  "unique_policy matches specificity =
     (if length matches > 1
      then Inl (PolicyErr [Lit ''ambiguous '', Str specificity, Lit '' policies: '',
             Str (join '', '' (map full_id (sort_key full_id matches)))])
      else Inr (case matches of [] \<Rightarrow> None | p # _ \<Rightarrow> Some p))"

text \<open>The tiers of the resolver, the most specific first, and the search through them.\<close>

definition tiers ::
  "reclaim_object \<Rightarrow> pressure_level \<Rightarrow> ((policy \<Rightarrow> bool) \<times> string) list" where
  "tiers obj pressure =
     [(\<lambda>p. pol_kind p = KEmergency \<and> emergency p \<and> match_pressure p = Some pressure, ''emergency''),
      (\<lambda>p. pol_kind p = KPressure \<and> \<not> emergency p \<and> match_pressure p = Some pressure, ''pressure''),
      (\<lambda>p. pol_kind p = KObjectClass \<and> match_class p = Some (obj_class obj), ''object-class''),
      (\<lambda>p. pol_kind p = KOwner \<and> match_owner p = Some (owner obj), ''owner''),
      (\<lambda>p. pol_kind p = KDurability \<and> match_durability p = Some (obj_durability obj), ''durability''),
      (\<lambda>p. pol_kind p = KSurvivability \<and> match_survivability p = Some (obj_survivability obj),
       ''survivability''),
      (\<lambda>p. pol_kind p = KDefault, ''default'')]"

fun resolve_tiers :: "((policy \<Rightarrow> bool) \<times> string) list \<Rightarrow> policy_registry \<Rightarrow> policy result" where
  "resolve_tiers [] ps = Inl (PolicyErr [Lit ''no default policy registered''])"
| "resolve_tiers ((m, name) # ts) ps =
     bindr (unique_policy (filter m ps) name) (\<lambda>found.
     case found of Some p \<Rightarrow> Inr p | None \<Rightarrow> resolve_tiers ts ps)"

definition resolve :: "policy_registry \<Rightarrow> reclaim_object \<Rightarrow> pressure_level \<Rightarrow> policy result" where
  "resolve ps obj pressure = resolve_tiers (tiers obj pressure) ps"

record policy_decision =
  pd_decision :: decision
  object_snapshot :: reclaim_object
  pd_pressure :: pressure_level
  explanation :: json

record decision_context =
  ctx_dependency_value :: f64
  ctx_survivability_value :: f64

definition hard_invariant_reasons :: "reclaim_object \<Rightarrow> msg list" where
  "hard_invariant_reasons obj =
     (if pinned obj then [[Lit ''object_is_pinned'']] else [])
     @ (if protected obj then [[Lit ''object_is_protected'']] else [])
     @ [[Lit ''hard_invariant_policy_cannot_recommend_reclaim'']]"

definition score_reasons ::
  "reclaim_object \<Rightarrow> pressure_level \<Rightarrow> policy \<Rightarrow> decision_components \<Rightarrow> msg list" where
  "score_reasons obj pressure p out =
     [[Lit ''reuse_probability='', Fix 6 (reuse_probability obj)]]
     @ (case reuse_horizon_secs obj of None \<Rightarrow> []
        | Some h \<Rightarrow> [[Lit ''expected_reuse_horizon='', Num (int h), Lit ''s'']])
     @ [[Lit ''logical_size='', Num (int (logical_size obj))],
        [Lit ''recompute_cost='', Flt (unwrap_or (recompute_cost obj) (Fin 0))],
        [Lit ''score='', Fix 4 (reclaim_score out)],
        [Lit ''threshold='', Fix 4 (reclaim_threshold p)],
        [Lit ''pressure='', Str (level_str pressure)],
        [Lit ''policy='', Str (full_id p)]]"

definition decision_verdict :: "policy \<Rightarrow> reclaim_object \<Rightarrow> decision_components \<Rightarrow> reclaim_verdict" where
  "decision_verdict p obj out =
     (if pinned obj \<or> protected obj then Retain
      else if fle (reclaim_threshold p) (reclaim_score out)
              \<and> fle (reuse_probability obj) (min_reuse_probability p)
      then Reclaim else Retain)"

definition decide ::
  "policy_registry \<Rightarrow> reclaim_object \<Rightarrow> pressure_level \<Rightarrow> nat \<Rightarrow> int \<Rightarrow> decision_context
   \<Rightarrow> policy_decision result" where
  "decide ps obj pressure ep now_ms ctx =
     bindr (validate_object obj) (\<lambda>_.
     bindr (resolve ps obj pressure) (\<lambda>p.
     bindr (validate_policy p) (\<lambda>_.
     bindr (for_each
       [(''dependency_value'', ctx_dependency_value ctx),
        (''survivability_value'', ctx_survivability_value ctx)]
       (\<lambda>(name, v). ensure (\<not> (\<not> is_finite v \<or> flt v (Fin 0)))
          (InvalidArgument [Lit ''decision context '', Str name,
             Lit '' must be finite and non-negative, got '', Flt v]))) (\<lambda>_.
     let inp = derive obj now_ms (multiplier pressure) in
     bindr (validate_finite inp) (\<lambda>_.
     let out = evaluate inp (pol_weights p) (ctx_dependency_value ctx) (ctx_survivability_value ctx) in
     bindr (validate_components out) (\<lambda>_.
     let d = \<lparr>dec_object_id = id obj, dec_generation = generation obj,
              verdict = decision_verdict p obj out, score = reclaim_score out,
              threshold = reclaim_threshold p, dec_policy_id = pol_id p,
              dec_policy_version = pol_version p, dec_epoch = ep, dec_components = out,
              dec_reasons = (if pinned obj \<or> protected obj then hard_invariant_reasons obj
                             else score_reasons obj pressure p out)\<rparr>
     in Inr \<lparr>pd_decision = d, object_snapshot = obj, pd_pressure = pressure,
             explanation = build_explanation d obj (level_str pressure)\<rparr>))))))"

subsection \<open>Resolution\<close>

lemma unique_policy_Inr:
  "unique_policy xs n = Inr r \<longleftrightarrow>
     (xs = [] \<and> r = None) \<or> (\<exists>p. xs = [p] \<and> r = Some p)"
  by (cases xs) (auto simp: unique_policy_def split: list.splits)

lemma sort_key_map: "map f (sort_key f xs) = sort (map f xs)"
  by (rule properties_for_sort [symmetric]) simp_all

lemma mset_singleton_eq: "mset xs = mset ys \<Longrightarrow> \<not> length xs > 1 \<Longrightarrow> xs = ys"
proof -
  assume m: "mset xs = mset ys" and l: "\<not> length xs > 1"
  have "length ys = length xs" using mset_eq_length [OF m] by simp
  with m l show ?thesis by (cases xs; cases ys; simp)
qed

lemma unique_policy_mset:
  assumes "mset xs = mset ys"
  shows "unique_policy xs n = unique_policy ys n"
proof (cases "length xs > 1")
  case True
  have "mset (map full_id xs) = mset (map full_id ys)" using assms by simp
  then have "sort (map full_id xs) = sort (map full_id ys)"
    by (metis properties_for_sort mset_sort sorted_sort)
  then show ?thesis using True mset_eq_length [OF assms]
    by (simp add: unique_policy_def sort_key_map)
next
  case False
  then show ?thesis using mset_singleton_eq [OF assms] by simp
qed

lemma resolve_tiers_mset:
  assumes "mset ps = mset qs"
  shows "resolve_tiers ts ps = resolve_tiers ts qs"
proof (induction ts)
  case (Cons t ts)
  obtain m name where t: "t = (m, name)" by fastforce
  have "mset (filter m ps) = mset (filter m qs)" using assms by simp
  then show ?case by (simp add: t Cons.IH unique_policy_mset [of "filter m ps" "filter m qs"])
qed simp

text \<open>
  Which policy applies to an object does not depend on the order in which policies were
  registered or read back: a permuted registry gives the same policy, or the same error.
\<close>

theorem resolve_order_independent:
  assumes "mset ps = mset qs"
  shows "resolve ps obj pressure = resolve qs obj pressure"
  unfolding resolve_def by (rule resolve_tiers_mset [OF assms])

theorem resolve_order_independent_witness:
  "resolve [emergency_policy, default_policy] sample_object CriticalLevel
     = resolve with_defaults sample_object CriticalLevel"
  by (rule resolve_order_independent) (simp add: with_defaults_def)

lemma resolve_tiers_Inr:
  "resolve_tiers ts ps = Inr p \<longleftrightarrow>
     (\<exists>i<length ts. filter (fst (ts ! i)) ps = [p] \<and> (\<forall>j<i. filter (fst (ts ! j)) ps = []))"
proof (induction ts ps rule: resolve_tiers.induct)
  case (1 ps)
  then show ?case by simp
next
  case (2 m name ts ps)
  have "resolve_tiers ((m, name) # ts) ps = Inr p \<longleftrightarrow>
      filter m ps = [p] \<or> filter m ps = [] \<and> resolve_tiers ts ps = Inr p"
    by (auto simp: bindr_Inr_iff unique_policy_Inr)
  also have "\<dots> \<longleftrightarrow> (\<exists>i<length ((m, name) # ts). filter (fst (((m, name) # ts) ! i)) ps = [p]
      \<and> (\<forall>j<i. filter (fst (((m, name) # ts) ! j)) ps = []))"
    using 2 by (auto simp: Ex_less_Suc2 All_less_Suc2)
  finally show ?case .
qed



subsection \<open>Complete registries\<close>

lemma selector_map_wf: "bt_wf (selector_map ps)"
proof -
  have "bt_wf m \<Longrightarrow> bt_wf (fold (\<lambda>p m. bt_insert (policy_selector_key p)
        (unwrap_or (map_of m (policy_selector_key p)) [] @ [full_id p]) m) ps m)" for m
    by (induction ps arbitrary: m) auto
  then show ?thesis by (simp add: selector_map_def)
qed

lemma selector_map_snoc:
  "selector_map (ps @ [p]) = bt_insert (policy_selector_key p)
     (unwrap_or (map_of (selector_map ps) (policy_selector_key p)) [] @ [full_id p]) (selector_map ps)"
  by (simp add: selector_map_def)

lemma selector_map_lookup:
  "unwrap_or (map_of (selector_map ps) k) [] = map full_id (filter (\<lambda>p. policy_selector_key p = k) ps)"
proof (induction ps rule: rev_induct)
  case Nil
  then show ?case by (simp add: selector_map_def unwrap_or_def)
next
  case (snoc p ps)
  then show ?case by (auto simp: selector_map_snoc selector_map_wf unwrap_or_def)
qed

lemma validate_complete_Inr:
  assumes "validate_complete ps = Inr ()"
  shows "\<forall>p\<in>set ps. validate_policy p = Inr ()"
    and "length (filter (\<lambda>p. pol_kind p = KDefault) ps) = 1"
    and "length (filter (\<lambda>p. policy_selector_key p = k) ps) \<le> 1"
proof -
  show "\<forall>p\<in>set ps. validate_policy p = Inr ()"
    and "length (filter (\<lambda>p. pol_kind p = KDefault) ps) = 1"
    using assms by (auto simp: validate_complete_def bindr_Inr_iff for_each_Inr_iff Let_def split: if_splits)
  have sel: "\<forall>(s, ids)\<in>set (selector_map ps). \<not> length ids > 1"
    using assms by (auto simp: validate_complete_def bindr_Inr_iff for_each_Inr_iff Let_def split: if_splits)
  show "length (filter (\<lambda>p. policy_selector_key p = k) ps) \<le> 1"
  proof (cases "map_of (selector_map ps) k")
    case None
    then show ?thesis using selector_map_lookup [of ps k] by (simp add: unwrap_or_def)
  next
    case (Some ids)
    then have "\<not> length ids > 1" using sel map_of_SomeD [OF Some] by fastforce
    then show ?thesis using selector_map_lookup [of ps k] Some
      by (metis length_map not_le option.simps(5) unwrap_or_def)
  qed
qed

lemma length_filter_subset: "(\<And>x. P x \<Longrightarrow> Q x) \<Longrightarrow> length (filter P xs) \<le> length (filter Q xs)"
  by (induction xs) auto

lemma tier_selector:
  assumes "(m, name) \<in> set (tiers obj pressure)"
  shows "\<exists>k. \<forall>p. m p \<longrightarrow> policy_selector_key p = k"
  using assms unfolding tiers_def
  by (auto simp: policy_selector_key_def)

lemma resolve_tiers_total:
  assumes "\<And>m name. (m, name) \<in> set ts \<Longrightarrow> length (filter m ps) \<le> 1"
    and "ts \<noteq> []" and "filter (fst (last ts)) ps \<noteq> []"
  shows "\<exists>p. resolve_tiers ts ps = Inr p"
  using assms
proof (induction ts)
  case (Cons t ts)
  obtain m name where t: "t = (m, name)" by fastforce
  have "length (filter m ps) \<le> 1" using Cons.prems(1) [of m name] t by simp
  then consider "filter m ps = []" | p where "filter m ps = [p]"
    by (cases "filter m ps") auto
  then show ?case
  proof cases
    case 1
    then have "ts \<noteq> []" using Cons.prems(3) t by auto
    then show ?thesis using Cons 1 t by (auto simp: unique_policy_def)
  next
    case 2
    then show ?thesis by (simp add: t unique_policy_def)
  qed
qed simp

lemma validated_emergency:
  "validate_policy p = Inr () \<Longrightarrow> emergency p \<longleftrightarrow> pol_kind p = KEmergency"
  "validate_policy p = Inr () \<Longrightarrow> emergency p \<Longrightarrow> match_pressure p = Some CriticalLevel"
  by (auto simp: validate_policy_def selector_valid_def Let_def bindr_Inr_iff split: policy_kind.splits)

lemma resolve_complete:
  assumes "validate_complete ps = Inr ()"
  shows "\<exists>p. resolve ps obj pressure = Inr p"
  unfolding resolve_def
proof (rule resolve_tiers_total)
  fix m name
  assume "(m, name) \<in> set (tiers obj pressure)"
  then obtain k where "\<forall>p. m p \<longrightarrow> policy_selector_key p = k" using tier_selector by blast
  then have "length (filter m ps) \<le> length (filter (\<lambda>p. policy_selector_key p = k) ps)"
    by (intro length_filter_subset) auto
  also have "\<dots> \<le> 1" by (rule validate_complete_Inr [OF assms])
  finally show "length (filter m ps) \<le> 1" .
next
  show "tiers obj pressure \<noteq> []" by (simp add: tiers_def)
  show "filter (fst (last (tiers obj pressure))) ps \<noteq> []"
    using validate_complete_Inr(2) [OF assms] by (auto simp: tiers_def)
qed

lemma resolve_in:
  assumes "resolve ps obj pressure = Inr p"
  shows "p \<in> set ps" and "\<exists>m name. (m, name) \<in> set (tiers obj pressure) \<and> m p"
proof -
  from assms obtain i where i: "i < length (tiers obj pressure)"
      and f: "filter (fst (tiers obj pressure ! i)) ps = [p]"
    by (auto simp: resolve_def resolve_tiers_Inr)
  have "p \<in> set (filter (fst (tiers obj pressure ! i)) ps)" unfolding f by simp
  then show "p \<in> set ps" and "\<exists>m name. (m, name) \<in> set (tiers obj pressure) \<and> m p"
    using nth_mem [OF i] by (auto, metis prod.collapse)
qed

lemma resolve_emergency_critical:
  assumes "validate_complete ps = Inr ()" and "resolve ps obj pressure = Inr p" and "emergency p"
  shows "pressure = CriticalLevel"
proof -
  have v: "validate_policy p = Inr ()"
    using resolve_in(1) [OF assms(2)] validate_complete_Inr(1) [OF assms(1)] by blast
  then have "pol_kind p = KEmergency" "match_pressure p = Some CriticalLevel"
    using validated_emergency assms(3) by blast+
  then show ?thesis using resolve_in(2) [OF assms(2)] by (auto simp: tiers_def)
qed

text \<open>
  C13: a registry that passes the start-up check resolves every object under every pressure
  level to one of its validated policies, and to an emergency policy only under
  \<open>CRITICAL\<close> pressure.
\<close>

theorem complete_registry_resolves:
  assumes "validate_complete ps = Inr ()"
  shows "\<exists>p. resolve ps obj pressure = Inr p \<and> p \<in> set ps \<and> validate_policy p = Inr () \<and>
     (emergency p \<longrightarrow> pressure = CriticalLevel)"
proof -
  obtain p where p: "resolve ps obj pressure = Inr p" using resolve_complete [OF assms] by blast
  then show ?thesis
    using resolve_in(1) [OF p] validate_complete_Inr(1) [OF assms]
      resolve_emergency_critical [OF assms p] by blast
qed

lemma default_policies_valid:
  "validate_policy default_policy = Inr ()" "validate_policy emergency_policy = Inr ()"
proof -
  have "\<not> blank ''reclaim-default''" "\<not> blank ''reclaim-emergency''" "\<not> blank ''v1''" by code_simp+
  moreover have "fcontains (Fin 0) (Fin 1) (round64 (1 / 20))" "fcontains (Fin 0) (Fin 1) (round64 (1 / 2))"
    using round64_mono [of 0 "1 / 20"] round64_mono [of "1 / 20" 1]
      round64_mono [of 0 "1 / 2"] round64_mono [of "1 / 2" 1] by (simp_all add: fcontains_def)
  moreover have "validate_weights default_weights = Inr ()"
    by (simp add: validate_weights_iff weights_ok_default)
  ultimately show "validate_policy default_policy = Inr ()" "validate_policy emergency_policy = Inr ()"
    by (simp_all add: validate_policy_def default_policy_def emergency_policy_def selector_valid_def
        no_selectors_def)
qed

lemma with_defaults_complete: "validate_complete with_defaults = Inr ()"
  using default_policies_valid
  by (simp add: validate_complete_def with_defaults_def selector_map_def policy_selector_key_def
      unwrap_or_def) (simp add: default_policy_def emergency_policy_def)

theorem complete_registry_resolves_witness:
  "validate_complete with_defaults = Inr () \<and>
   (\<exists>p. resolve with_defaults sample_object High = Inr p \<and> p \<in> set with_defaults)"
  using with_defaults_complete
    complete_registry_resolves [OF with_defaults_complete, of sample_object High] by blast

subsection \<open>Decisions\<close>

definition decision_surface ::
  "policy \<Rightarrow> reclaim_object \<Rightarrow> pressure_level \<Rightarrow> int \<Rightarrow> decision_context \<Rightarrow> decision_components" where
  "decision_surface p obj pressure now ctx =
     evaluate (derive obj now (multiplier pressure)) (pol_weights p)
       (ctx_dependency_value ctx) (ctx_survivability_value ctx)"

lemma decide_Inr:
  assumes "decide ps obj pressure ep now ctx = Inr d"
  obtains p where "resolve ps obj pressure = Inr p" "validate_object obj = Inr ()"
    "validate_policy p = Inr ()"
    "validate_components (decision_surface p obj pressure now ctx) = Inr ()"
    "verdict (pd_decision d) = decision_verdict p obj (decision_surface p obj pressure now ctx)"
    "score (pd_decision d) = reclaim_score (decision_surface p obj pressure now ctx)"
    "threshold (pd_decision d) = reclaim_threshold p"
    "dec_policy_id (pd_decision d) = pol_id p" "dec_policy_version (pd_decision d) = pol_version p"
    "dec_epoch (pd_decision d) = ep" "object_snapshot d = obj"
  using assms by (auto simp: decide_def bindr_Inr_iff Let_def decision_surface_def)

lemma decide_verdict_iff:
  assumes "decide ps obj pressure ep now ctx = Inr d" and "resolve ps obj pressure = Inr p"
  shows "verdict (pd_decision d) = Reclaim \<longleftrightarrow>
     \<not> pinned obj \<and> \<not> protected obj \<and>
     fle (reclaim_threshold p) (score (pd_decision d)) \<and>
     fle (reuse_probability obj) (min_reuse_probability p)"
  using assms by (elim decide_Inr) (auto simp: decision_verdict_def)

text \<open>
  C8: a decision recommends to reclaim an object exactly when it is neither pinned nor
  protected, its score reaches the threshold of the policy that applies to it and its reuse
  probability does not exceed that policy's limit; otherwise it recommends to retain it. No
  policy, an emergency policy included, recommends to reclaim a pinned or protected object.
\<close>

theorem decide_reclaims_iff:
  assumes "decide ps obj pressure ep now ctx = Inr d"
  shows "\<exists>p. resolve ps obj pressure = Inr p \<and>
     dec_policy_id (pd_decision d) = pol_id p \<and> dec_policy_version (pd_decision d) = pol_version p \<and>
     verdict (pd_decision d) =
       (if \<not> pinned obj \<and> \<not> protected obj \<and>
           fle (reclaim_threshold p) (score (pd_decision d)) \<and>
           fle (reuse_probability obj) (min_reuse_probability p)
        then Reclaim else Retain)"
  using assms by (elim decide_Inr) (auto simp: decision_verdict_def)

lemma sample_inputs_valid:
  "validate_finite (sample_inputs (Fin 0) (Fin 64)) = Inr ()"
  "validate_finite (sample_inputs (Fin 192) (Fin 256)) = Inr ()"
  by (simp_all add: validate_finite_iff inputs_ok_def sample_inputs_def)

definition sample_context :: decision_context where
  "sample_context = \<lparr>ctx_dependency_value = Fin 0, ctx_survivability_value = Fin 0\<rparr>"

lemma resolve_sample: "pressure \<noteq> CriticalLevel \<Longrightarrow> resolve with_defaults sample_object pressure = Inr default_policy"
  by (auto simp: resolve_def tiers_def with_defaults_def default_policy_def emergency_policy_def
      unique_policy_def)

lemma decide_sample:
  assumes "pressure = Normal \<or> pressure = High"
  shows "\<exists>d. decide with_defaults sample_object pressure 1 5 sample_context = Inr d"
proof -
  have "resolve with_defaults sample_object pressure = Inr default_policy"
    using assms by (auto intro: resolve_sample)
  moreover have "pol_weights default_policy = default_weights" by (simp add: default_policy_def)
  ultimately show ?thesis
    using assms sample_object_ok default_policies_valid(1)
    by (auto simp: decide_def derive_sample sample_inputs_valid sample_context_def evaluate_sample
        Let_def)
qed

theorem decide_reclaims_iff_witness:
  "\<exists>d p. decide with_defaults sample_object High 1 5 sample_context = Inr d \<and>
     resolve with_defaults sample_object High = Inr p \<and> dec_policy_id (pd_decision d) = pol_id p"
proof -
  obtain d where d: "decide with_defaults sample_object High 1 5 sample_context = Inr d"
    using decide_sample [of High] by blast
  show ?thesis using decide_reclaims_iff [OF d] d by blast
qed

text \<open>Under the built-in policies more pressure only ever makes an object more reclaimable.\<close>

lemma default_tiers:
  "resolve with_defaults obj pressure =
     Inr (if pressure = CriticalLevel then emergency_policy else default_policy)"
  by (auto simp: resolve_def tiers_def with_defaults_def default_policy_def emergency_policy_def
      unique_policy_def)

lemma default_policy_limits:
  "fle (min_reuse_probability default_policy) (min_reuse_probability emergency_policy)"
  "pol_weights emergency_policy = pol_weights default_policy"
  "reclaim_threshold emergency_policy = reclaim_threshold default_policy"
  using round64_mono [of "1 / 20" "1 / 2"] by (simp_all add: default_policy_def emergency_policy_def)

text \<open>
  C14: with the built-in default and emergency policies, an object that is recommended for
  reclamation under one pressure level is recommended for reclamation under every higher
  level at which a decision is made.
\<close>

theorem default_verdict_pressure_mono:
  assumes "decide with_defaults obj l ep now ctx = Inr d"
    and "decide with_defaults obj l' ep' now ctx = Inr d'"
    and "l \<le> l'" and "verdict (pd_decision d) = Reclaim"
  shows "verdict (pd_decision d') = Reclaim"
proof -
  let ?p = "if l = CriticalLevel then emergency_policy else default_policy"
  let ?p' = "if l' = CriticalLevel then emergency_policy else default_policy"
  have r: "resolve with_defaults obj l = Inr ?p" "resolve with_defaults obj l' = Inr ?p'"
    by (simp_all only: default_tiers)
  have crit: "l = CriticalLevel \<Longrightarrow> l' = CriticalLevel"
    using assms(3) by (cases l') (auto simp: less_eq_pressure_level_def)
  from decide_verdict_iff [OF assms(1) r(1)] assms(4)
  have v: "\<not> pinned obj" "\<not> protected obj" "fle (reclaim_threshold ?p) (score (pd_decision d))"
    "fle (reuse_probability obj) (min_reuse_probability ?p)" by blast+
  have w: "pol_weights ?p = pol_weights default_policy" "pol_weights ?p' = pol_weights default_policy"
    by (simp_all add: default_policy_limits)
  have wok: "weights_ok (pol_weights default_policy)"
    by (simp add: default_policy_def weights_ok_default)
  have surf: "validate_object obj = Inr ()"
      "validate_components (decision_surface ?p obj l now ctx) = Inr ()"
      "score (pd_decision d) = reclaim_score (decision_surface ?p obj l now ctx)"
    using assms(1) r(1) by (auto elim!: decide_Inr)
  have surf': "validate_components (decision_surface ?p' obj l' now ctx) = Inr ()"
      "score (pd_decision d') = reclaim_score (decision_surface ?p' obj l' now ctx)"
    using assms(2) r(2) by (auto elim!: decide_Inr)
  have "fle (score (pd_decision d)) (score (pd_decision d'))"
    unfolding surf(3) surf'(2) decision_surface_def w
    by (rule reclaim_score_mono [OF _ wok assms(3)])
      (use surf(1,2) surf'(1) in \<open>simp_all only: validate_object_iff decision_surface_def w\<close>)
  moreover have "fle (min_reuse_probability ?p) (min_reuse_probability ?p')"
    using crit default_policy_limits(1) fle_not_nan [OF v(4)]
    by (auto simp: fle_refl)
  moreover have "reclaim_threshold ?p' = reclaim_threshold ?p"
    by (simp add: default_policy_limits)
  ultimately have "fle (reclaim_threshold ?p') (score (pd_decision d'))"
    "fle (reuse_probability obj) (min_reuse_probability ?p')"
    using v(3,4) fle_trans by metis+
  then show ?thesis using v(1,2) decide_verdict_iff [OF assms(2) r(2)] by blast
qed

theorem default_verdict_pressure_mono_witness:
  "\<exists>d d'. decide with_defaults sample_object Normal 1 5 sample_context = Inr d \<and>
     decide with_defaults sample_object High 1 5 sample_context = Inr d' \<and>
     verdict (pd_decision d) = Reclaim \<and> verdict (pd_decision d') = Reclaim"
proof -
  obtain d d' where d: "decide with_defaults sample_object Normal 1 5 sample_context = Inr d"
      and d': "decide with_defaults sample_object High 1 5 sample_context = Inr d'"
    using decide_sample by blast
  have "score (pd_decision d) = Fin 64"
    using d resolve_sample [of Normal]
    by (auto elim!: decide_Inr simp: decision_surface_def derive_sample sample_context_def
        default_policy_def evaluate_def default_weights_def sample_inputs_def f64_eval Let_def)
  then have v: "verdict (pd_decision d) = Reclaim"
    using round64_nonneg [of "1 / 20"]
    by (simp add: decide_verdict_iff [OF d resolve_sample] default_policy_def sample_object_def
        new_object_def)
  have "Normal \<le> High" by simp
  from default_verdict_pressure_mono [OF d d' this v] d d' v show ?thesis by blast
qed

end
