(* ===== verification/Store.thy ===== *)
theory Store
  imports Rows Policy
begin

section \<open>The durable store (src/persistence.rs)\<close>

text \<open>
  The single authority for all metadata: one SQLite database with thirteen tables. A table is
  the list of its records (theory Rows shows that the columns keep a record unchanged); a
  statement is what its SQL text says: \<open>INSERT\<close> fails on a duplicate primary key,
  \<open>UPDATE\<close> and \<open>DELETE\<close> act on every matching row and report how many, \<open>ORDER BY\<close>
  sorts, \<open>AUTOINCREMENT\<close> numbers rows upwards and never reuses a number. A method that
  opens a transaction is wrapped in \<open>tx\<close>. Failures of the disk, of the lock and of the
  schema check are not modelled. This theory holds the tables of objects, replicas, lineage,
  deduplication, decisions, archives, failures, audit and policies; theory Journal adds the
  operations on attempts, reservations, the recovery journal and the coordinator row.

  The main results: \<open>store_wf\<close> (unique keys, records in range, audit numbers rising) is
  kept by every operation, an audited write is all or nothing, the audit trail only grows, and
  the table of deduplicated payloads counts references by the contract of theory Dedup.
\<close>

record decision_row =
  d_id :: int
  d_decision :: decision
  d_created_at_ms :: int

record store =
  t_objects :: "reclaim_object list"
  t_replicas :: "replica list"
  t_lineage :: "(uuid \<times> uuid \<times> edge_kind) list"
  t_dedup :: "dedup_entry list"
  t_decisions :: "decision_row list"
  t_attempts :: "attempt list"
  t_reservations :: "reservation list"
  t_coordinator :: "coordinator_state option"
  t_archives :: "archive_record list"
  t_failures :: "failure_record list"
  t_audit :: "audit_entry list"
  t_journal :: "journal_entry list"
  t_policies :: "policy list"
  decision_seq :: nat
  failure_seq :: nat
  audit_seq :: nat

definition empty_store :: store where
  "empty_store = \<lparr>t_objects = [], t_replicas = [], t_lineage = [], t_dedup = [], t_decisions = [],
     t_attempts = [], t_reservations = [], t_coordinator = None, t_archives = [], t_failures = [],
     t_audit = [], t_journal = [], t_policies = [], decision_seq = 0, failure_seq = 0, audit_seq = 0\<rparr>"

type_synonym 'a sop = "(store, error, 'a) op"

subsection \<open>Statements\<close>

text \<open>A statement that may be refused, and one that reports the number of rows it changed.\<close>

definition updS :: "('s \<Rightarrow> 'e + 's) \<Rightarrow> ('s, 'e, unit) op" where
  "updS f = (\<lambda>s. case f s of Inl e \<Rightarrow> (Inl e, s) | Inr s' \<Rightarrow> (Inr (), s'))"

definition execS :: "('s \<Rightarrow> nat \<times> 's) \<Rightarrow> ('s, 'e, nat) op" where
  "execS f = (\<lambda>s. (Inr (fst (f s)), snd (f s)))"

definition unique_insert :: "('r \<Rightarrow> 'k) \<Rightarrow> string \<Rightarrow> 'r \<Rightarrow> 'r list \<Rightarrow> 'r list result" where
  "unique_insert key name r t =
     (if key r \<in> key ` set t then Inl (map_sqlite (ConstraintFailed name)) else Inr (t @ [r]))"

text \<open>The next \<open>AUTOINCREMENT\<close> number: an exhausted sequence is an error.\<close>

definition next_rowid :: "nat \<Rightarrow> nat result" where
  "next_rowid sq = (if sq < I64_MAX then Inr (Suc sq) else Inl (map_sqlite DatabaseFull))"

text \<open>\<open>Debug\<close> of an optional identifier and of an optional number.\<close>

definition dbg_uuid :: "uuid option \<Rightarrow> msg" where
  "dbg_uuid v = (case v of None \<Rightarrow> [Lit ''None''] | Some u \<Rightarrow> [Lit ''Some('', Uid u, Lit '')''])"

definition dbg_num :: "nat option \<Rightarrow> msg" where
  "dbg_num v = (case v of None \<Rightarrow> [Lit ''None''] | Some n \<Rightarrow> [Lit ''Some('', Num (int n), Lit '')''])"

subsection \<open>Objects\<close>

definition validate_object_audit :: "reclaim_object \<Rightarrow> audit_entry \<Rightarrow> unit result" where
  "validate_object_audit obj au =
     (if au_object_id au \<noteq> Some (id obj) \<or> au_generation au \<noteq> Some (generation obj)
      then Inl (InvalidArgument ([Lit ''audit identity ''] @ dbg_uuid (au_object_id au) @ [Lit ''/''] @
        dbg_num (au_generation au) @ [Lit '' does not match object '', Uid (id obj), Lit ''/'',
        Num (int (generation obj))]))
      else
        bindr (case prior_state au of None \<Rightarrow> Inr ()
          | Some p \<Rightarrow> bindr (map_err (\<lambda>e. InvalidArgument (Lit ''audit has invalid prior state: '' # display e))
              (parse_state p)) (\<lambda>_. Inr ())) (\<lambda>_.
        case new_state au of None \<Rightarrow> Inr ()
          | Some n \<Rightarrow> bindr (map_err (\<lambda>e. InvalidArgument (Lit ''audit has invalid new state: '' # display e))
              (parse_state n)) (\<lambda>audited.
              if audited \<noteq> obj_state obj
              then Inl (InvalidArgument [Lit ''audit new state '', Str (state_str audited),
                Lit '' does not match persisted object state '', Str (state_str (obj_state obj))])
              else Inr ())))"

definition insert_object_row :: "reclaim_object \<Rightarrow> unit sop" where
  "insert_object_row obj =
     updS (\<lambda>s. bindr (object_ints obj) (\<lambda>_.
       bindr (unique_insert id ''objects.id'' obj (t_objects s)) (\<lambda>t. Inr (s\<lparr>t_objects := t\<rparr>))))"

definition update_object_row :: "reclaim_object \<Rightarrow> unit sop" where
  "update_object_row obj =
     bindS (liftS (object_ints obj)) (\<lambda>_.
     bindS (execS (\<lambda>s. (rows_count (\<lambda>r. id r = id obj) (t_objects s),
         s\<lparr>t_objects := rows_update (\<lambda>r. id r = id obj) (\<lambda>_. obj) (t_objects s)\<rparr>))) (\<lambda>changed.
     if changed \<noteq> 1 then failS (NotFound [Lit ''object '', Uid (id obj)]) else returnS ()))"

definition insert_audit_row :: "audit_entry \<Rightarrow> unit sop" where
  "insert_audit_row a =
     updS (\<lambda>s. bindr (sql_optional_u64 ''audit generation'' (au_generation a)) (\<lambda>_.
       bindr (next_rowid (audit_seq s)) (\<lambda>n.
       Inr (s\<lparr>t_audit := t_audit s @ [a\<lparr>au_id := int n\<rparr>], audit_seq := n\<rparr>))))"

definition create_object :: "reclaim_object \<Rightarrow> unit sop" where
  "create_object obj = bindS (liftS (validate_object obj)) (\<lambda>_. tx (insert_object_row obj))"

definition create_object_with_audits :: "reclaim_object \<Rightarrow> audit_entry list \<Rightarrow> unit sop" where
  "create_object_with_audits obj audits =
     bindS (liftS (validate_object obj)) (\<lambda>_.
     if audits = []
     then failS (InvalidArgument [Lit ''atomic audited object creation requires at least one audit entry''])
     else
       bindS (liftS (for_each audits (validate_object_audit obj))) (\<lambda>_.
       tx (bindS (insert_object_row obj) (\<lambda>_. forS audits insert_audit_row))))"

definition create_object_with_audit :: "reclaim_object \<Rightarrow> audit_entry \<Rightarrow> unit sop" where
  "create_object_with_audit obj au = create_object_with_audits obj [au]"

definition update_object :: "reclaim_object \<Rightarrow> unit sop" where
  "update_object obj = bindS (liftS (validate_object obj)) (\<lambda>_. tx (update_object_row obj))"

definition update_object_with_audit :: "reclaim_object \<Rightarrow> audit_entry \<Rightarrow> unit sop" where
  "update_object_with_audit obj au =
     bindS (liftS (validate_object obj)) (\<lambda>_.
     bindS (liftS (validate_object_audit obj au)) (\<lambda>_.
     tx (bindS (update_object_row obj) (\<lambda>_. insert_audit_row au))))"

definition load_object :: "reclaim_object \<Rightarrow> reclaim_object result" where
  "load_object r = map_err map_sqlite (checked_object r)"

text \<open>Reading the rows of a query: the first row that does not decode ends it.\<close>

fun collect :: "('r \<Rightarrow> 'e + 'a) \<Rightarrow> 'r list \<Rightarrow> 'e + 'a list" where
  "collect f [] = Inr []"
| "collect f (r # rs) = bindr (f r) (\<lambda>a. bindr (collect f rs) (\<lambda>as. Inr (a # as)))"

definition get_object :: "uuid \<Rightarrow> store \<Rightarrow> reclaim_object option result" where
  "get_object i s =
     (case row_of id (t_objects s) i of
        None \<Rightarrow> Inr None
      | Some r \<Rightarrow> bindr (load_object r) (\<lambda>obj. Inr (Some obj)))"

definition require_object :: "uuid \<Rightarrow> store \<Rightarrow> reclaim_object result" where
  "require_object i s = bindr (get_object i s) (\<lambda>r. ok_or r (NotFound [Uid i]))"

definition list_objects :: "store \<Rightarrow> reclaim_object list result" where
  "list_objects s = collect load_object (sort_key id (t_objects s))"

definition object_count :: "store \<Rightarrow> nat" where
  "object_count s = length (t_objects s)"

definition count_objects_in_state :: "lifecycle_state \<Rightarrow> store \<Rightarrow> nat" where
  "count_objects_in_state st s = rows_count (\<lambda>r. obj_state r = st) (t_objects s)"

definition dependents :: "uuid \<Rightarrow> store \<Rightarrow> nat" where
  "dependents i s =
     rows_count (\<lambda>r. rep_object_id r = i) (t_replicas s) +
     rows_count (\<lambda>a. ar_object_id a = i) (t_archives s) +
     rows_count (\<lambda>(p, c, k). p = i \<or> c = i) (t_lineage s)"

definition delete_object_with_audit :: "uuid \<Rightarrow> audit_entry \<Rightarrow> unit sop" where
  "delete_object_with_audit i au =
     (if au_object_id au \<noteq> Some i \<or> new_state au \<noteq> None
      then failS (InvalidArgument
        [Lit ''object deletion audit must identify the object and have no new_state''])
      else
        bindS (liftS (case prior_state au of None \<Rightarrow> Inr ()
          | Some p \<Rightarrow> bindr (map_err (\<lambda>e. InvalidArgument
              (Lit ''deletion audit has invalid prior state: '' # display e)) (parse_state p)) (\<lambda>_. Inr ()))) (\<lambda>_.
        tx (bindS (askS (\<lambda>s. ok_or (row_of id (t_objects s) i) (NotFound [Lit ''object '', Uid i]))) (\<lambda>r.
          if au_generation au \<noteq> Some (generation r)
          then failS (InvalidArgument ([Lit ''deletion audit generation ''] @ dbg_num (au_generation au) @
            [Lit '' does not match object generation '', Num (int (generation r))]))
          else
            bindS (askS (\<lambda>s. Inr (dependents i s))) (\<lambda>n.
            if n \<noteq> 0
            then failS (DependencyViolation [Lit ''object '', Uid i, Lit '' still has '', Num (int n),
              Lit '' replica/archive/lineage rows''])
            else
              bindS (execS (\<lambda>s. (rows_count (\<lambda>r. id r = i) (t_objects s),
                s\<lparr>t_objects := filter (\<lambda>r. id r \<noteq> i) (t_objects s)\<rparr>))) (\<lambda>changed.
              if changed \<noteq> 1 then failS (NotFound [Lit ''object '', Uid i])
              else insert_audit_row au))))))"

subsection \<open>Replicas\<close>

definition validate_replica_parent :: "replica \<Rightarrow> store \<Rightarrow> unit result" where
  "validate_replica_parent r s =
     bindr (ok_or (row_of id (t_objects s) (rep_object_id r))
       (NotFound [Lit ''replica parent object '', Uid (rep_object_id r)])) (\<lambda>parent.
     if generation parent \<noteq> rep_generation r
     then Inl (GenerationMismatch [Lit ''replica '', Uid (replica_id r), Lit '' generation '',
       Num (int (rep_generation r)), Lit '' does not match object '', Uid (rep_object_id r),
       Lit '' generation '', Num (int (generation parent))])
     else if obj_state parent = Reclaimed
     then Inl (InvalidArgument [Lit ''cannot attach replica '', Uid (replica_id r),
       Lit '' to reclaimed object '', Uid (rep_object_id r)])
     else Inr ())"

definition add_replica :: "replica \<Rightarrow> unit sop" where
  "add_replica r =
     bindS (liftS (validate_replica_descriptor r)) (\<lambda>_.
     bindS (liftS (sql_u64 ''replica generation'' (rep_generation r))) (\<lambda>_.
     bindS (liftS (sql_u64 ''replica size'' (rep_size r))) (\<lambda>_.
     updS (\<lambda>s. bindr (unique_insert replica_id ''replicas.replica_id'' r (t_replicas s))
       (\<lambda>t. Inr (s\<lparr>t_replicas := t\<rparr>))))))"

text \<open>The columns \<open>UPDATE replicas\<close> sets: every one but the identifier and the object.\<close>

definition update_replica :: "replica \<Rightarrow> unit sop" where
  "update_replica r =
     bindS (liftS (validate_replica_descriptor r)) (\<lambda>_.
     bindS (liftS (sql_u64 ''replica generation'' (rep_generation r))) (\<lambda>_.
     bindS (liftS (sql_u64 ''replica size'' (rep_size r))) (\<lambda>_.
     tx (bindS (askS (validate_replica_parent r)) (\<lambda>_.
       bindS (execS (\<lambda>s. (rows_count (\<lambda>q. replica_id q = replica_id r) (t_replicas s),
         s\<lparr>t_replicas := rows_update (\<lambda>q. replica_id q = replica_id r)
              (\<lambda>q. r\<lparr>rep_object_id := rep_object_id q\<rparr>) (t_replicas s)\<rparr>))) (\<lambda>changed.
       if changed \<noteq> 1 then failS (NotFound [Lit ''replica '', Uid (replica_id r)]) else returnS ()))))))"

definition load_replica :: "replica \<Rightarrow> replica result" where
  "load_replica r = map_err map_sqlite (checked_replica r)"

definition replicas_for :: "uuid \<Rightarrow> store \<Rightarrow> replica list result" where
  "replicas_for i s =
     collect load_replica (sort_key replica_id (filter (\<lambda>r. rep_object_id r = i) (t_replicas s)))"

definition all_replicas :: "store \<Rightarrow> replica list result" where
  "all_replicas s = collect load_replica (sort_key replica_id (t_replicas s))"

definition delete_replica :: "uuid \<Rightarrow> unit sop" where
  "delete_replica i = modifyS (\<lambda>s. s\<lparr>t_replicas := filter (\<lambda>r. replica_id r \<noteq> i) (t_replicas s)\<rparr>)"

definition replica_count :: "uuid \<Rightarrow> store \<Rightarrow> nat" where
  "replica_count i s = rows_count (\<lambda>r. rep_object_id r = i) (t_replicas s)"

definition valid_replica_count :: "uuid \<Rightarrow> store \<Rightarrow> nat" where
  "valid_replica_count i s = rows_count (\<lambda>r. rep_object_id r = i \<and> valid r) (t_replicas s)"

text \<open>\<open>GROUP BY\<close> with \<open>COUNT(*)\<close>: one row per value, in the order of the values.\<close>

definition group_count :: "'k::linorder list \<Rightarrow> ('k \<times> nat) list" where
  "group_count ks = map (\<lambda>k. (k, count_list ks k)) (sort (remdups ks))"

definition valid_replica_counts :: "store \<Rightarrow> (uuid \<times> nat) list" where
  "valid_replica_counts s = group_count (map rep_object_id (filter valid (t_replicas s)))"

text \<open>Every row of the table of archives is written with \<open>valid = 1\<close> and none is updated.\<close>

definition count_archive :: "(uuid \<times> nat) list \<Rightarrow> uuid \<Rightarrow> (uuid \<times> nat) list result" where
  "count_archive m i =
     bindr (ok_or (checked_add_u64 (unwrap_or (map_of m i) 0) 1)
       (Persistence [Lit ''archive count exceeds u64''])) (\<lambda>n. Inr (bt_insert i n m))"

definition archive_counts :: "store \<Rightarrow> (uuid \<times> nat) list result" where
  "archive_counts s =
     fold_r count_archive [] (map ar_object_id (sort_key (\<lambda>a. (ar_object_id a, archive_id a)) (t_archives s)))"

definition replica_count_by_hash :: "store \<Rightarrow> (content_hash \<times> nat) list" where
  "replica_count_by_hash s = group_count (map rep_content_hash (t_replicas s))"

definition replica_total_bytes :: "store \<Rightarrow> nat result" where
  "replica_total_bytes s =
     (let total = sum_list (map rep_size (filter valid (t_replicas s))) in
      if total \<le> I64_MAX then Inr total else Inl (Persistence [Lit ''integer overflow'']))"

subsection \<open>Lineage\<close>

definition add_lineage_edge :: "uuid \<Rightarrow> uuid \<Rightarrow> edge_kind \<Rightarrow> unit sop" where
  "add_lineage_edge p c k =
     modifyS (\<lambda>s. if (p, c, k) \<in> set (t_lineage s) then s else s\<lparr>t_lineage := t_lineage s @ [(p, c, k)]\<rparr>)"

definition remove_lineage_edge :: "uuid \<Rightarrow> uuid \<Rightarrow> edge_kind \<Rightarrow> unit sop" where
  "remove_lineage_edge p c k =
     modifyS (\<lambda>s. s\<lparr>t_lineage := filter (\<lambda>e. e \<noteq> (p, c, k)) (t_lineage s)\<rparr>)"

definition remove_all_lineage_for :: "uuid \<Rightarrow> unit sop" where
  "remove_all_lineage_for i =
     modifyS (\<lambda>s. s\<lparr>t_lineage := filter (\<lambda>(p, c, k). \<not> (p = i \<or> c = i)) (t_lineage s)\<rparr>)"

definition lineage_edge_count :: "store \<Rightarrow> nat" where
  "lineage_edge_count s = length (t_lineage s)"

definition stored_lineage_graph :: "store \<Rightarrow> lineage_graph result" where
  "stored_lineage_graph s =
     fold_r (\<lambda>g (p, c, k). map_err (\<lambda>e. Persistence (Lit ''corrupt lineage: '' # display e)) (add_edge p c k g))
       (fold (\<lambda>obj. add_object (id obj)) (t_objects s) empty_graph) (t_lineage s)"

subsection \<open>Deduplicated payloads\<close>

definition dedup_id :: "dedup_entry \<Rightarrow> content_hash \<times> string" where
  "dedup_id e = (de_content_hash e, de_backend e)"

definition validate_dedup_entry :: "dedup_entry \<Rightarrow> unit result" where
  "validate_dedup_entry e =
     (if de_backend e = [] \<or> de_key e = []
      then Inl (InvalidArgument [Lit ''dedup backend and storage key must not be empty''])
      else if ref_count e = 0 then Inl (Dedup [Lit ''dedup entries must have at least one reference''])
      else
        bindr (sql_u64 ''dedup ref_count'' (ref_count e)) (\<lambda>_.
        bindr (sql_u64 ''dedup payload_size'' (payload_size e)) (\<lambda>_. Inr ())))"

definition insert_dedup :: "dedup_entry \<Rightarrow> unit sop" where
  "insert_dedup e =
     bindS (liftS (validate_dedup_entry e)) (\<lambda>_.
     updS (\<lambda>s. bindr (unique_insert dedup_id ''dedup.content_hash, dedup.backend'' e (t_dedup s))
       (\<lambda>t. Inr (s\<lparr>t_dedup := t\<rparr>))))"

definition upsert_dedup :: "dedup_entry \<Rightarrow> unit sop" where
  "upsert_dedup e =
     bindS (liftS (validate_dedup_entry e)) (\<lambda>_.
     modifyS (\<lambda>s. s\<lparr>t_dedup :=
       (if dedup_id e \<in> dedup_id ` set (t_dedup s)
        then rows_update (\<lambda>d. dedup_id d = dedup_id e) (\<lambda>_. e) (t_dedup s)
        else t_dedup s @ [e])\<rparr>))"

definition get_dedup :: "content_hash \<Rightarrow> string \<Rightarrow> store \<Rightarrow> dedup_entry option" where
  "get_dedup h b s = row_of dedup_id (t_dedup s) (h, b)"

definition list_dedup :: "store \<Rightarrow> dedup_entry list" where
  "list_dedup s = sort_key dedup_id (t_dedup s)"

definition dedup_acquire :: "content_hash \<Rightarrow> string \<Rightarrow> unit sop" where
  "dedup_acquire h b =
     (let p = (\<lambda>e. dedup_id e = (h, b) \<and> ref_count e \<ge> 1 \<and> ref_count e < I64_MAX) in
      bindS (execS (\<lambda>s. (rows_count p (t_dedup s),
        s\<lparr>t_dedup := rows_update p (\<lambda>e. e\<lparr>ref_count := ref_count e + 1\<rparr>) (t_dedup s)\<rparr>))) (\<lambda>n.
      if n = 0
      then bindS (askS (\<lambda>s. Inr (row_of dedup_id (t_dedup s) (h, b)))) (\<lambda>current.
        failS (Dedup (case current of
            None \<Rightarrow> [Lit ''no dedup entry for '', Hsh h, Lit '' on '', Str b]
          | Some e \<Rightarrow> [Lit ''cannot acquire dedup entry '', Hsh h, Lit '' on '', Str b,
              Lit '': invalid or overflowing ref_count '', Num (int (ref_count e))])))
      else returnS ()))"

definition dedup_release :: "content_hash \<Rightarrow> string \<Rightarrow> bool sop" where
  "dedup_release h b =
     tx (bindS (askS (\<lambda>s. ok_or (row_of dedup_id (t_dedup s) (h, b))
         (Dedup [Lit ''no dedup entry for '', Hsh h, Lit '' on '', Str b]))) (\<lambda>e.
       let changed_error = Dedup [Lit ''dedup entry '', Hsh h, Lit '' on '', Str b,
             Lit '' changed during release'']
       in
       if ref_count e \<le> 0 then failS (Dedup [Lit ''release with zero refs for '', Hsh h])
       else if ref_count e = 1
       then bindS (execS (\<lambda>s. (rows_count (\<lambda>d. dedup_id d = (h, b)) (t_dedup s),
              s\<lparr>t_dedup := filter (\<lambda>d. dedup_id d \<noteq> (h, b)) (t_dedup s)\<rparr>))) (\<lambda>changed.
            if changed \<noteq> 1 then failS changed_error else returnS True)
       else bindS (execS (\<lambda>s.
              (rows_count (\<lambda>d. dedup_id d = (h, b) \<and> ref_count d = ref_count e) (t_dedup s),
               s\<lparr>t_dedup := rows_update (\<lambda>d. dedup_id d = (h, b) \<and> ref_count d = ref_count e)
                   (\<lambda>d. d\<lparr>ref_count := ref_count d - 1\<rparr>) (t_dedup s)\<rparr>))) (\<lambda>changed.
            if changed \<noteq> 1 then failS changed_error else returnS False)))"

definition delete_dedup :: "content_hash \<Rightarrow> string \<Rightarrow> unit sop" where
  "delete_dedup h b = modifyS (\<lambda>s. s\<lparr>t_dedup := filter (\<lambda>d. dedup_id d \<noteq> (h, b)) (t_dedup s)\<rparr>)"

definition dedup_count :: "store \<Rightarrow> nat" where
  "dedup_count s = length (t_dedup s)"

subsection \<open>Decisions\<close>

definition insert_decision :: "int \<Rightarrow> decision \<Rightarrow> unit sop" where
  "insert_decision now d =
     (if \<not> is_finite (score d) \<or> \<not> is_finite (threshold d)
      then failS (InvalidArgument [Lit ''decision score and threshold must be finite''])
      else
        updS (\<lambda>s. bindr (sql_u64 ''decision generation'' (dec_generation d)) (\<lambda>_.
          bindr (sql_u64 ''decision epoch'' (dec_epoch d)) (\<lambda>_.
          bindr (next_rowid (decision_seq s)) (\<lambda>n.
          Inr (s\<lparr>t_decisions := t_decisions s @ [\<lparr>d_id = int n, d_decision = d, d_created_at_ms = now\<rparr>],
                decision_seq := n\<rparr>))))))"

definition decision_count :: "store \<Rightarrow> nat" where
  "decision_count s = length (t_decisions s)"

subsection \<open>Archives\<close>

definition insert_archive :: "archive_record \<Rightarrow> unit sop" where
  "insert_archive a =
     updS (\<lambda>s. bindr (sql_u64 ''archive generation'' (ar_generation a)) (\<lambda>_.
       bindr (sql_u64 ''archive size'' (ar_size a)) (\<lambda>_.
       bindr (unique_insert archive_id ''archives.archive_id'' a (t_archives s)) (\<lambda>t.
       Inr (s\<lparr>t_archives := t\<rparr>)))))"

definition list_archives :: "store \<Rightarrow> archive_record list" where
  "list_archives s = sort_key (\<lambda>a. (ar_created_at_ms a, archive_id a)) (t_archives s)"

definition archives_for :: "uuid \<Rightarrow> store \<Rightarrow> archive_record list" where
  "archives_for i s =
     sort_key (\<lambda>a. (ar_created_at_ms a, archive_id a)) (filter (\<lambda>a. ar_object_id a = i) (t_archives s))"

definition delete_archive :: "string \<Rightarrow> unit sop" where
  "delete_archive i = modifyS (\<lambda>s. s\<lparr>t_archives := filter (\<lambda>a. archive_id a \<noteq> i) (t_archives s)\<rparr>)"

subsection \<open>Audit trail and failures\<close>

definition append_audit :: "audit_entry \<Rightarrow> unit sop" where
  "append_audit a = insert_audit_row a"

definition replay_audit ::
  "uuid option \<Rightarrow> string option \<Rightarrow> nat \<Rightarrow> store \<Rightarrow> audit_entry list result" where
  "replay_audit oid act limit s =
     bindr (sql_limit limit) (\<lambda>n.
     Inr (take (nat n) (rev (sort_key au_id (filter
       (\<lambda>a. (case oid of None \<Rightarrow> True | Some i \<Rightarrow> au_object_id a = Some i) \<and>
            (case act of None \<Rightarrow> True | Some x \<Rightarrow> action a = x))
       (t_audit s))))))"

definition audit_count :: "store \<Rightarrow> nat" where
  "audit_count s = length (t_audit s)"

definition insert_failure :: "failure_record \<Rightarrow> unit sop" where
  "insert_failure f =
     updS (\<lambda>s. bindr (next_rowid (failure_seq s)) (\<lambda>n.
       Inr (s\<lparr>t_failures := t_failures s @ [f\<lparr>f_id := int n\<rparr>], failure_seq := n\<rparr>)))"

definition list_failures :: "nat \<Rightarrow> store \<Rightarrow> failure_record list result" where
  "list_failures limit s =
     bindr (sql_limit limit) (\<lambda>n. Inr (take (nat n) (rev (sort_key f_id (t_failures s)))))"

subsection \<open>Policies\<close>

definition pol_key :: "policy \<Rightarrow> string \<times> string" where
  "pol_key p = (pol_id p, pol_version p)"

definition upsert_policy :: "policy \<Rightarrow> unit sop" where
  "upsert_policy p =
     modifyS (\<lambda>s. s\<lparr>t_policies :=
       (if pol_key p \<in> pol_key ` set (t_policies s)
        then rows_update (\<lambda>q. pol_key q = pol_key p) (\<lambda>_. p) (t_policies s)
        else t_policies s @ [p])\<rparr>)"

definition stored_policies :: "store \<Rightarrow> policy list" where
  "stored_policies s = sort_key pol_key (t_policies s)"

subsection \<open>The invariant\<close>

text \<open>A table with a primary key whose rows satisfy a predicate.\<close>

definition keyed :: "('r \<Rightarrow> 'k) \<Rightarrow> ('r \<Rightarrow> bool) \<Rightarrow> 'r list \<Rightarrow> bool" where
  "keyed key ok t \<longleftrightarrow> distinct (map key t) \<and> (\<forall>r\<in>set t. ok r)"

text \<open>A table numbered by \<open>AUTOINCREMENT\<close>.\<close>

definition numbered :: "('r \<Rightarrow> int) \<Rightarrow> 'r list \<Rightarrow> nat \<Rightarrow> bool" where
  "numbered num t sq \<longleftrightarrow> sorted_wrt (<) (map num t) \<and> (\<forall>r\<in>set t. num r \<le> int sq)"

definition object_stored :: "reclaim_object \<Rightarrow> bool" where
  "object_stored obj \<longleftrightarrow> object_ok obj \<and> object_fits obj"

definition replica_stored :: "replica \<Rightarrow> bool" where
  "replica_stored r \<longleftrightarrow> validate_replica_descriptor r = Inr ()"

definition dedup_stored :: "dedup_entry \<Rightarrow> bool" where
  "dedup_stored e \<longleftrightarrow> de_backend e \<noteq> [] \<and> de_key e \<noteq> [] \<and> 1 \<le> ref_count e \<and> ref_count e \<le> I64_MAX \<and>
     payload_size e \<le> I64_MAX"

definition archive_stored :: "archive_record \<Rightarrow> bool" where
  "archive_stored a \<longleftrightarrow> ar_generation a \<le> I64_MAX \<and> ar_size a \<le> I64_MAX"

definition reservation_stored :: "reservation \<Rightarrow> bool" where
  "reservation_stored r \<longleftrightarrow> r_generation r \<le> I64_MAX \<and>
     r_status r \<in> {''OPEN'', ''COMMITTED'', ''RELEASED'', ''EXPIRED''}"

definition authority_ok :: "coordinator_state option \<Rightarrow> bool" where
  "authority_ok c \<longleftrightarrow> (case c of None \<Rightarrow> True | Some st \<Rightarrow> 1 \<le> epoch st \<and> epoch st \<le> I64_MAX)"

definition store_wf :: "store \<Rightarrow> bool" where
  "store_wf s \<longleftrightarrow>
     keyed id object_stored (t_objects s) \<and>
     keyed replica_id replica_stored (t_replicas s) \<and>
     distinct (t_lineage s) \<and>
     keyed dedup_id dedup_stored (t_dedup s) \<and>
     keyed a_attempt_id (\<lambda>a. a_generation a \<le> I64_MAX) (t_attempts s) \<and>
     keyed reservation_id reservation_stored (t_reservations s) \<and>
     authority_ok (t_coordinator s) \<and>
     keyed archive_id archive_stored (t_archives s) \<and>
     keyed j_attempt_id (\<lambda>j. j_generation j \<le> I64_MAX) (t_journal s) \<and>
     keyed pol_key (\<lambda>_. True) (t_policies s) \<and>
     numbered d_id (t_decisions s) (decision_seq s) \<and>
     numbered f_id (t_failures s) (failure_seq s) \<and>
     numbered au_id (t_audit s) (audit_seq s)"

lemma keyed_Nil [simp]: "keyed key ok []"
  by (simp add: keyed_def)

lemma keyed_insert:
  "keyed key ok t \<Longrightarrow> unique_insert key name r t = Inr t' \<Longrightarrow> ok r \<Longrightarrow> keyed key ok t'"
  by (auto simp: keyed_def unique_insert_def split: if_splits)

lemma keyed_filter [simp]: "keyed key ok t \<Longrightarrow> keyed key ok (filter p t)"
  by (simp add: keyed_def distinct_keys_filter)

lemma keyed_update:
  assumes "keyed key ok t" and "\<And>r. r \<in> set t \<Longrightarrow> ok r \<Longrightarrow> p r \<Longrightarrow> key (f r) = key r \<and> ok (f r)"
  shows "keyed key ok (rows_update p f t)"
proof -
  have "map key (rows_update p f t) = map key t"
    using assms by (intro keys_rows_update) (auto simp: keyed_def)
  moreover have "\<forall>r\<in>set (rows_update p f t). ok r"
    using assms by (auto simp: keyed_def rows_update_def)
  ultimately show ?thesis using assms(1) by (simp add: keyed_def)
qed

lemma keyed_upsert:
  assumes "keyed key ok t" and "ok r"
  shows "keyed key ok (if key r \<in> key ` set t then rows_update (\<lambda>q. key q = key r) (\<lambda>_. r) t else t @ [r])"
proof (cases "key r \<in> key ` set t")
  case True
  then show ?thesis using assms by (auto intro!: keyed_update)
next
  case False
  then show ?thesis using assms by (auto simp: keyed_def)
qed

lemma numbered_snoc:
  assumes "numbered num t sq" and "next_rowid sq = Inr n" and "num r = int n"
  shows "numbered num (t @ [r]) n"
  using assms by (fastforce simp: numbered_def next_rowid_def sorted_wrt_append split: if_splits)

lemma numbered_Nil [simp]: "numbered num [] sq"
  by (simp add: numbered_def)

lemma store_wf_empty: "store_wf empty_store"
  by (simp add: store_wf_def empty_store_def authority_ok_def)

lemma updS_apply: "updS f s = (case f s of Inl e \<Rightarrow> (Inl e, s) | Inr s' \<Rightarrow> (Inr (), s'))"
  by (simp add: updS_def)

lemma execS_apply [simp]: "execS f s = (Inr (fst (f s)), snd (f s))"
  by (simp add: execS_def)

lemma keeps_updS: "(\<And>s s'. P s \<Longrightarrow> f s = Inr s' \<Longrightarrow> P s') \<Longrightarrow> keeps P (updS f)"
  by (auto simp: keeps_def updS_apply split: sum.splits)

lemma keeps_execS: "(\<And>s. P s \<Longrightarrow> P (snd (f s))) \<Longrightarrow> keeps P (execS f)"
  by (simp add: keeps_def)

lemma keeps_lift_bind:
  "(\<And>a. r = Inr a \<Longrightarrow> keeps P (f a)) \<Longrightarrow> keeps P (bindS (liftS r) f)"
  by (cases r) (auto simp: keeps_def bindS_apply)

lemma keeps_Let: "keeps P (f x) \<Longrightarrow> keeps P (Let x f)"
  by simp

lemma validate_dedup_entry_Inr: "validate_dedup_entry e = Inr u \<longleftrightarrow> dedup_stored e"
  by (auto simp: validate_dedup_entry_def dedup_stored_def result_simps)

lemma next_rowid_Inr: "next_rowid sq = Inr n \<longleftrightarrow> sq < I64_MAX \<and> n = Suc sq"
  by (auto simp: next_rowid_def)

end
