(* ===== verification/Invariants.thy ===== *)
theory Invariants
  imports Journal
begin

section \<open>What every sequence of store operations keeps\<close>

text \<open>
  Each operation of the store is a sequence of statements, and each statement changes one
  table in one of a few ways (\<open>objects_stmt\<close> and its siblings). A property of the store
  that these ways keep is kept by every operation, and so by every reachable store: that is
  the locale \<open>store_invariant\<close>, whose lemmas are proved once. It is interpreted for the
  well-formedness of the tables, for the audit trail, for the rows of the journal, of the
  attempts and of the reservations, and for the coordinator row.
\<close>

subsection \<open>The statements of each table\<close>

inductive objects_stmt :: "reclaim_object list \<Rightarrow> reclaim_object list \<Rightarrow> bool" where
  ins: "object_stored obj \<Longrightarrow> unique_insert id n obj t = Inr t' \<Longrightarrow> objects_stmt t t'"
| upd: "object_stored obj \<Longrightarrow> objects_stmt t (rows_update (\<lambda>r. id r = id obj) (\<lambda>_. obj) t)"
| del: "objects_stmt t (filter p t)"

inductive replicas_stmt :: "replica list \<Rightarrow> replica list \<Rightarrow> bool" where
  ins: "replica_stored r \<Longrightarrow> unique_insert replica_id n r t = Inr t' \<Longrightarrow> replicas_stmt t t'"
| upd: "replica_stored r \<Longrightarrow> replicas_stmt t
     (rows_update (\<lambda>q. replica_id q = replica_id r) (\<lambda>q. r\<lparr>rep_object_id := rep_object_id q\<rparr>) t)"
| del: "replicas_stmt t (filter p t)"

inductive lineage_stmt :: "(uuid \<times> uuid \<times> edge_kind) list \<Rightarrow> (uuid \<times> uuid \<times> edge_kind) list \<Rightarrow> bool" where
  ins: "e \<notin> set t \<Longrightarrow> lineage_stmt t (t @ [e])"
| del: "lineage_stmt t (filter p t)"

inductive dedup_stmt :: "dedup_entry list \<Rightarrow> dedup_entry list \<Rightarrow> bool" where
  ins: "dedup_stored e \<Longrightarrow> unique_insert dedup_id n e t = Inr t' \<Longrightarrow> dedup_stmt t t'"
| upd: "dedup_stored e \<Longrightarrow> dedup_stmt t (rows_update (\<lambda>d. dedup_id d = dedup_id e) (\<lambda>_. e) t)"
| incr: "(\<And>d. p d \<Longrightarrow> ref_count d < I64_MAX) \<Longrightarrow>
     dedup_stmt t (rows_update p (\<lambda>d. d\<lparr>ref_count := ref_count d + 1\<rparr>) t)"
| decr: "(\<And>d. p d \<Longrightarrow> 1 < ref_count d) \<Longrightarrow>
     dedup_stmt t (rows_update p (\<lambda>d. d\<lparr>ref_count := ref_count d - 1\<rparr>) t)"
| del: "dedup_stmt t (filter p t)"

inductive attempts_stmt :: "attempt list \<Rightarrow> attempt list \<Rightarrow> bool" where
  ins: "a_generation a \<le> I64_MAX \<Longrightarrow> unique_insert a_attempt_id n a t = Inr t' \<Longrightarrow> attempts_stmt t t'"
| close: "attempts_stmt t (rows_update (\<lambda>a. a_attempt_id a = i \<and> a_status a = AOpen)
     (\<lambda>a. a\<lparr>a_status := st, a_updated_at_ms := now\<rparr>) t)"

inductive reservations_stmt :: "reservation list \<Rightarrow> reservation list \<Rightarrow> bool" where
  ins: "reservation_stored r \<Longrightarrow> unique_insert reservation_id n r t = Inr t' \<Longrightarrow> reservations_stmt t t'"
| close: "(\<And>r. p r \<Longrightarrow> r_status r = ''OPEN'') \<Longrightarrow> st \<in> {''OPEN'', ''COMMITTED'', ''RELEASED'', ''EXPIRED''} \<Longrightarrow>
     reservations_stmt t (rows_update p (\<lambda>r. r\<lparr>r_status := st\<rparr>) t)"

inductive coordinator_stmt :: "coordinator_state option \<Rightarrow> coordinator_state option \<Rightarrow> bool" where
  claim: "epoch st' = 1 \<Longrightarrow> coordinator_stmt None (Some st')"
| takeover: "epoch st' = epoch st + 1 \<Longrightarrow> epoch st' \<le> I64_MAX \<Longrightarrow> coordinator_stmt (Some st) (Some st')"
| seen: "coordinator_stmt (Some st) (Some (st\<lparr>last_seen_ms := l\<rparr>))"

inductive archives_stmt :: "archive_record list \<Rightarrow> archive_record list \<Rightarrow> bool" where
  ins: "archive_stored a \<Longrightarrow> unique_insert archive_id n a t = Inr t' \<Longrightarrow> archives_stmt t t'"
| del: "archives_stmt t (filter p t)"

inductive journal_stmt :: "journal_entry list \<Rightarrow> journal_entry list \<Rightarrow> bool" where
  ins: "j_generation j \<le> I64_MAX \<Longrightarrow> unique_insert j_attempt_id n j t = Inr t' \<Longrightarrow> journal_stmt t t'"
| phase: "allowed_prior ph = Inr prior \<Longrightarrow>
     journal_stmt t (rows_update (\<lambda>j. j_attempt_id j = i \<and> j_phase j \<in> set prior)
       (\<lambda>j. j\<lparr>j_phase := ph, j_updated_at_ms := now\<rparr>) t)"
| start: "physical_plan_ok p \<Longrightarrow>
     journal_stmt t (rows_update (\<lambda>j. j_attempt_id j = i \<and> j_phase j = Validated)
       (\<lambda>j. j\<lparr>j_payload := p, j_phase := PhysicalStarted, j_updated_at_ms := now\<rparr>) t)"

inductive policies_stmt :: "policy list \<Rightarrow> policy list \<Rightarrow> bool" where
  put: "policies_stmt t (if pol_key p \<in> pol_key ` set t
     then rows_update (\<lambda>q. pol_key q = pol_key p) (\<lambda>_. p) t else t @ [p])"

subsection \<open>Invariants\<close>

locale store_invariant =
  fixes P :: "store \<Rightarrow> bool"
  assumes objects: "P s \<Longrightarrow> objects_stmt (t_objects s) t1 \<Longrightarrow> P (s\<lparr>t_objects := t1\<rparr>)"
    and replicas: "P s \<Longrightarrow> replicas_stmt (t_replicas s) t2 \<Longrightarrow> P (s\<lparr>t_replicas := t2\<rparr>)"
    and lineage: "P s \<Longrightarrow> lineage_stmt (t_lineage s) t3 \<Longrightarrow> P (s\<lparr>t_lineage := t3\<rparr>)"
    and dedup: "P s \<Longrightarrow> dedup_stmt (t_dedup s) t4 \<Longrightarrow> P (s\<lparr>t_dedup := t4\<rparr>)"
    and attempts: "P s \<Longrightarrow> attempts_stmt (t_attempts s) t5 \<Longrightarrow> P (s\<lparr>t_attempts := t5\<rparr>)"
    and reservations: "P s \<Longrightarrow> reservations_stmt (t_reservations s) t6 \<Longrightarrow> P (s\<lparr>t_reservations := t6\<rparr>)"
    and coordinator: "P s \<Longrightarrow> coordinator_stmt (t_coordinator s) c \<Longrightarrow> P (s\<lparr>t_coordinator := c\<rparr>)"
    and archives: "P s \<Longrightarrow> archives_stmt (t_archives s) t7 \<Longrightarrow> P (s\<lparr>t_archives := t7\<rparr>)"
    and journal: "P s \<Longrightarrow> journal_stmt (t_journal s) t8 \<Longrightarrow> P (s\<lparr>t_journal := t8\<rparr>)"
    and policies: "P s \<Longrightarrow> policies_stmt (t_policies s) t9 \<Longrightarrow> P (s\<lparr>t_policies := t9\<rparr>)"
    and decisions: "P s \<Longrightarrow> next_rowid (decision_seq s) = Inr n \<Longrightarrow> d_id d = int n \<Longrightarrow>
      P (s\<lparr>t_decisions := t_decisions s @ [d], decision_seq := n\<rparr>)"
    and failures: "P s \<Longrightarrow> next_rowid (failure_seq s) = Inr n \<Longrightarrow> f_id f = int n \<Longrightarrow>
      P (s\<lparr>t_failures := t_failures s @ [f], failure_seq := n\<rparr>)"
    and audit: "P s \<Longrightarrow> next_rowid (audit_seq s) = Inr n \<Longrightarrow> au_id a = int n \<Longrightarrow>
      P (s\<lparr>t_audit := t_audit s @ [a], audit_seq := n\<rparr>)"
begin

lemma k_insert_object_row: "object_ok obj \<Longrightarrow> keeps P (insert_object_row obj)"
  unfolding insert_object_row_def
  by (rule keeps_updS)
    (auto simp: bindr_Inr_iff object_ints_Inr object_stored_def intro!: objects objects_stmt.intros)

lemma k_update_object_row: "object_ok obj \<Longrightarrow> keeps P (update_object_row obj)"
  unfolding update_object_row_def
  by (rule keeps_lift_bind, intro keeps_intros keeps_execS)
    (auto simp: object_ints_Inr object_stored_def intro!: objects objects_stmt.intros)

lemma k_insert_audit_row: "keeps P (insert_audit_row a)"
  unfolding insert_audit_row_def
  by (rule keeps_updS) (auto simp: bindr_Inr_iff intro!: audit)

lemma k_create_object: "keeps P (create_object obj)"
  unfolding create_object_def
  by (rule keeps_lift_bind) (simp add: validate_object_iff keeps_tx k_insert_object_row)

lemma k_create_object_with_audits: "keeps P (create_object_with_audits obj as)"
  unfolding create_object_with_audits_def
  by (rule keeps_lift_bind)
    (auto simp: validate_object_iff intro!: keeps_intros k_insert_object_row k_insert_audit_row)

lemma k_create_object_with_audit: "keeps P (create_object_with_audit obj a)"
  unfolding create_object_with_audit_def by (rule k_create_object_with_audits)

lemma k_update_object: "keeps P (update_object obj)"
  unfolding update_object_def
  by (rule keeps_lift_bind) (simp add: validate_object_iff keeps_tx k_update_object_row)

lemma k_update_object_with_audit: "keeps P (update_object_with_audit obj a)"
  unfolding update_object_with_audit_def
  by (rule keeps_lift_bind)
    (auto simp: validate_object_iff intro!: keeps_intros k_update_object_row k_insert_audit_row)

lemma k_delete_object_with_audit: "keeps P (delete_object_with_audit i a)"
  unfolding delete_object_with_audit_def
  by (intro keeps_intros keeps_execS k_insert_audit_row) (auto intro!: objects objects_stmt.intros)

lemma k_add_replica: "keeps P (add_replica r)"
  unfolding add_replica_def
  by (rule keeps_lift_bind, intro keeps_intros keeps_updS)
    (auto simp: bindr_Inr_iff replica_stored_def intro!: replicas replicas_stmt.intros)

lemma k_update_replica: "keeps P (update_replica r)"
  unfolding update_replica_def
  by (rule keeps_lift_bind, intro keeps_intros keeps_execS)
    (auto simp: replica_stored_def intro!: replicas replicas_stmt.intros)

lemma k_delete_replica: "keeps P (delete_replica i)"
  unfolding delete_replica_def
  by (rule keeps_modify) (auto intro!: replicas replicas_stmt.intros)

lemma k_add_lineage_edge: "keeps P (add_lineage_edge p c k)"
  unfolding add_lineage_edge_def
  by (rule keeps_modify) (auto intro!: lineage lineage_stmt.intros)

lemma k_remove_lineage_edge: "keeps P (remove_lineage_edge p c k)"
  unfolding remove_lineage_edge_def
  by (rule keeps_modify) (auto intro!: lineage lineage_stmt.intros)

lemma k_remove_all_lineage_for: "keeps P (remove_all_lineage_for i)"
  unfolding remove_all_lineage_for_def
  by (rule keeps_modify) (auto intro!: lineage lineage_stmt.intros)

lemma k_insert_dedup: "keeps P (insert_dedup e)"
  unfolding insert_dedup_def
  by (rule keeps_lift_bind, intro keeps_intros keeps_updS)
    (auto simp: bindr_Inr_iff validate_dedup_entry_Inr intro!: dedup dedup_stmt.intros)

lemma k_upsert_dedup: "keeps P (upsert_dedup e)"
  unfolding upsert_dedup_def
proof (rule keeps_lift_bind, rule keeps_modify)
  fix u s
  assume "validate_dedup_entry e = Inr u" and "P s"
  then have e: "dedup_stored e" and s: "P s" by (simp_all add: validate_dedup_entry_Inr)
  show "P (s\<lparr>t_dedup := (if dedup_id e \<in> dedup_id ` set (t_dedup s)
      then rows_update (\<lambda>d. dedup_id d = dedup_id e) (\<lambda>_. e) (t_dedup s) else t_dedup s @ [e])\<rparr>)"
  proof (cases "dedup_id e \<in> dedup_id ` set (t_dedup s)")
    case True
    have "dedup_stmt (t_dedup s) (rows_update (\<lambda>d. dedup_id d = dedup_id e) (\<lambda>_. e) (t_dedup s))"
      using e by (rule dedup_stmt.upd)
    from dedup [OF s this] show ?thesis using True by simp
  next
    case False
    then have "unique_insert dedup_id [] e (t_dedup s) = Inr (t_dedup s @ [e])" by (simp add: unique_insert_def)
    from dedup [OF s dedup_stmt.ins [OF e this]] show ?thesis using False by simp
  qed
qed

lemma k_dedup_acquire: "keeps P (dedup_acquire h b)"
  unfolding dedup_acquire_def Let_def
  by (intro keeps_intros keeps_execS)
    (auto intro!: dedup dedup_stmt.incr [where p = "\<lambda>e. dedup_id e = (h, b) \<and> 1 \<le> ref_count e \<and>
      ref_count e < I64_MAX", simplified])

lemma k_dedup_release: "keeps P (dedup_release h b)"
proof -
  have "P (s\<lparr>t_dedup := rows_update (\<lambda>d. dedup_id d = (h, b) \<and> ref_count d = n)
      (\<lambda>d. d\<lparr>ref_count := ref_count d - 1\<rparr>) (t_dedup s)\<rparr>)" if "P s" "n \<noteq> 0" "n \<noteq> 1" for s n
    using that by (intro dedup dedup_stmt.decr) auto
  moreover have "P (s\<lparr>t_dedup := filter q (t_dedup s)\<rparr>)" if "P s" for s q
    using that by (intro dedup dedup_stmt.del)
  ultimately show ?thesis
    unfolding dedup_release_def Let_def by (intro keeps_intros keeps_execS) auto
qed

lemma k_delete_dedup: "keeps P (delete_dedup h b)"
  unfolding delete_dedup_def
  by (rule keeps_modify) (auto intro!: dedup dedup_stmt.intros)

lemma k_insert_decision: "keeps P (insert_decision now d)"
  unfolding insert_decision_def
  by (intro keeps_intros keeps_updS) (auto simp: bindr_Inr_iff intro!: decisions)

lemma k_insert_archive: "keeps P (insert_archive a)"
  unfolding insert_archive_def
  by (rule keeps_updS)
    (auto simp: bindr_Inr_iff sql_u64_Inr archive_stored_def intro!: archives archives_stmt.intros)

lemma k_delete_archive: "keeps P (delete_archive i)"
  unfolding delete_archive_def
  by (rule keeps_modify) (auto intro!: archives archives_stmt.intros)

lemma k_append_audit: "keeps P (append_audit a)"
  unfolding append_audit_def by (rule k_insert_audit_row)

lemma k_insert_failure: "keeps P (insert_failure f)"
  unfolding insert_failure_def
  by (rule keeps_updS) (auto simp: bindr_Inr_iff intro!: failures)

lemma k_upsert_policy: "keeps P (upsert_policy p)"
  unfolding upsert_policy_def
  by (rule keeps_modify, rule policies) (assumption, rule policies_stmt.put)

lemma k_create_attempt: "keeps P (create_attempt a)"
  unfolding create_attempt_def
  by (rule keeps_updS) (auto simp: bindr_Inr_iff sql_u64_Inr intro!: attempts attempts_stmt.intros)

lemma k_close_attempt: "keeps P (close_attempt i st now)"
  unfolding close_attempt_def Let_def
  by (rule keeps_execS) (auto intro!: attempts attempts_stmt.intros)

lemma k_update_attempt: "keeps P (update_attempt i st now)"
  unfolding update_attempt_def by (intro keeps_intros k_close_attempt)

lemma k_reconcile_attempt: "keeps P (reconcile_attempt i st now)"
  unfolding reconcile_attempt_def by (intro keeps_intros k_close_attempt)

lemma k_create_reservation: "keeps P (create_reservation r)"
  unfolding create_reservation_def
  by (intro keeps_intros keeps_updS)
    (auto simp: bindr_Inr_iff sql_u64_Inr reservation_stored_def intro!: reservations reservations_stmt.intros)

lemma open_rows_update:
  assumes "validate_reservation_status st = Inr u" and "\<And>r. p r \<Longrightarrow> r_status r = ''OPEN''"
  shows "reservations_stmt t (rows_update p (\<lambda>r. r\<lparr>r_status := st\<rparr>) t)"
  using assms by (intro reservations_stmt.close) (auto simp: validate_reservation_status_def split: if_splits)

lemma k_update_reservation: "keeps P (update_reservation i st)"
  unfolding update_reservation_def Let_def
  by (rule keeps_lift_bind, intro keeps_intros keeps_execS) (auto intro!: reservations open_rows_update)

lemma k_update_reservation_for_attempt: "keeps P (update_reservation_for_attempt i st)"
  unfolding update_reservation_for_attempt_def
  by (rule keeps_lift_bind, rule keeps_modify) (auto intro!: reservations open_rows_update)

lemma k_insert_journal: "keeps P (insert_journal e)"
  unfolding insert_journal_def
  by (rule keeps_updS) (auto simp: bindr_Inr_iff sql_u64_Inr intro!: journal journal_stmt.intros)

lemma k_create_reclaim_reservation: "keeps P (create_reclaim_reservation j r a)"
proof (cases "j_generation j \<le> I64_MAX \<and> a_generation a = j_generation j \<and> r_generation r = j_generation j
    \<and> r_status r = ''OPEN''")
  case True
  then show ?thesis
    unfolding create_reclaim_reservation_def
    by (intro keeps_intros keeps_updS)
      (auto simp: bindr_Inr_iff reservation_stored_def
        intro!: attempts reservations journal attempts_stmt.ins reservations_stmt.ins journal_stmt.ins)
next
  case False
  then have "snd (create_reclaim_reservation j r a s) = s" for s
    by (auto simp: create_reclaim_reservation_def bindS_apply sql_u64_def split: sum.splits)
  then show ?thesis by (simp add: keeps_def)
qed

lemma k_update_journal_phase: "keeps P (update_journal_phase i ph now)"
  unfolding update_journal_phase_def Let_def
  by (rule keeps_lift_bind, intro keeps_intros keeps_execS) (auto intro!: journal journal_stmt.intros)

lemma k_start_journal_physical: "keeps P (start_journal_physical i p now)"
  unfolding start_journal_physical_def Let_def
  by (intro keeps_intros keeps_execS) (auto intro!: journal journal_stmt.intros)

lemma k_claim_coordinator: "keeps P (claim_coordinator pid boot now stale)"
  unfolding keeps_def claim_coordinator_def
  by (auto simp: bindS_apply tx_def checked_add_u64_def sql_u64_def
      split: option.splits if_splits intro!: coordinator coordinator_stmt.claim coordinator_stmt.takeover)

lemma k_update_authority:
  "(\<And>st. \<exists>l. f st = st\<lparr>last_seen_ms := l\<rparr>) \<Longrightarrow> keeps P (update_authority pid boot ep f)"
  unfolding update_authority_def
  by (rule keeps_execS)
    (auto split: option.splits intro!: coordinator, metis coordinator_stmt.seen)

lemma k_coordinator_heartbeat: "keeps P (coordinator_heartbeat pid boot ep now)"
  unfolding coordinator_heartbeat_def by (intro keeps_intros k_update_authority) auto

lemma k_release_coordinator: "keeps P (release_coordinator pid boot ep)"
  unfolding release_coordinator_def by (intro keeps_intros k_update_authority) auto

lemmas k_store_ops = k_create_object k_create_object_with_audits k_create_object_with_audit
  k_update_object k_update_object_with_audit k_delete_object_with_audit k_add_replica k_update_replica
  k_delete_replica k_add_lineage_edge k_remove_lineage_edge k_remove_all_lineage_for k_insert_dedup
  k_upsert_dedup k_dedup_acquire k_dedup_release k_delete_dedup k_insert_decision k_insert_archive
  k_delete_archive k_append_audit k_insert_failure k_upsert_policy k_create_attempt k_update_attempt
  k_reconcile_attempt k_create_reservation k_update_reservation k_update_reservation_for_attempt
  k_insert_journal k_create_reclaim_reservation k_update_journal_phase k_start_journal_physical
  k_claim_coordinator k_coordinator_heartbeat k_release_coordinator

end

subsection \<open>Sequences of operations\<close>

inductive store_step :: "store \<Rightarrow> store \<Rightarrow> bool" where
  "store_step s (snd (create_object obj s))"
| "store_step s (snd (create_object_with_audits obj as s))"
| "store_step s (snd (create_object_with_audit obj au s))"
| "store_step s (snd (update_object obj s))"
| "store_step s (snd (update_object_with_audit obj au s))"
| "store_step s (snd (delete_object_with_audit i au s))"
| "store_step s (snd (add_replica r s))"
| "store_step s (snd (update_replica r s))"
| "store_step s (snd (delete_replica i s))"
| "store_step s (snd (add_lineage_edge p c k s))"
| "store_step s (snd (remove_lineage_edge p c k s))"
| "store_step s (snd (remove_all_lineage_for i s))"
| "store_step s (snd (insert_dedup e s))"
| "store_step s (snd (upsert_dedup e s))"
| "store_step s (snd (dedup_acquire h b s))"
| "store_step s (snd (dedup_release h b s))"
| "store_step s (snd (delete_dedup h b s))"
| "store_step s (snd (insert_decision now d s))"
| "store_step s (snd (insert_archive ar s))"
| "store_step s (snd (delete_archive x s))"
| "store_step s (snd (append_audit au s))"
| "store_step s (snd (insert_failure f s))"
| "store_step s (snd (upsert_policy pol s))"
| "store_step s (snd (create_attempt a s))"
| "store_step s (snd (update_attempt i st now s))"
| "store_step s (snd (reconcile_attempt i st now s))"
| "store_step s (snd (create_reservation res s))"
| "store_step s (snd (update_reservation i x s))"
| "store_step s (snd (update_reservation_for_attempt i x s))"
| "store_step s (snd (insert_journal j s))"
| "store_step s (snd (create_reclaim_reservation j res a s))"
| "store_step s (snd (update_journal_phase i ph now s))"
| "store_step s (snd (start_journal_physical i pay now s))"
| "store_step s (snd (claim_coordinator pid boot now stale s))"
| "store_step s (snd (coordinator_heartbeat pid boot ep now s))"
| "store_step s (snd (release_coordinator pid boot ep s))"

context store_invariant
begin

lemma step_keeps: "store_step s s' \<Longrightarrow> P s \<Longrightarrow> P s'"
  by (induction rule: store_step.induct) (rule keepsD, rule k_store_ops, assumption)+

lemma run_keeps: "store_step\<^sup>*\<^sup>* s s' \<Longrightarrow> P s \<Longrightarrow> P s'"
  by (induction rule: rtranclp_induct) (auto intro: step_keeps)

end

subsection \<open>The tables stay well formed\<close>

lemma keyed_stmts:
  assumes "keyed key ok t"
  shows "unique_insert key n r t = Inr t' \<Longrightarrow> ok r \<Longrightarrow> keyed key ok t'" and "keyed key ok (filter p t)"
  using assms by (auto intro: keyed_insert)

lemma objects_stmt_keyed: "objects_stmt t t' \<Longrightarrow> keyed id object_stored t \<Longrightarrow> keyed id object_stored t'"
  by (induction rule: objects_stmt.induct) (auto intro: keyed_insert intro!: keyed_update)

lemma replica_stored_object [simp]: "replica_stored (r\<lparr>rep_object_id := i\<rparr>) = replica_stored r"
  by (simp add: replica_stored_def validate_replica_descriptor_Inr)

lemma replicas_stmt_keyed:
  "replicas_stmt t t' \<Longrightarrow> keyed replica_id replica_stored t \<Longrightarrow> keyed replica_id replica_stored t'"
  by (induction rule: replicas_stmt.induct) (auto intro: keyed_insert intro!: keyed_update)

lemma lineage_stmt_distinct: "lineage_stmt t t' \<Longrightarrow> distinct t \<Longrightarrow> distinct t'"
  by (induction rule: lineage_stmt.induct) auto

lemma dedup_stmt_keyed: "dedup_stmt t t' \<Longrightarrow> keyed dedup_id dedup_stored t \<Longrightarrow> keyed dedup_id dedup_stored t'"
  by (induction rule: dedup_stmt.induct)
    (fastforce simp: dedup_stored_def dedup_id_def intro: keyed_insert intro!: keyed_update)+

lemma attempts_stmt_keyed:
  "attempts_stmt t t' \<Longrightarrow> keyed a_attempt_id (\<lambda>a. a_generation a \<le> I64_MAX) t \<Longrightarrow>
     keyed a_attempt_id (\<lambda>a. a_generation a \<le> I64_MAX) t'"
  by (induction rule: attempts_stmt.induct) (auto intro: keyed_insert intro!: keyed_update)

lemma reservations_stmt_keyed:
  "reservations_stmt t t' \<Longrightarrow> keyed reservation_id reservation_stored t \<Longrightarrow>
     keyed reservation_id reservation_stored t'"
  by (induction rule: reservations_stmt.induct)
    (auto simp: reservation_stored_def intro: keyed_insert intro!: keyed_update)

lemma coordinator_stmt_ok: "coordinator_stmt c c' \<Longrightarrow> authority_ok c \<Longrightarrow> authority_ok c'"
  by (induction rule: coordinator_stmt.induct) (auto simp: authority_ok_def I64_MAX_def)

lemma archives_stmt_keyed:
  "archives_stmt t t' \<Longrightarrow> keyed archive_id archive_stored t \<Longrightarrow> keyed archive_id archive_stored t'"
  by (induction rule: archives_stmt.induct) (auto intro: keyed_insert)

lemma journal_stmt_keyed:
  "journal_stmt t t' \<Longrightarrow> keyed j_attempt_id (\<lambda>j. j_generation j \<le> I64_MAX) t \<Longrightarrow>
     keyed j_attempt_id (\<lambda>j. j_generation j \<le> I64_MAX) t'"
  by (induction rule: journal_stmt.induct) (auto intro: keyed_insert intro!: keyed_update)

lemma policies_stmt_keyed:
  "policies_stmt t t' \<Longrightarrow> keyed pol_key (\<lambda>_. True) t \<Longrightarrow> keyed pol_key (\<lambda>_. True) t'"
  by (erule policies_stmt.cases) (simp only: keyed_upsert)

interpretation wf: store_invariant store_wf
  by unfold_locales
    (auto simp: store_wf_def intro: numbered_snoc dest: objects_stmt_keyed replicas_stmt_keyed
      lineage_stmt_distinct dedup_stmt_keyed attempts_stmt_keyed reservations_stmt_keyed
      coordinator_stmt_ok archives_stmt_keyed journal_stmt_keyed policies_stmt_keyed)

lemma collect_all: "(\<And>r. r \<in> set rs \<Longrightarrow> f r = Inr r) \<Longrightarrow> collect f rs = Inr rs"
  by (induction rs) auto

text \<open>
  C21: in every store that operations can produce, keys are unique, records are in range and
  numbers rise; so a read never meets a corrupt row: listing the objects, the replicas and
  the open reservations returns exactly the rows, in the order of the query.
\<close>

theorem reachable_store_wf:
  assumes "store_step\<^sup>*\<^sup>* empty_store s"
  shows "store_wf s \<and> list_objects s = Inr (sort_key id (t_objects s)) \<and>
    all_replicas s = Inr (sort_key replica_id (t_replicas s)) \<and>
    (\<exists>rs. list_open_reservations s = Inr rs \<and> set rs = {r \<in> set (t_reservations s). r_status r = ''OPEN''})"
proof -
  have wf: "store_wf s" using assms store_wf_empty by (rule wf.run_keeps)
  have "load_object r = Inr r" if "r \<in> set (t_objects s)" for r
    using that wf by (auto simp: store_wf_def keyed_def object_stored_def load_object_def map_err_Inr_iff
        checked_object_Inr)
  then have objs: "list_objects s = Inr (sort_key id (t_objects s))"
    unfolding list_objects_def by (intro collect_all) simp
  have "load_replica r = Inr r" if "r \<in> set (t_replicas s)" for r
    using that wf by (auto simp: store_wf_def keyed_def replica_stored_def load_replica_def checked_replica_def)
  then have reps: "all_replicas s = Inr (sort_key replica_id (t_replicas s))"
    unfolding all_replicas_def by (intro collect_all) simp
  let ?open = "filter (\<lambda>r. r_status r \<notin> {''COMMITTED'', ''RELEASED'', ''EXPIRED''}) (t_reservations s)"
  have o: "r_status r = ''OPEN'' \<longleftrightarrow> r_status r \<notin> {''COMMITTED'', ''RELEASED'', ''EXPIRED''}"
    if "r \<in> set (t_reservations s)" for r
    using that wf by (auto simp: store_wf_def keyed_def reservation_stored_def)
  then have "list_open_reservations s = Inr (sort_key (\<lambda>r. (r_created_at_ms r, reservation_id r)) ?open)"
    unfolding list_open_reservations_def by (intro collect_all) simp
  moreover have "set ?open = {r \<in> set (t_reservations s). r_status r = ''OPEN''}" using o by auto
  ultimately show ?thesis using wf objs reps by simp
qed

definition sample_store :: store where
  "sample_store = snd (create_object (new_object 1 1 ''checkpoint'' 4 0) empty_store)"

lemma sample_store_objects: "t_objects sample_store = [new_object 1 1 ''checkpoint'' 4 0]"
proof -
  let ?o = "new_object 1 1 ''checkpoint'' 4 0"
  have "validate_object ?o = Inr ()" by (rule new_object_ok [OF not_blank_checkpoint])
  moreover have "object_ints ?o = Inr ()"
    by (simp add: object_ints_Inr object_fits_def new_object_def I64_MAX_def)
  ultimately show ?thesis
    by (simp add: sample_store_def create_object_def insert_object_row_def bindS_apply tx_def updS_apply
        unique_insert_def empty_store_def)
qed

theorem reachable_store_wf_witness:
  "store_wf sample_store \<and> list_objects sample_store = Inr [new_object 1 1 ''checkpoint'' 4 0]"
proof -
  have "store_step empty_store sample_store"
    unfolding sample_store_def by (rule store_step.intros(1))
  then have "store_step\<^sup>*\<^sup>* empty_store sample_store" by blast
  from reachable_store_wf [OF this] show ?thesis by (simp add: sample_store_objects)
qed

subsection \<open>The audit trail\<close>

interpretation audit_grows: store_invariant "\<lambda>s. prefix A (t_audit s)"
  by unfold_locales auto

lemma numbered_distinct: "numbered num t sq \<Longrightarrow> distinct (map num t)"
  unfolding numbered_def by (metis strict_sorted_iff)

text \<open>
  The audit trail is append-only: no sequence of operations removes, changes or reorders
  an entry, and in a reachable store no two entries share a number and each later entry has a
  larger one.
\<close>

theorem audit_append_only:
  assumes "store_step\<^sup>*\<^sup>* empty_store s" and "store_step\<^sup>*\<^sup>* s s'"
  shows "prefix (t_audit s) (t_audit s') \<and> sorted_wrt (<) (map au_id (t_audit s'))"
proof
  show "prefix (t_audit s) (t_audit s')" using assms(2) by (rule audit_grows.run_keeps) simp
  have "store_step\<^sup>*\<^sup>* empty_store s'" using assms by simp
  then have "store_wf s'" using store_wf_empty by (rule wf.run_keeps)
  then show "sorted_wrt (<) (map au_id (t_audit s'))" by (simp add: store_wf_def numbered_def)
qed

theorem audit_append_only_witness:
  "prefix (t_audit (snd (append_audit sample_audit empty_store)))
     (t_audit (snd (append_audit sample_audit (snd (append_audit sample_audit empty_store))))) \<and>
   map au_id (t_audit (snd (append_audit sample_audit (snd (append_audit sample_audit empty_store))))) = [1, 2]"
proof -
  let ?s = "snd (append_audit sample_audit empty_store)"
  have s: "store_step\<^sup>*\<^sup>* empty_store ?s" "store_step\<^sup>*\<^sup>* ?s (snd (append_audit sample_audit ?s))"
    by (blast intro: store_step.intros(21))+
  have "map au_id (t_audit (snd (append_audit sample_audit ?s))) = [1, 2]"
    by (simp add: append_audit_def insert_audit_row_def updS_apply sql_optional_u64_def sql_u64_def next_rowid_def
        sample_audit_def empty_store_def I64_MAX_def)
  then show ?thesis using audit_append_only [OF s] by simp
qed

subsection \<open>Rows of the journal\<close>

definition journal_later :: "journal_entry \<Rightarrow> journal_entry \<Rightarrow> bool" where
  "journal_later j j' \<longleftrightarrow>
     j_attempt_id j' = j_attempt_id j \<and> j_object_id j' = j_object_id j \<and> j_generation j' = j_generation j \<and>
     journal_moves\<^sup>*\<^sup>* (j_phase j) (j_phase j') \<and>
     (journal_final (j_phase j) \<longrightarrow> j' = j) \<and>
     (physical_phase (j_phase j') \<longrightarrow> physical_phase (j_phase j) \<or> physical_plan_ok (j_payload j'))"

lemma journal_later_refl [simp]: "journal_later j j"
  by (simp add: journal_later_def)

lemma journal_later_phase:
  assumes "journal_later j j'" and "allowed_prior ph = Inr prior" and "j_phase j' \<in> set prior"
  shows "journal_later j (j'\<lparr>j_phase := ph, j_updated_at_ms := now\<rparr>)"
proof -
  have "journal_moves (j_phase j') ph" using assms(2,3) by (auto simp: journal_moves_def)
  moreover have "\<not> journal_final (j_phase j)"
    using assms allowed_prior_not_final by (auto simp: journal_later_def)
  ultimately show ?thesis
    using assms allowed_prior_physical [OF assms(2,3)] by (auto simp: journal_later_def)
qed

lemma journal_later_start:
  assumes "journal_later j j'" and "physical_plan_ok p" and "j_phase j' = Validated"
  shows "journal_later j (j'\<lparr>j_payload := p, j_phase := PhysicalStarted, j_updated_at_ms := now\<rparr>)"
proof -
  have "journal_moves (j_phase j') PhysicalStarted" using assms(3) by (simp add: journal_moves_def)
  moreover have "\<not> journal_final (j_phase j)"
    using assms by (auto simp: journal_later_def journal_final_def)
  ultimately show ?thesis using assms by (auto simp: journal_later_def)
qed

definition journal_row_later :: "journal_entry \<Rightarrow> store \<Rightarrow> bool" where
  "journal_row_later j s \<longleftrightarrow> (\<exists>j'. get_journal (j_attempt_id j) s = Some j' \<and> journal_later j j')"

lemma row_of_unique_insert:
  "unique_insert key n r t = Inr t' \<Longrightarrow> row_of key t k = Some q \<Longrightarrow> row_of key t' k = Some q"
  by (auto simp: unique_insert_def row_of_append split: if_splits)

lemma journal_stmt_later:
  assumes "journal_stmt t t'" and "row_of j_attempt_id t i = Some j'" and "journal_later j j'"
  shows "\<exists>j''. row_of j_attempt_id t' i = Some j'' \<and> journal_later j j''"
  using assms
proof (induction rule: journal_stmt.induct)
  case (ins e n t t')
  then show ?case by (auto dest: row_of_unique_insert)
next
  case (phase ph prior t k now)
  then show ?case by (auto simp: row_of_rows_update journal_later_phase)
next
  case (start p t k now)
  then show ?case by (auto simp: row_of_rows_update journal_later_start)
qed

interpretation journal_row: store_invariant "journal_row_later j"
  by unfold_locales (auto simp: journal_row_later_def get_journal_def dest: journal_stmt_later)

text \<open>
  C20: a journal entry never disappears and never changes the attempt, the object or the
  generation it stands for; its phase only moves along the machine, a finished entry is frozen,
  and an entry that enters the physical phases carries the recorded deletion plan.
\<close>

theorem journal_moves_forward:
  assumes "get_journal i s = Some j" and "store_step\<^sup>*\<^sup>* s s'"
  shows "\<exists>j'. get_journal i s' = Some j' \<and> j_object_id j' = j_object_id j \<and> j_generation j' = j_generation j \<and>
    journal_moves\<^sup>*\<^sup>* (j_phase j) (j_phase j') \<and>
    (journal_final (j_phase j) \<longrightarrow> j' = j) \<and>
    (physical_phase (j_phase j') \<longrightarrow> physical_phase (j_phase j) \<or> physical_plan_ok (j_payload j'))"
proof -
  have i: "j_attempt_id j = i" using assms(1) row_of_Some by (fastforce simp: get_journal_def)
  then have "journal_row_later j s" using assms(1) by (auto simp: journal_row_later_def)
  with assms(2) have "journal_row_later j s'" by (rule journal_row.run_keeps)
  then show ?thesis using i by (auto simp: journal_row_later_def journal_later_def)
qed

definition sample_plan :: json where
  "sample_plan = JObject [(''physical_replica_deletions'', JArray [])]"

definition validated_store :: store where
  "validated_store = empty_store\<lparr>t_journal := [sample_journal\<lparr>j_phase := Validated\<rparr>]\<rparr>"

theorem journal_moves_forward_witness:
  "\<exists>j'. get_journal 1 (snd (start_journal_physical 1 sample_plan 9 validated_store)) = Some j' \<and>
     j_phase j' = PhysicalStarted \<and> journal_moves\<^sup>*\<^sup>* Validated (j_phase j') \<and> physical_plan_ok (j_payload j')"
proof -
  let ?s' = "snd (start_journal_physical 1 sample_plan 9 validated_store)"
  have g: "get_journal 1 validated_store = Some (sample_journal\<lparr>j_phase := Validated\<rparr>)"
    by (simp add: get_journal_def validated_store_def sample_journal_def)
  have s: "store_step\<^sup>*\<^sup>* validated_store ?s'" by (blast intro: store_step.intros(33))
  have "\<exists>j'. get_journal 1 ?s' = Some j' \<and> j_phase j' = PhysicalStarted"
    by (simp add: start_journal_physical_def physical_plan_ok_def sample_plan_def bindS_apply validated_store_def
        get_journal_def sample_journal_def rows_update_def rows_count_def)
  then show ?thesis using journal_moves_forward [OF g s] by (auto simp: physical_phase_def)
qed

subsection \<open>Attempts and reservations\<close>

definition attempt_row_later :: "attempt \<Rightarrow> store \<Rightarrow> bool" where
  "attempt_row_later a s \<longleftrightarrow> (\<exists>a'. get_attempt (a_attempt_id a) s = Some a' \<and>
     a_object_id a' = a_object_id a \<and> a_generation a' = a_generation a \<and> (a_status a \<noteq> AOpen \<longrightarrow> a' = a))"

definition reservation_row_later :: "reservation \<Rightarrow> store \<Rightarrow> bool" where
  "reservation_row_later r s \<longleftrightarrow> (\<exists>r'. row_of reservation_id (t_reservations s) (reservation_id r) = Some r' \<and>
     r_object_id r' = r_object_id r \<and> r_attempt_id r' = r_attempt_id r \<and> r_generation r' = r_generation r \<and>
     (r_status r \<noteq> ''OPEN'' \<longrightarrow> r' = r))"

lemma attempts_stmt_later:
  assumes "attempts_stmt (t_attempts s) t'" and "attempt_row_later a s"
  shows "attempt_row_later a (s\<lparr>t_attempts := t'\<rparr>)"
  using assms
proof (induction "t_attempts s" t' rule: attempts_stmt.induct)
  case (ins b n t')
  then show ?case by (auto simp: attempt_row_later_def get_attempt_def dest: row_of_unique_insert)
next
  case (close i st now)
  then obtain a' where a': "row_of a_attempt_id (t_attempts s) (a_attempt_id a) = Some a'"
    "a_object_id a' = a_object_id a" "a_generation a' = a_generation a" "a_status a \<noteq> AOpen \<longrightarrow> a' = a"
    by (auto simp: attempt_row_later_def get_attempt_def)
  then show ?case
    by (cases "a_attempt_id a' = i \<and> a_status a' = AOpen")
      (auto simp: attempt_row_later_def get_attempt_def row_of_rows_update)
qed

lemma reservations_stmt_later:
  assumes "reservations_stmt (t_reservations s) t'" and "reservation_row_later r s"
  shows "reservation_row_later r (s\<lparr>t_reservations := t'\<rparr>)"
  using assms
proof (induction "t_reservations s" t' rule: reservations_stmt.induct)
  case (ins q n t')
  then show ?case by (auto simp: reservation_row_later_def dest: row_of_unique_insert)
next
  case (close p st)
  then obtain r' where r': "row_of reservation_id (t_reservations s) (reservation_id r) = Some r'"
    "r_object_id r' = r_object_id r" "r_attempt_id r' = r_attempt_id r" "r_generation r' = r_generation r"
    "r_status r \<noteq> ''OPEN'' \<longrightarrow> r' = r" by (auto simp: reservation_row_later_def)
  moreover have "p r' \<Longrightarrow> r_status r' = ''OPEN''" using close by blast
  ultimately show ?case
    by (cases "p r'") (auto simp: reservation_row_later_def row_of_rows_update)
qed

interpretation attempt_row: store_invariant "attempt_row_later a"
  by unfold_locales (simp_all add: attempts_stmt_later, simp_all add: attempt_row_later_def get_attempt_def)

interpretation reservation_row: store_invariant "reservation_row_later r"
  by unfold_locales (simp_all add: reservations_stmt_later, simp_all add: reservation_row_later_def)

text \<open>
  Once an attempt is committed, failed or rolled back, and once a reservation is
  committed, released or expired, no sequence of operations reopens or alters it.
\<close>

theorem closed_rows_frozen:
  assumes "get_attempt i s = Some a" and "a_status a \<noteq> AOpen"
    and "row_of reservation_id (t_reservations s) k = Some r" and "r_status r \<noteq> ''OPEN''"
    and "store_step\<^sup>*\<^sup>* s s'"
  shows "get_attempt i s' = Some a \<and> row_of reservation_id (t_reservations s') k = Some r"
proof -
  have i: "a_attempt_id a = i" and k: "reservation_id r = k"
    using assms(1,3) row_of_Some by (fastforce simp: get_attempt_def)+
  have "attempt_row_later a s" using assms(1) i by (auto simp: attempt_row_later_def)
  with assms(5) have "attempt_row_later a s'" by (rule attempt_row.run_keeps)
  moreover have "reservation_row_later r s" using assms(3) k by (auto simp: reservation_row_later_def)
  with assms(5) have "reservation_row_later r s'" by (rule reservation_row.run_keeps)
  ultimately show ?thesis using assms(2,4) i k by (auto simp: attempt_row_later_def reservation_row_later_def)
qed

definition sample_attempt :: attempt where
  "sample_attempt = \<lparr>a_attempt_id = 1, a_object_id = 1, a_generation = 1, a_node = ''n'', a_created_at_ms = 0,
     a_updated_at_ms = 0, a_status = AOpen\<rparr>"

definition sample_reservation :: reservation where
  "sample_reservation = \<lparr>reservation_id = 2, r_attempt_id = 1, r_object_id = 1, r_generation = 1, r_node = ''n'',
     r_created_at_ms = 0, expires_at_ms = 10, r_status = ''OPEN''\<rparr>"

theorem closed_rows_frozen_witness:
  "get_attempt 1 (snd (update_attempt 1 AOpen 7 (empty_store\<lparr>t_attempts := [sample_attempt\<lparr>a_status := ACommitted\<rparr>],
     t_reservations := [sample_reservation\<lparr>r_status := ''RELEASED''\<rparr>]\<rparr>))) =
   Some (sample_attempt\<lparr>a_status := ACommitted\<rparr>)"
proof -
  let ?a = "sample_attempt\<lparr>a_status := ACommitted\<rparr>" and ?r = "sample_reservation\<lparr>r_status := ''RELEASED''\<rparr>"
  let ?s = "empty_store\<lparr>t_attempts := [?a], t_reservations := [?r]\<rparr>"
  have a: "get_attempt 1 ?s = Some ?a" "a_status ?a \<noteq> AOpen"
    and r: "row_of reservation_id (t_reservations ?s) 2 = Some ?r" "r_status ?r \<noteq> ''OPEN''"
    by (simp_all add: get_attempt_def sample_attempt_def sample_reservation_def)
  have s: "store_step\<^sup>*\<^sup>* ?s (snd (update_attempt 1 AOpen 7 ?s))" by (blast intro: store_step.intros(25))
  from closed_rows_frozen [OF a r s] show ?thesis by simp
qed

subsection \<open>Coordinator epochs\<close>

interpretation authority: store_invariant "\<lambda>s. \<exists>st. t_coordinator s = Some st \<and> e \<le> epoch st"
proof unfold_locales
  fix s c
  assume "\<exists>st. t_coordinator s = Some st \<and> e \<le> epoch st" and "coordinator_stmt (t_coordinator s) c"
  then show "\<exists>st. t_coordinator (s\<lparr>t_coordinator := c\<rparr>) = Some st \<and> e \<le> epoch st"
    by (auto elim!: coordinator_stmt.cases)
qed simp_all

lemma claim_coordinator_Inr:
  assumes "claim_coordinator pid boot now stale s = (Inr e, s')"
  shows "\<exists>st. t_coordinator s' = Some st \<and> holds pid boot e st \<and>
    (case t_coordinator s of None \<Rightarrow> e = 1 | Some old \<Rightarrow> e = epoch old + 1) \<and> e \<le> I64_MAX"
  using assms
  by (auto simp: claim_coordinator_def tx_Inr bindS_Inr checked_add_u64_def ok_or_Inr_iff sql_u64_Inr holds_def
      I64_MAX_def split: if_splits option.splits)

lemma stale_authority_rejected:
  assumes "t_coordinator s = Some st" and "e \<noteq> epoch st" and "e \<le> I64_MAX"
  shows "coordinator_heartbeat pid boot e now s =
      (Inl (ReservationConflict [Lit ''coordinator heartbeat rejected for stale authority'']), s)"
    and "release_coordinator pid boot e s =
      (Inl (ReservationConflict [Lit ''coordinator release rejected for stale authority'']), s)"
  using assms by (auto simp: coordinator_heartbeat_def release_coordinator_def update_authority_def bindS_apply
      sql_u64_def holds_def)

text \<open>
  C19: coordinator authority is fenced: whatever happens between two successful claims, the
  later one gets a strictly larger epoch, and from then on, in every later state, a heartbeat
  or a release under the earlier epoch is rejected and changes nothing.
\<close>

theorem coordinator_epoch_fences:
  assumes "claim_coordinator pid boot now stale s0 = (Inr e, s1)" and "store_step\<^sup>*\<^sup>* s1 s2"
    and "claim_coordinator pid' boot' now' stale' s2 = (Inr e', s3)" and "store_step\<^sup>*\<^sup>* s3 s4"
  shows "e < e' \<and>
    coordinator_heartbeat pid boot e t s4 =
      (Inl (ReservationConflict [Lit ''coordinator heartbeat rejected for stale authority'']), s4) \<and>
    release_coordinator pid boot e s4 =
      (Inl (ReservationConflict [Lit ''coordinator release rejected for stale authority'']), s4)"
proof -
  have "\<exists>st. t_coordinator s1 = Some st \<and> e \<le> epoch st" and e: "e \<le> I64_MAX"
    using claim_coordinator_Inr [OF assms(1)] by (auto simp: holds_def)
  then obtain st where "t_coordinator s2 = Some st" "e \<le> epoch st"
    using authority.run_keeps [OF assms(2)] by blast
  then have less: "e < e'" and "\<exists>st'. t_coordinator s3 = Some st' \<and> e' \<le> epoch st'"
    using claim_coordinator_Inr [OF assms(3)] by (auto simp: holds_def)
  then obtain st' where "t_coordinator s4 = Some st'" "e' \<le> epoch st'"
    using authority.run_keeps [OF assms(4)] by blast
  then show ?thesis using less stale_authority_rejected [of s4 st' e] e by simp
qed

theorem coordinator_epoch_fences_witness:
  "\<exists>s1 s3. claim_coordinator ''a'' 1 1000 100 empty_store = (Inr 1, s1) \<and>
     claim_coordinator ''b'' 2 2000 100 s1 = (Inr 2, s3) \<and>
     coordinator_heartbeat ''a'' 1 1 2001 s3 =
      (Inl (ReservationConflict [Lit ''coordinator heartbeat rejected for stale authority'']), s3)"
proof -
  let ?s1 = "snd (claim_coordinator ''a'' 1 1000 100 empty_store)"
  let ?s3 = "snd (claim_coordinator ''b'' 2 2000 100 ?s1)"
  have c1: "claim_coordinator ''a'' 1 1000 100 empty_store = (Inr 1, ?s1)"
    by (simp add: claim_coordinator_def tx_def bindS_apply empty_store_def)
  have c2: "claim_coordinator ''b'' 2 2000 100 ?s1 = (Inr 2, ?s3)"
    by (simp add: claim_coordinator_def tx_def bindS_apply empty_store_def saturating_sub_i64_def I64_MIN_def
        I64_MAX_def checked_add_u64_def U64_MAX_def sql_u64_def)
  from coordinator_epoch_fences [OF c1 rtranclp.rtrancl_refl c2 rtranclp.rtrancl_refl, of 2001] c1 c2
  show ?thesis by blast
qed

end
