(* ===== verification/Transactions.thy ===== *)
theory Transactions
  imports Invariants
begin

section \<open>Transactions of the store\<close>

text \<open>
  What the operations that write several rows guarantee as a whole: reclaim authority is
  granted as three records or not at all, an audited write leaves its object and its audit
  entries or nothing, the table of deduplicated payloads offers the contract of counted
  references, and the lineage graph rebuilt from its table is the graph of exactly the stored
  edges, which is refused when they have a cycle.
\<close>

subsection \<open>Granting reclaim authority\<close>

definition reclaim_records_ok :: "journal_entry \<Rightarrow> reservation \<Rightarrow> attempt \<Rightarrow> bool" where
  "reclaim_records_ok j r a \<longleftrightarrow> j_phase j = Reserved \<and> r_status r = ''OPEN'' \<and> a_status a = AOpen \<and>
     a_attempt_id a = j_attempt_id j \<and> r_attempt_id r = j_attempt_id j \<and>
     a_object_id a = j_object_id j \<and> r_object_id r = j_object_id j \<and>
     a_generation a = j_generation j \<and> r_generation r = j_generation j \<and> j_generation j \<le> I64_MAX"

definition reclaim_ids_fresh :: "journal_entry \<Rightarrow> reservation \<Rightarrow> attempt \<Rightarrow> store \<Rightarrow> bool" where
  "reclaim_ids_fresh j r a s \<longleftrightarrow> a_attempt_id a \<notin> a_attempt_id ` set (t_attempts s) \<and>
     reservation_id r \<notin> reservation_id ` set (t_reservations s) \<and>
     j_attempt_id j \<notin> j_attempt_id ` set (t_journal s)"

text \<open>
  C18: reclaim authority is established atomically: when the three records start in their
  initial states, name the same attempt, object and generation and have unused identifiers, all
  three are stored and nothing else changes; in every other case the call fails and the store
  is untouched.
\<close>

theorem reclaim_reservation_atomic:
  "if reclaim_records_ok j r a \<and> reclaim_ids_fresh j r a s
   then create_reclaim_reservation j r a s =
     (Inr (), s\<lparr>t_attempts := t_attempts s @ [a], t_reservations := t_reservations s @ [r],
        t_journal := t_journal s @ [j]\<rparr>)
   else \<exists>e. create_reclaim_reservation j r a s = (Inl e, s)"
proof (cases "reclaim_records_ok j r a")
  case True
  then show ?thesis
    by (auto simp: create_reclaim_reservation_def reclaim_records_ok_def reclaim_ids_fresh_def bindS_apply
        validate_reservation_status_def sql_u64_def tx_def updS_apply unique_insert_def)
next
  case False
  then show ?thesis
    by (auto simp: create_reclaim_reservation_def reclaim_records_ok_def bindS_apply
        validate_reservation_status_def sql_u64_def)
qed

subsection \<open>Audited writes\<close>

text \<open>The audit entries of a call, numbered after the ones stored.\<close>

definition write_audit :: "audit_entry \<Rightarrow> store \<Rightarrow> store" where
  "write_audit a s = s\<lparr>t_audit := t_audit s @ [a\<lparr>au_id := int (Suc (audit_seq s))\<rparr>], audit_seq := Suc (audit_seq s)\<rparr>"

lemma insert_audit_row_Inr: "insert_audit_row a s = (Inr u, s') \<Longrightarrow> s' = write_audit a s"
  by (auto simp: insert_audit_row_def updS_apply write_audit_def bindr_Inr_iff next_rowid_Inr split: sum.splits)

lemma forS_insert_audit: "forS as insert_audit_row s = (Inr u, s') \<Longrightarrow> s' = fold write_audit as s"
  by (induction as arbitrary: s) (auto simp: bindS_Inr dest: insert_audit_row_Inr)

lemma insert_object_row_Inr:
  "insert_object_row obj s = (Inr u, s') \<Longrightarrow>
     id obj \<notin> id ` set (t_objects s) \<and> s' = s\<lparr>t_objects := t_objects s @ [obj]\<rparr>"
  by (auto simp: insert_object_row_def updS_apply bindr_Inr_iff unique_insert_def split: sum.splits if_splits)

lemma update_object_row_Inr:
  "update_object_row obj s = (Inr u, s') \<Longrightarrow> rows_count (\<lambda>r. id r = id obj) (t_objects s) = 1 \<and>
     s' = s\<lparr>t_objects := rows_update (\<lambda>r. id r = id obj) (\<lambda>_. obj) (t_objects s)\<rparr>"
  by (auto simp: update_object_row_def bindS_Inr split: if_splits)

lemma liftS_bind_cases:
  assumes "bindS (liftS r) f s = (x, s')"
  obtains e where "r = Inl e" "s' = s" "x = Inl e" | a where "r = Inr a" "f a s = (x, s')"
  using assms by (cases r) (auto simp: bindS_apply)

lemma create_object_with_audits_cases:
  assumes "create_object_with_audits obj as s = (x, s')"
  shows "(\<exists>e. x = Inl e) \<and> s' = s \<or>
    x = Inr () \<and> as \<noteq> [] \<and> object_ok obj \<and> id obj \<notin> id ` set (t_objects s) \<and>
    (\<forall>a\<in>set as. validate_object_audit obj a = Inr ()) \<and>
    s' = fold write_audit as (s\<lparr>t_objects := t_objects s @ [obj]\<rparr>)"
proof (cases x)
  case (Inl e)
  then show ?thesis using assms
    by (auto simp: create_object_with_audits_def bindS_Inl tx_Inl split: if_splits)
next
  case (Inr u)
  then have "tx (bindS (insert_object_row obj) (\<lambda>_. forS as insert_audit_row)) s = (Inr (), s')"
    and v: "as \<noteq> []" "object_ok obj" "\<forall>a\<in>set as. validate_object_audit obj a = Inr ()"
    using assms
    by (auto simp: create_object_with_audits_def bindS_Inr for_each_Inr_iff validate_object_iff split: if_splits)
  then obtain t where t: "insert_object_row obj s = (Inr (), t)" "forS as insert_audit_row t = (Inr (), s')"
    by (auto simp: tx_Inr bindS_Inr)
  show ?thesis using insert_object_row_Inr [OF t(1)] forS_insert_audit [OF t(2)] v Inr by simp
qed

lemma update_object_with_audit_cases:
  assumes "update_object_with_audit obj a s = (x, s')"
  shows "(\<exists>e. x = Inl e) \<and> s' = s \<or>
    x = Inr () \<and> object_ok obj \<and> validate_object_audit obj a = Inr () \<and>
    s' = write_audit a (s\<lparr>t_objects := rows_update (\<lambda>r. id r = id obj) (\<lambda>_. obj) (t_objects s)\<rparr>)"
proof (cases x)
  case (Inl e)
  then show ?thesis using assms by (auto simp: update_object_with_audit_def bindS_Inl tx_Inl)
next
  case (Inr u)
  then have "tx (bindS (update_object_row obj) (\<lambda>_. insert_audit_row a)) s = (Inr (), s')"
    and v: "object_ok obj" "validate_object_audit obj a = Inr ()"
    using assms by (auto simp: update_object_with_audit_def bindS_Inr validate_object_iff)
  then obtain t where t: "update_object_row obj s = (Inr (), t)" "insert_audit_row a t = (Inr (), s')"
    by (auto simp: tx_Inr bindS_Inr)
  show ?thesis using update_object_row_Inr [OF t(1)] insert_audit_row_Inr [OF t(2)] v Inr by simp
qed

lemma delete_object_with_audit_cases:
  assumes "delete_object_with_audit i a s = (x, s')"
  shows "(\<exists>e. x = Inl e) \<and> s' = s \<or>
    x = Inr () \<and> dependents i s = 0 \<and> i \<in> id ` set (t_objects s) \<and>
    s' = write_audit a (s\<lparr>t_objects := filter (\<lambda>r. id r \<noteq> i) (t_objects s)\<rparr>)"
proof (cases x)
  case (Inl e)
  then show ?thesis using assms by (auto simp: delete_object_with_audit_def bindS_Inl tx_Inl split: if_splits)
next
  case (Inr u)
  then obtain r where r: "row_of id (t_objects s) i = Some r" "dependents i s = 0"
    and "insert_audit_row a (s\<lparr>t_objects := filter (\<lambda>r. id r \<noteq> i) (t_objects s)\<rparr>) = (Inr (), s')"
    using assms
    by (auto simp: delete_object_with_audit_def bindS_Inr tx_Inr ok_or_Inr_iff split: if_splits)
  then show ?thesis using insert_audit_row_Inr Inr row_of_Some [OF r(1)] by auto
qed

text \<open>
  C22: an audited creation, update or deletion of an object is atomic: on an error the store is
  as it was, and on success exactly the object row and the audit entries of the call have
  changed, the entries numbered after the ones stored. A deletion happens only to an object
  that no replica, archive or lineage edge refers to.
\<close>

theorem audited_writes_atomic:
  "(case create_object_with_audits obj as s of
      (Inl e, s') \<Rightarrow> s' = s
    | (Inr u, s') \<Rightarrow> id obj \<notin> id ` set (t_objects s) \<and>
        s' = fold write_audit as (s\<lparr>t_objects := t_objects s @ [obj]\<rparr>)) \<and>
   (case update_object_with_audit obj a s of
      (Inl e, s') \<Rightarrow> s' = s
    | (Inr u, s') \<Rightarrow>
        s' = write_audit a (s\<lparr>t_objects := rows_update (\<lambda>r. id r = id obj) (\<lambda>_. obj) (t_objects s)\<rparr>)) \<and>
   (case delete_object_with_audit i a s of
      (Inl e, s') \<Rightarrow> s' = s
    | (Inr u, s') \<Rightarrow> dependents i s = 0 \<and>
        s' = write_audit a (s\<lparr>t_objects := filter (\<lambda>r. id r \<noteq> i) (t_objects s)\<rparr>))"
  by (auto split: prod.splits sum.splits
      dest!: create_object_with_audits_cases update_object_with_audit_cases delete_object_with_audit_cases)

subsection \<open>Counted references to payloads\<close>

definition store_refs :: "store \<Rightarrow> content_hash \<times> string \<Rightarrow> nat option" where
  "store_refs s k = Some (case row_of dedup_id (t_dedup s) k of None \<Rightarrow> 0 | Some e \<Rightarrow> ref_count e)"

definition run_op :: "('s, 'e, 'a) op \<Rightarrow> 's \<Rightarrow> 'e + 'a \<times> 's" where
  "run_op m s = (case m s of (Inl e, s') \<Rightarrow> Inl e | (Inr a, s') \<Rightarrow> Inr (a, s'))"

definition store_acquire :: "content_hash \<times> string \<Rightarrow> store \<Rightarrow> error + store" where
  "store_acquire k s = bindr (run_op (dedup_acquire (fst k) (snd k)) s) (\<lambda>(u, s'). Inr s')"

definition store_release :: "content_hash \<times> string \<Rightarrow> store \<Rightarrow> error + bool \<times> store" where
  "store_release k s = run_op (dedup_release (fst k) (snd k)) s"

lemma run_op_Inr: "run_op m s = Inr (a, s') \<longleftrightarrow> m s = (Inr a, s')"
  by (auto simp: run_op_def split: prod.splits sum.splits)

lemma dedup_id_refs [simp]: "dedup_id (e\<lparr>ref_count := n\<rparr>) = dedup_id e"
  by (simp add: dedup_id_def)

lemma rows_count_row_of:
  assumes "rows_count (\<lambda>r. key r = k \<and> q r) t \<noteq> 0" and "distinct (map key t)"
  shows "\<exists>r. row_of key t k = Some r \<and> q r"
proof -
  from assms(1) obtain r where "r \<in> set t" "key r = k" "q r" by (auto simp: rows_count_0_iff)
  then show ?thesis using row_of_distinct [OF assms(2)] by blast
qed

lemma rows_count_one:
  assumes "row_of key t k = Some r" and "distinct (map key t)" and "q r"
  shows "rows_count (\<lambda>r. key r = k \<and> q r) t = 1"
proof -
  have "x = r" if "x \<in> set t" "key x = k" for x
    using that assms(1) row_of_distinct [OF assms(2), of k x] by simp
  then have "filter (\<lambda>r. key r = k \<and> q r) t = filter (\<lambda>r. key r = k) t"
    using assms(3) by (intro filter_cong) auto
  moreover have "k \<in> key ` set t" using row_of_Some [OF assms(1)] by blast
  ultimately show ?thesis using rows_count_key_le_1 [OF assms(2), of k] by (simp add: rows_count_def)
qed

lemma row_of_key: "row_of key t k = Some r \<Longrightarrow> key r = k"
  by (drule row_of_Some) simp

lemma store_refs_update:
  assumes "row_of dedup_id (t_dedup s) k = Some e" and "q e"
  shows "store_refs (s\<lparr>t_dedup := rows_update (\<lambda>d. dedup_id d = k \<and> q d) (\<lambda>d. d\<lparr>ref_count := f d\<rparr>) (t_dedup s)\<rparr>)
    = (store_refs s)(k \<mapsto> f e)"
proof (rule ext)
  fix j
  show "store_refs (s\<lparr>t_dedup := rows_update (\<lambda>d. dedup_id d = k \<and> q d) (\<lambda>d. d\<lparr>ref_count := f d\<rparr>) (t_dedup s)\<rparr>) j
      = ((store_refs s)(k \<mapsto> f e)) j"
    using assms by (cases "row_of dedup_id (t_dedup s) j")
      (auto simp: store_refs_def row_of_rows_update dest: row_of_key)
qed

lemma store_refs_delete:
  "store_refs (s\<lparr>t_dedup := filter (\<lambda>d. dedup_id d \<noteq> k) (t_dedup s)\<rparr>) = (store_refs s)(k \<mapsto> 0)"
  by (rule ext) (simp add: store_refs_def row_of_filter_key)

definition dedup_ok :: "store \<Rightarrow> bool" where
  "dedup_ok s \<longleftrightarrow> keyed dedup_id dedup_stored (t_dedup s)"

interpretation dedup_rows: store_invariant dedup_ok
  by unfold_locales (auto simp: dedup_ok_def dest: dedup_stmt_keyed)

lemma dedup_acquire_Inr:
  assumes "dedup_acquire h b s = (Inr u, s')" and "dedup_ok s"
  shows "\<exists>e. row_of dedup_id (t_dedup s) (h, b) = Some e \<and> store_refs s' = (store_refs s)((h, b) \<mapsto> ref_count e + 1)"
proof -
  let ?q = "\<lambda>e. ref_count e \<ge> 1 \<and> ref_count e < I64_MAX"
  have n: "rows_count (\<lambda>e. dedup_id e = (h, b) \<and> ?q e) (t_dedup s) \<noteq> 0"
    and s': "s' = s\<lparr>t_dedup := rows_update (\<lambda>e. dedup_id e = (h, b) \<and> ?q e)
        (\<lambda>e. e\<lparr>ref_count := ref_count e + 1\<rparr>) (t_dedup s)\<rparr>"
    using assms(1) by (auto simp: dedup_acquire_def Let_def bindS_Inr split: if_splits)
  then obtain e where "row_of dedup_id (t_dedup s) (h, b) = Some e" "?q e"
    using rows_count_row_of [OF n] assms(2) by (auto simp: dedup_ok_def keyed_def)
  then show ?thesis using store_refs_update [of s "(h, b)" e ?q] s' by auto
qed

lemma dedup_release_eq:
  assumes "row_of dedup_id (t_dedup s) (h, b) = Some e" and "dedup_ok s"
  shows "\<exists>s'. dedup_release h b s = (Inr (ref_count e = 1), s') \<and>
    store_refs s' = (store_refs s)((h, b) \<mapsto> ref_count e - 1)"
proof -
  have d: "distinct (map dedup_id (t_dedup s))" and "1 \<le> ref_count e"
    using assms row_of_Some by (fastforce simp: dedup_ok_def keyed_def dedup_stored_def)+
  have one: "rows_count (\<lambda>d. dedup_id d = (h, b)) (t_dedup s) = 1"
    using rows_count_one [OF assms(1) d, of "\<lambda>_. True"] by simp
  have one': "rows_count (\<lambda>d. dedup_id d = (h, b) \<and> ref_count d = ref_count e) (t_dedup s) = 1"
    by (rule rows_count_one [OF assms(1) d]) simp
  show ?thesis
  proof (cases "ref_count e = 1")
    case True
    then show ?thesis using assms(1) one store_refs_delete [where k = "(h, b)"]
      by (simp add: dedup_release_def Let_def tx_def bindS_apply)
  next
    case False
    then show ?thesis
      using assms(1) one' \<open>1 \<le> ref_count e\<close>
        store_refs_update [OF assms(1), where q = "\<lambda>d. ref_count d = ref_count e" and f = "\<lambda>d. ref_count d - 1"]
      by (simp add: dedup_release_def Let_def tx_def bindS_apply)
  qed
qed

lemma dedup_release_missing:
  "row_of dedup_id (t_dedup s) (h, b) = None \<Longrightarrow> dedup_release h b s =
     (Inl (Dedup [Lit ''no dedup entry for '', Hsh h, Lit '' on '', Str b]), s)"
  by (simp add: dedup_release_def Let_def tx_def bindS_apply)

interpretation stored_refs: ref_counting store_refs store_acquire store_release dedup_ok
proof
  fix s s' :: store and k
  assume ok: "dedup_ok s" and a: "store_acquire k s = Inr s'"
  obtain h b where k: "k = (h, b)" by fastforce
  have op: "dedup_acquire h b s = (Inr (), s')"
    using a by (auto simp: store_acquire_def k bindr_Inr_iff run_op_Inr)
  have "dedup_ok s'" using keepsE [OF dedup_rows.k_dedup_acquire op ok] .
  then show "dedup_ok s' \<and> (\<exists>n. store_refs s k = Some n \<and> store_refs s' = (store_refs s)(k \<mapsto> n + 1))"
    using dedup_acquire_Inr [OF op ok] by (auto simp: k store_refs_def)
next
  fix s s' :: store and k l
  assume ok: "dedup_ok s" and r: "store_release k s = Inr (l, s')"
  obtain h b where k: "k = (h, b)" by fastforce
  have op: "dedup_release h b s = (Inr l, s')" using r by (simp add: store_release_def k run_op_Inr)
  then obtain e where e: "row_of dedup_id (t_dedup s) (h, b) = Some e"
    using dedup_release_missing [of s h b] by (cases "row_of dedup_id (t_dedup s) (h, b)") auto
  have "dedup_ok s'" using keepsE [OF dedup_rows.k_dedup_release op ok] .
  moreover have "ref_count e \<ge> 1" using e ok row_of_Some by (fastforce simp: dedup_ok_def keyed_def dedup_stored_def)
  then have "store_refs s k = Some (Suc (ref_count e - 1))" using e by (simp add: k store_refs_def)
  moreover have "store_refs s' = (store_refs s)(k \<mapsto> ref_count e - 1)" "l \<longleftrightarrow> ref_count e - 1 = 0"
    using dedup_release_eq [OF e ok] op \<open>ref_count e \<ge> 1\<close> by (auto simp: k)
  ultimately show "dedup_ok s' \<and> (\<exists>n. store_refs s k = Some (Suc n) \<and>
      store_refs s' = (store_refs s)(k \<mapsto> n) \<and> l = (n = 0))" by blast
next
  fix s :: store and k n
  assume ok: "dedup_ok s" and "store_refs s k = Some (Suc n)"
  obtain h b where k: "k = (h, b)" by fastforce
  then obtain e where "row_of dedup_id (t_dedup s) (h, b) = Some e"
    using \<open>store_refs s k = Some (Suc n)\<close> by (auto simp: store_refs_def split: option.splits)
  then show "\<exists>r. store_release k s = Inr r"
    using dedup_release_eq ok by (fastforce simp: store_release_def k run_op_Inr)
qed

text \<open>
  C24: the durable reference counts are exact: in every reachable store a payload with
  \<open>n + 1\<close> references survives \<open>n\<close> releases and is handed to the caller for deletion by
  the next one, and acquiring a reference and releasing it again leaves every count as it was.
\<close>

theorem stored_release_reports_last:
  assumes "store_step\<^sup>*\<^sup>* empty_store s" and "store_refs s k = Some (Suc n)"
  shows "(\<exists>s'. stored_refs.release_n (Suc n) k s = Inr (replicate n False @ [True], s') \<and> store_refs s' k = Some 0) \<and>
    (\<forall>s1. store_acquire k s = Inr s1 \<longrightarrow>
       (\<exists>s2. store_release k s1 = Inr (False, s2) \<and> store_refs s2 = store_refs s))"
proof -
  have "store_wf s" using assms(1) store_wf_empty by (rule wf.run_keeps)
  then have ok: "dedup_ok s" by (simp add: store_wf_def dedup_ok_def)
  have "\<exists>s2. store_release k s1 = Inr (False, s2) \<and> store_refs s2 = store_refs s"
    if "store_acquire k s = Inr s1" for s1
    using stored_refs.acquire_release [OF ok that] assms(2) by simp
  then show ?thesis using stored_refs.release_all [OF ok assms(2)] by blast
qed

definition sample_payload :: dedup_entry where
  "sample_payload = \<lparr>de_content_hash = replicate 32 7, de_backend = ''memory'', de_key = ''k'', ref_count = 2,
     payload_size = 4\<rparr>"

lemma insert_sample_payload:
  "t_dedup (snd (insert_dedup sample_payload empty_store)) = [sample_payload]"
  by (simp add: insert_dedup_def bindS_apply updS_apply unique_insert_def validate_dedup_entry_def sql_u64_def
      sample_payload_def empty_store_def I64_MAX_def)

theorem stored_release_reports_last_witness:
  "\<exists>s'. stored_refs.release_n 2 (replicate 32 7, ''memory'') (snd (insert_dedup sample_payload empty_store)) =
     Inr ([False, True], s') \<and> store_refs s' (replicate 32 7, ''memory'') = Some 0"
proof -
  let ?s = "snd (insert_dedup sample_payload empty_store)" and ?k = "(replicate 32 7, ''memory'')"
  have s: "store_step\<^sup>*\<^sup>* empty_store ?s" by (blast intro: store_step.intros(13))
  have k: "store_refs ?s ?k = Some (Suc 1)"
    by (simp add: store_refs_def insert_sample_payload dedup_id_def) (simp add: sample_payload_def)
  have "Suc 1 = 2" by simp
  then show ?thesis
    using stored_release_reports_last [OF s k] by (simp del: stored_refs.release_n.simps add: numeral_2_eq_2)
qed

subsection \<open>The lineage graph of the stored edges\<close>

definition graph_edges :: "lineage_graph \<Rightarrow> (uuid \<times> uuid \<times> edge_kind) set" where
  "graph_edges g = {(p, c, k). \<lparr>edge_parent = p, edge_child = c, edge_kind = k\<rparr> \<in> set (entries (parents g) p)}"

definition row_rel :: "(uuid \<times> uuid \<times> edge_kind) set \<Rightarrow> (uuid \<times> uuid) set" where
  "row_rel E = (\<lambda>(p, c, k). (p, c)) ` E"

lemma graph_edges_mem:
  assumes "graph_wf g"
  shows "(p, c, k) \<in> graph_edges g \<longleftrightarrow>
     (\<exists>e\<in>set (entries (parents g) p). edge_child e = c \<and> edge_kind e = k)"
proof
  assume "(p, c, k) \<in> graph_edges g"
  then show "\<exists>e\<in>set (entries (parents g) p). edge_child e = c \<and> edge_kind e = k"
    unfolding graph_edges_def by (auto intro!: bexI [of _ "\<lparr>edge_parent = p, edge_child = c, edge_kind = k\<rparr>"])
next
  assume "\<exists>e\<in>set (entries (parents g) p). edge_child e = c \<and> edge_kind e = k"
  then obtain e where e: "e \<in> set (entries (parents g) p)" "edge_child e = c" "edge_kind e = k" by blast
  then have "edge_parent e = p" using assms by (simp add: graph_wf_def index_wf_def)
  then have "e = \<lparr>edge_parent = p, edge_child = c, edge_kind = k\<rparr>" using e by simp
  then show "(p, c, k) \<in> graph_edges g" using e(1) by (simp add: graph_edges_def)
qed

lemma row_rel_mem: "(p, c) \<in> row_rel E \<longleftrightarrow> (\<exists>k. (p, c, k) \<in> E)"
  by (force simp: row_rel_def)

lemma edge_rel_graph_edges: "graph_wf g \<Longrightarrow> edge_rel g = row_rel (graph_edges g)"
  by (auto simp: edge_rel_def row_rel_mem graph_edges_mem) blast

lemma add_edge_edges:
  assumes "graph_wf g" and "add_edge p c k g = Inr g'"
  shows "graph_edges g' = insert (p, c, k) (graph_edges g) \<and> object_ids g' = object_ids g"
proof -
  from add_edge_cases [OF assms(2)] show ?thesis
  proof (elim disjE conjE)
    assume "g' = g" "\<exists>e\<in>set (entries (parents g) p). edge_child e = c \<and> edge_kind e = k"
    then show ?thesis using graph_edges_mem [OF assms(1)] by blast
  next
    let ?e = "\<lparr>edge_parent = p, edge_child = c, edge_kind = k\<rparr>"
    assume g': "g' = g\<lparr>parents := push_entry p ?e (parents g), children := push_entry c ?e (children g)\<rparr>"
    have "bt_wf (parents g)" using assms(1) by (simp add: graph_wf_def index_wf_def)
    then show ?thesis by (auto simp: g' graph_edges_def entries_push split: if_splits)
  qed
qed

lemma add_edge_Inl_iff:
  assumes "graph_wf g" and "p \<in> set (object_ids g)" and "c \<in> set (object_ids g)"
    and "acyclic (insert (p, c) (edge_rel g))"
  shows "\<exists>g'. add_edge p c k g = Inr g'"
proof -
  have "p \<noteq> c" and "(c, p) \<notin> (edge_rel g)\<^sup>*" using assms(4) by (auto simp: acyclic_insert)
  then show ?thesis using assms(2,3) by (auto simp: add_edge_def reaches_iff Let_def)
qed

definition load_edge :: "lineage_graph \<Rightarrow> uuid \<times> uuid \<times> edge_kind \<Rightarrow> lineage_graph result" where
  "load_edge g e = (case e of (p, c, k) \<Rightarrow>
     map_err (\<lambda>e. Persistence (Lit ''corrupt lineage: '' # display e)) (add_edge p c k g))"

lemma load_edge_simp [simp]:
  "load_edge g (p, c, k) =
     map_err (\<lambda>e. Persistence (Lit ''corrupt lineage: '' # display e)) (add_edge p c k g)"
  by (simp add: load_edge_def)

lemma load_edges_sound:
  "fold_r load_edge g es = Inr g' \<Longrightarrow> graph_wf g \<Longrightarrow>
     graph_wf g' \<and> graph_edges g' = graph_edges g \<union> set es \<and> object_ids g' = object_ids g"
proof (induction es arbitrary: g)
  case Nil
  then show ?case by simp
next
  case (Cons e es)
  obtain p c k where e: "e = (p, c, k)" by (cases e)
  from Cons.prems obtain g1 where g1: "add_edge p c k g = Inr g1" and "fold_r load_edge g1 es = Inr g'"
    by (auto simp: e bindr_Inr_iff map_err_Inr_iff)
  then show ?case using Cons.IH [of g1] graph_wf_add_edge [OF Cons.prems(2) g1] add_edge_edges [OF Cons.prems(2) g1]
    by (simp add: e)
qed

lemma load_edges_complete:
  "graph_wf g \<Longrightarrow> acyclic (row_rel (graph_edges g \<union> set es)) \<Longrightarrow>
     (\<And>p c k. (p, c, k) \<in> set es \<Longrightarrow> p \<in> set (object_ids g) \<and> c \<in> set (object_ids g)) \<Longrightarrow>
     \<exists>g'. fold_r load_edge g es = Inr g'"
proof (induction es arbitrary: g)
  case Nil
  then show ?case by simp
next
  case (Cons e es)
  obtain p c k where e: "e = (p, c, k)" by (cases e)
  have "insert (p, c) (edge_rel g) \<subseteq> row_rel (graph_edges g \<union> set (e # es))"
    unfolding edge_rel_graph_edges [OF Cons.prems(1)] row_rel_def e by (auto intro: rev_image_eqI)
  then have "acyclic (insert (p, c) (edge_rel g))" using Cons.prems(2) acyclic_subset by blast
  then obtain g1 where g1: "add_edge p c k g = Inr g1"
    using add_edge_Inl_iff [OF Cons.prems(1), of p c k] Cons.prems(3) [of p c k] by (auto simp: e)
  have "\<exists>g'. fold_r load_edge g1 es = Inr g'"
    using Cons.prems add_edge_edges [OF Cons.prems(1) g1]
    by (intro Cons.IH graph_wf_add_edge [OF Cons.prems(1) g1]) (auto simp: e)
  then show ?case using g1 by (simp add: e)
qed

lemma fold_add_object:
  "graph_wf g \<Longrightarrow> graph_wf (fold (\<lambda>obj. add_object (id obj)) os g) \<and>
     graph_edges (fold (\<lambda>obj. add_object (id obj)) os g) = graph_edges g \<and>
     set (object_ids (fold (\<lambda>obj. add_object (id obj)) os g)) = set (object_ids g) \<union> id ` set os"
proof (induction os arbitrary: g)
  case (Cons obj os)
  have "graph_edges (add_object (id obj) g) = graph_edges g" by (simp add: graph_edges_def add_object_def)
  moreover have "set (object_ids (add_object (id obj) g)) = insert (id obj) (set (object_ids g))"
    by (simp add: add_object_def)
  ultimately show ?case using Cons.IH [OF graph_wf_add_object [OF Cons.prems]] by simp
qed simp

text \<open>
  C23: loading the lineage graph refines the stored table: the graph it returns is well formed
  and has exactly the stored objects and edges, and it is returned exactly when the stored edges
  connect stored objects and have no cycle; a corrupt table is reported, never repaired.
\<close>

theorem stored_lineage_refines:
  "(\<forall>g. stored_lineage_graph s = Inr g \<longrightarrow>
      graph_wf g \<and> graph_edges g = set (t_lineage s) \<and> set (object_ids g) = id ` set (t_objects s)) \<and>
   (is_ok (stored_lineage_graph s) \<longleftrightarrow>
      acyclic (row_rel (set (t_lineage s))) \<and>
      (\<forall>(p, c, k)\<in>set (t_lineage s). p \<in> id ` set (t_objects s) \<and> c \<in> id ` set (t_objects s)))"
proof -
  let ?g0 = "fold (\<lambda>obj. add_object (id obj)) (t_objects s) empty_graph"
  have load: "stored_lineage_graph s = fold_r load_edge ?g0 (t_lineage s)"
    unfolding stored_lineage_graph_def
    by (rule arg_cong [of _ _ "\<lambda>f. fold_r f ?g0 (t_lineage s)"]) (auto simp: fun_eq_iff)
  have "graph_edges empty_graph = {}" by (simp add: graph_edges_def empty_graph_def entries_def unwrap_or_def)
  moreover have "object_ids empty_graph = []" by (simp add: empty_graph_def)
  ultimately have g0: "graph_wf ?g0" "graph_edges ?g0 = {}" "set (object_ids ?g0) = id ` set (t_objects s)"
    using fold_add_object [OF graph_wf_empty, of "t_objects s"] by simp_all
  have sound: "graph_wf g \<and> graph_edges g = set (t_lineage s) \<and> set (object_ids g) = id ` set (t_objects s)"
    if "stored_lineage_graph s = Inr g" for g
    using load_edges_sound [of ?g0 "t_lineage s" g] that g0 by (simp add: load)
  have nec: "acyclic (row_rel (set (t_lineage s))) \<and>
      (\<forall>(p, c, k)\<in>set (t_lineage s). p \<in> id ` set (t_objects s) \<and> c \<in> id ` set (t_objects s))"
    if "stored_lineage_graph s = Inr g" for g
  proof -
    note g = sound [OF that]
    then have "acyclic (edge_rel g)" by (simp add: graph_wf_def)
    moreover have ends: "\<forall>e. e \<in> set (entries (parents g) (edge_parent e)) \<longrightarrow>
        edge_parent e \<in> set (object_ids g) \<and> edge_child e \<in> set (object_ids g)"
      using g unfolding graph_wf_def by blast
    have "p \<in> set (object_ids g) \<and> c \<in> set (object_ids g)" if "(p, c, k) \<in> graph_edges g" for p c k
      using that spec [OF ends, of "\<lparr>edge_parent = p, edge_child = c, edge_kind = k\<rparr>"]
      by (simp add: graph_edges_def)
    ultimately show ?thesis using g edge_rel_graph_edges [of g] by auto
  qed
  have suf: "\<exists>g. stored_lineage_graph s = Inr g"
    if "acyclic (row_rel (set (t_lineage s)))"
      "\<forall>(p, c, k)\<in>set (t_lineage s). p \<in> id ` set (t_objects s) \<and> c \<in> id ` set (t_objects s)"
    unfolding load using that g0 by (intro load_edges_complete) auto
  show ?thesis using sound nec suf by (auto simp: is_ok_iff)
qed

theorem stored_lineage_refines_witness:
  "is_ok (stored_lineage_graph (sample_store\<lparr>t_lineage := []\<rparr>)) \<and>
   \<not> is_ok (stored_lineage_graph (sample_store\<lparr>t_lineage := [(1, 1, DependsOn)]\<rparr>))"
proof -
  have "\<not> acyclic (row_rel {(1, 1, DependsOn)})" by (auto simp: row_rel_def acyclic_def)
  then show ?thesis
    using stored_lineage_refines [of "sample_store\<lparr>t_lineage := []\<rparr>"]
      stored_lineage_refines [of "sample_store\<lparr>t_lineage := [(1, 1, DependsOn)]\<rparr>"]
    by (simp add: row_rel_def acyclic_def)
qed

end
