(* ===== verification/Recovery.thy ===== *)
theory Recovery
  imports Transactions
begin

section \<open>Crash recovery (src/recovery.rs)\<close>

text \<open>
  Reconciliation of the journal with physical truth after a restart. A journal payload is a
  JSON object; how an object, a list of replicas and a list of archive records are turned into
  JSON and back is \<open>serde_json\<close>'s derived code, the parameter \<open>jc\<close>. Whether the
  planned payloads still exist is asked of the backends: the parameter \<open>physical_state\<close>.
  The main results: recovery fails closed (it commits a reclaim only when the release is
  recorded as complete with nothing to delete or the backends report the payloads gone),
  what it finishes is finished in the journal, the attempt and the reservation together, the
  repaired reference counts equal the live replicas, and recovery keeps every invariant of the
  store.
\<close>

definition PRIOR_STATE_KEY :: string where "PRIOR_STATE_KEY = ''prior_object''"
definition DELETION_KEY :: string where "DELETION_KEY = ''replica_deletions''"
definition PHYSICAL_DELETION_KEY :: string where "PHYSICAL_DELETION_KEY = ''physical_replica_deletions''"
definition ARCHIVE_DELETION_KEY :: string where "ARCHIVE_DELETION_KEY = ''archive_deletions''"

record journal_codec =
  object_json :: "reclaim_object \<Rightarrow> json"
  json_object :: "json \<Rightarrow> string + reclaim_object"
  replicas_json :: "replica list \<Rightarrow> json"
  json_replicas :: "json \<Rightarrow> string + replica list"
  archives_json :: "archive_record list \<Rightarrow> json"
  json_archives :: "json \<Rightarrow> string + archive_record list"

record journal_plan =
  prior_object :: reclaim_object
  replica_deletions :: "replica list"
  physical_replica_deletions :: "replica list option"
  archive_deletions :: "archive_record list"

subsection \<open>Journal payloads\<close>

definition required_field :: "(string \<times> json) list \<Rightarrow> string \<Rightarrow> json result" where
  "required_field m key =
     ok_or (map_of m key)
       (Recovery [Lit ''journal payload missing required '', Dbg key, Lit '' field''])"

definition invalid_field :: "string \<Rightarrow> string + 'a \<Rightarrow> 'a result" where
  "invalid_field key r = map_err (\<lambda>e. Recovery [Lit ''invalid '', Str key, Lit '': '', Str e]) r"

definition parse_journal_payload :: "journal_codec \<Rightarrow> json \<Rightarrow> journal_plan result" where
  "parse_journal_payload jc pay =
     (case pay of
        JObject m \<Rightarrow>
          bindr (required_field m PRIOR_STATE_KEY) (\<lambda>pv.
          bindr (invalid_field PRIOR_STATE_KEY (json_object jc pv)) (\<lambda>prior.
          bindr (map_err (\<lambda>e. Recovery ([Lit ''invalid '', Str PRIOR_STATE_KEY, Lit '': ''] @ display e))
            (validate_object prior)) (\<lambda>_.
          bindr (required_field m DELETION_KEY) (\<lambda>dv.
          bindr (invalid_field DELETION_KEY (json_replicas jc dv)) (\<lambda>dels.
          bindr (required_field m PHYSICAL_DELETION_KEY) (\<lambda>phv.
          bindr (case phv of JNull \<Rightarrow> Inr None
            | _ \<Rightarrow> bindr (invalid_field PHYSICAL_DELETION_KEY (json_replicas jc phv)) (\<lambda>rs. Inr (Some rs))) (\<lambda>phys.
          bindr (required_field m ARCHIVE_DELETION_KEY) (\<lambda>av.
          bindr (invalid_field ARCHIVE_DELETION_KEY (json_archives jc av)) (\<lambda>archs.
          Inr \<lparr>prior_object = prior, replica_deletions = dels, physical_replica_deletions = phys,
               archive_deletions = archs\<rparr>)))))))))
      | _ \<Rightarrow> Inl (Recovery [Lit ''journal payload must be a JSON object'']))"

definition parse_journal_deletions ::
  "journal_codec \<Rightarrow> json \<Rightarrow> (replica list \<times> replica list \<times> archive_record list) result" where
  "parse_journal_deletions jc pay =
     bindr (parse_journal_payload jc pay) (\<lambda>parsed.
     bindr (ok_or (physical_replica_deletions parsed)
       (Recovery [Lit ''physical journal phase has no durable physical deletion plan''])) (\<lambda>physical.
     Inr (replica_deletions parsed, physical, archive_deletions parsed)))"

text \<open>Every field of the two descriptors is compared.\<close>

definition same_replica_descriptor :: "replica \<Rightarrow> replica \<Rightarrow> bool" where
  "same_replica_descriptor l r \<longleftrightarrow>
     replica_id l = replica_id r \<and> rep_object_id l = rep_object_id r \<and> rep_generation l = rep_generation r \<and>
     rep_location l = rep_location r \<and> rep_size l = rep_size r \<and> rep_content_hash l = rep_content_hash r \<and>
     rep_created_at_ms l = rep_created_at_ms r \<and> verified_at_ms l = verified_at_ms r \<and>
     valid l = valid r \<and> owner_node l = owner_node r"

fun physical_subset :: "uuid list \<Rightarrow> replica list \<Rightarrow> replica list \<Rightarrow> unit result" where
  "physical_subset ids scheduled [] = Inr ()"
| "physical_subset ids scheduled (d # ds) =
     (if replica_id d \<in> set ids
      then Inl (Recovery [Lit ''duplicate physical replica deletion '', Uid (replica_id d)])
      else if \<not> (\<exists>c\<in>set scheduled. same_replica_descriptor c d)
      then Inl (Recovery [Lit ''physical replica deletion '', Uid (replica_id d),
        Lit '' is not an exact scheduled descriptor''])
      else physical_subset (replica_id d # ids) scheduled ds)"

definition validate_physical_subset :: "replica list \<Rightarrow> replica list \<Rightarrow> unit result" where
  "validate_physical_subset scheduled physical = physical_subset [] scheduled physical"

definition with_physical_deletions :: "journal_codec \<Rightarrow> json \<Rightarrow> replica list \<Rightarrow> json result" where
  "with_physical_deletions jc pay physical =
     bindr (parse_journal_payload jc pay) (\<lambda>parsed.
     if physical_replica_deletions parsed \<noteq> None
     then Inl (Recovery [Lit ''journal physical deletion plan is already set''])
     else
       bindr (validate_physical_subset (replica_deletions parsed) physical) (\<lambda>_.
       case pay of
         JObject m \<Rightarrow> Inr (JObject (bt_insert PHYSICAL_DELETION_KEY (replicas_json jc physical) m))
       | _ \<Rightarrow> Inl (Recovery [Lit ''journal payload must be a JSON object''])))"

definition journal_payload ::
  "journal_codec \<Rightarrow> reclaim_object \<Rightarrow> replica list \<Rightarrow> archive_record list \<Rightarrow> json" where
  "journal_payload jc prior deletions archive_dels =
     JObject (bt_insert ARCHIVE_DELETION_KEY (archives_json jc archive_dels)
       (bt_insert PHYSICAL_DELETION_KEY JNull
         (bt_insert DELETION_KEY (replicas_json jc deletions)
           (bt_insert PRIOR_STATE_KEY (object_json jc prior) []))))"

fun check_replica_deletions :: "journal_entry \<Rightarrow> uuid list \<Rightarrow> replica list \<Rightarrow> unit result" where
  "check_replica_deletions e ids [] = Inr ()"
| "check_replica_deletions e ids (r # rs) =
     (if rep_object_id r \<noteq> j_object_id e \<or> rep_generation r \<noteq> j_generation e
      then Inl (Recovery [Lit ''journal '', Uid (j_attempt_id e), Lit '' replica '', Uid (replica_id r),
        Lit '' belongs to '', Uid (rep_object_id r), Lit ''/'', Num (int (rep_generation r)),
        Lit '', expected '', Uid (j_object_id e), Lit ''/'', Num (int (j_generation e))])
      else if replica_id r \<in> set ids
      then Inl (Recovery [Lit ''journal '', Uid (j_attempt_id e),
        Lit '' contains duplicate replica deletion '', Uid (replica_id r)])
      else if loc_backend (rep_location r) = [] \<or> loc_key (rep_location r) = []
      then Inl (Recovery [Lit ''journal '', Uid (j_attempt_id e), Lit '' replica '', Uid (replica_id r),
        Lit '' has an empty backend or key''])
      else check_replica_deletions e (replica_id r # ids) rs)"

fun check_archive_deletions :: "journal_entry \<Rightarrow> string list \<Rightarrow> archive_record list \<Rightarrow> unit result" where
  "check_archive_deletions e ids [] = Inr ()"
| "check_archive_deletions e ids (a # as) =
     (if ar_object_id a \<noteq> j_object_id e \<or> ar_generation a \<noteq> j_generation e
      then Inl (Recovery [Lit ''journal '', Uid (j_attempt_id e), Lit '' archive '', Str (archive_id a),
        Lit '' belongs to '', Uid (ar_object_id a), Lit ''/'', Num (int (ar_generation a)),
        Lit '', expected '', Uid (j_object_id e), Lit ''/'', Num (int (j_generation e))])
      else if archive_id a \<in> set ids
      then Inl (Recovery [Lit ''journal '', Uid (j_attempt_id e),
        Lit '' contains duplicate archive deletion '', Str (archive_id a)])
      else if archive_id a = [] \<or> ar_backend a = [] \<or> ar_key a = []
      then Inl (Recovery [Lit ''journal '', Uid (j_attempt_id e),
        Lit '' contains an archive deletion with an empty id, backend, or key''])
      else check_archive_deletions e (archive_id a # ids) as)"

definition validate_payload_identity :: "journal_entry \<Rightarrow> journal_plan \<Rightarrow> unit result" where
  "validate_payload_identity e p =
     (if id (prior_object p) \<noteq> j_object_id e \<or> generation (prior_object p) \<noteq> j_generation e
      then Inl (Recovery [Lit ''journal '', Uid (j_attempt_id e), Lit '' prior object identity '',
        Uid (id (prior_object p)), Lit ''/'', Num (int (generation (prior_object p))),
        Lit '' does not match journal '', Uid (j_object_id e), Lit ''/'', Num (int (j_generation e))])
      else
        bindr (check_replica_deletions e [] (replica_deletions p)) (\<lambda>_.
        bindr (case physical_replica_deletions p of None \<Rightarrow> Inr ()
          | Some physical \<Rightarrow> map_err (\<lambda>x. Recovery ([Lit ''journal '', Uid (j_attempt_id e),
                Lit '' has invalid physical deletion plan: ''] @ display x))
              (validate_physical_subset (replica_deletions p) physical)) (\<lambda>_.
        check_archive_deletions e [] (archive_deletions p))))"

subsection \<open>Reference counts from live replicas\<close>

record live_entry =
  live_count :: nat
  live_key :: string
  live_size :: nat

type_synonym live_map = "((content_hash \<times> string) \<times> live_entry) list"

definition count_live ::
  "reclaim_object list \<Rightarrow> live_map \<Rightarrow> replica \<Rightarrow> live_map result" where
  "count_live objs live r =
     bindr (ok_or (row_of id objs (rep_object_id r))
       (Recovery [Lit ''orphan replica '', Uid (replica_id r), Lit '' references missing object '',
         Uid (rep_object_id r)])) (\<lambda>obj.
     if obj_state obj = Reclaimed
     then Inl (Recovery [Lit ''reclaimed object '', Uid (id obj), Lit '' still owns replica '',
       Uid (replica_id r),
       Lit ''; refusing to drop its dedup accounting while physical metadata remains''])
     else
       let identity = (rep_content_hash r, loc_backend (rep_location r)) in
       case map_of live identity of
         None \<Rightarrow> Inr (bt_insert identity
           \<lparr>live_count = 1, live_key = loc_key (rep_location r), live_size = rep_size r\<rparr> live)
       | Some x \<Rightarrow>
           if live_key x \<noteq> loc_key (rep_location r) \<or> live_size x \<noteq> rep_size r
           then Inl (Recovery [Lit ''live replicas for '', Hsh (fst identity), Lit '' on '',
             Str (snd identity), Lit '' disagree on canonical key or payload size''])
           else
             bindr (ok_or (checked_add_u64 (live_count x) 1)
               (Recovery [Lit ''dedup live reference count overflow''])) (\<lambda>n.
             Inr (bt_insert identity (x\<lparr>live_count := n\<rparr>) live)))"

definition live_dedup :: "content_hash \<times> string \<Rightarrow> live_entry \<Rightarrow> dedup_entry" where
  "live_dedup i x = \<lparr>de_content_hash = fst i, de_backend = snd i, de_key = live_key x,
     ref_count = live_count x, payload_size = live_size x\<rparr>"

text \<open>One stored entry: removed, repaired or left; what is left of the live map.\<close>

definition repair_entry ::
  "dedup_entry \<Rightarrow> live_map \<times> msg list \<Rightarrow> (live_map \<times> msg list) sop" where
  "repair_entry e acc =
     (let (live, repairs) = acc; identity = dedup_id e in
      case map_of live identity of
        None \<Rightarrow>
          bindS (delete_dedup (de_content_hash e) (de_backend e)) (\<lambda>_.
          returnS (live, repairs @ [[Lit ''removed unreferenced dedup entry for '',
            Hsh (de_content_hash e), Lit '' on '', Str (de_backend e)]]))
      | Some x \<Rightarrow>
          if ref_count e \<noteq> live_count x \<or> de_key e \<noteq> live_key x \<or> payload_size e \<noteq> live_size x
          then
            bindS (upsert_dedup (live_dedup identity x)) (\<lambda>_.
            returnS (bt_remove identity live, repairs @ [[Lit ''repaired dedup entry for '',
              Hsh (de_content_hash e), Lit '' on '', Str (de_backend e), Lit '' (refs '',
              Num (int (ref_count e)), Lit '' -> '', Num (int (live_count x)), Lit '')'']]))
          else returnS (bt_remove identity live, repairs))"

fun foldS :: "('a \<Rightarrow> 'b \<Rightarrow> ('s, 'e, 'b) op) \<Rightarrow> 'a list \<Rightarrow> 'b \<Rightarrow> ('s, 'e, 'b) op" where
  "foldS f [] b = returnS b"
| "foldS f (x # xs) b = bindS (f x b) (foldS f xs)"

definition recreate_entry :: "(content_hash \<times> string) \<times> live_entry \<Rightarrow> msg list \<Rightarrow> msg list sop" where
  "recreate_entry ix repairs =
     bindS (insert_dedup (live_dedup (fst ix) (snd ix))) (\<lambda>_.
     returnS (repairs @ [[Lit ''recreated missing dedup entry for '', Hsh (fst (fst ix)), Lit '' on '',
       Str (snd (fst ix))]]))"

definition live_references :: "store \<Rightarrow> live_map result" where
  "live_references s =
     bindr (list_objects s) (\<lambda>objs.
     bindr (all_replicas s) (\<lambda>rs.
     fold_r (count_live objs) [] rs))"

definition repair_dedup_counts :: "msg list sop" where
  "repair_dedup_counts =
     bindS (askS live_references) (\<lambda>live.
     bindS (askS (\<lambda>s. Inr (list_dedup s))) (\<lambda>stored.
     bindS (foldS repair_entry stored (live, [])) (\<lambda>(rest, repairs).
     foldS recreate_entry rest repairs)))"

subsection \<open>Rolling back and committing one attempt\<close>

definition recovery_audit ::
  "int \<Rightarrow> string \<Rightarrow> journal_entry \<Rightarrow> string option \<Rightarrow> string option \<Rightarrow> json \<Rightarrow> audit_entry" where
  "recovery_audit now act e prior new d = \<lparr>au_id = 0, au_ts_ms = now, actor = ''recovery'', action = act,
     au_object_id = Some (j_object_id e), au_generation = Some (j_generation e), prior_state = prior,
     new_state = new, au_policy = None, au_attempt_id = Some (j_attempt_id e), au_node = None, detail = d\<rparr>"

definition phase_detail :: "journal_entry \<Rightarrow> json" where
  "phase_detail e = JObject [(''phase'', JString (phase_str (j_phase e)))]"

definition restore_replica :: "journal_entry \<Rightarrow> replica \<Rightarrow> replica list \<Rightarrow> replica list sop" where
  "restore_replica e x known =
     (case row_of replica_id known (replica_id x) of
        Some a \<Rightarrow>
          if rep_object_id a \<noteq> rep_object_id x \<or> rep_generation a \<noteq> rep_generation x \<or>
             rep_location a \<noteq> rep_location x \<or> rep_size a \<noteq> rep_size x \<or>
             rep_content_hash a \<noteq> rep_content_hash x \<or> valid a \<noteq> valid x
          then failS (Recovery [Lit ''journal '', Uid (j_attempt_id e),
            Lit '' cannot roll back conflicting replica '', Uid (replica_id x)])
          else returnS known
      | None \<Rightarrow>
          if \<exists>a\<in>set known. loc_backend (rep_location a) = loc_backend (rep_location x) \<and>
               loc_key (rep_location a) = loc_key (rep_location x) \<and>
               (rep_content_hash a \<noteq> rep_content_hash x \<or> rep_size a \<noteq> rep_size x)
          then failS (Recovery [Lit ''journal '', Uid (j_attempt_id e), Lit '' cannot restore replica '',
            Uid (replica_id x), Lit '': its physical key is assigned to different content''])
          else bindS (add_replica x) (\<lambda>_. returnS (known @ [x])))"

definition restore_archive :: "journal_entry \<Rightarrow> archive_record \<Rightarrow> archive_record list \<Rightarrow> archive_record list sop" where
  "restore_archive e x known =
     (case row_of archive_id known (archive_id x) of
        Some a \<Rightarrow>
          if ar_object_id a \<noteq> ar_object_id x \<or> ar_generation a \<noteq> ar_generation x \<or>
             ar_backend a \<noteq> ar_backend x \<or> ar_key a \<noteq> ar_key x \<or> ar_size a \<noteq> ar_size x \<or>
             ar_content_hash a \<noteq> ar_content_hash x
          then failS (Recovery [Lit ''journal '', Uid (j_attempt_id e),
            Lit '' cannot roll back conflicting archive '', Str (archive_id x)])
          else returnS known
      | None \<Rightarrow>
          if \<exists>a\<in>set known. ar_backend a = ar_backend x \<and> ar_key a = ar_key x \<and>
               (ar_content_hash a \<noteq> ar_content_hash x \<or> ar_size a \<noteq> ar_size x)
          then failS (Recovery [Lit ''journal '', Uid (j_attempt_id e), Lit '' cannot restore archive '',
            Str (archive_id x), Lit '': its physical key is assigned to different content''])
          else bindS (insert_archive x) (\<lambda>_. returnS (known @ [x])))"

definition restore_rollback_metadata :: "journal_entry \<Rightarrow> journal_plan \<Rightarrow> unit sop" where
  "restore_rollback_metadata e p =
     bindS (askS all_replicas) (\<lambda>rs.
     bindS (foldS (restore_replica e) (replica_deletions p) rs) (\<lambda>_.
     bindS (askS (\<lambda>s. Inr (list_archives s))) (\<lambda>as.
     bindS (foldS (restore_archive e) (archive_deletions p) as) (\<lambda>_. returnS ()))))"

datatype reconcile_outcome = OutCommitted | OutRolledBack | OutFailed

text \<open>The first part of \<open>rollback\<close>: the object row; the audit entry it will append.\<close>

definition restore_object :: "int \<Rightarrow> journal_entry \<Rightarrow> journal_plan \<Rightarrow> audit_entry option sop" where
  "restore_object now e p =
     bindS (askS (get_object (j_object_id e))) (\<lambda>current.
     case current of
       Some obj \<Rightarrow>
         if generation obj \<noteq> j_generation e
         then failS (Recovery [Lit ''journal '', Uid (j_attempt_id e), Lit '' generation '',
           Num (int (j_generation e)), Lit '' cannot roll back current generation '',
           Num (int (generation obj))])
         else if obj_state obj \<noteq> obj_state (prior_object p)
         then bindS (update_object (prior_object p)) (\<lambda>_.
           returnS (Some (recovery_audit now ''RECOVERY_ROLLBACK'' e (Some (state_str (obj_state obj)))
             (Some (state_str (obj_state (prior_object p)))) (phase_detail e))))
         else returnS None
     | None \<Rightarrow>
         bindS (create_object (prior_object p)) (\<lambda>_.
         returnS (Some (recovery_audit now ''RECOVERY_RESTORE_OBJECT'' e None
           (Some (state_str (obj_state (prior_object p)))) (phase_detail e)))))"

definition rollback :: "int \<Rightarrow> journal_entry \<Rightarrow> journal_plan \<Rightarrow> reconcile_outcome sop" where
  "rollback now e p =
     bindS (restore_object now e p) (\<lambda>au.
     bindS (restore_rollback_metadata e p) (\<lambda>_.
     bindS repair_dedup_counts (\<lambda>_.
     bindS (case au of None \<Rightarrow> returnS () | Some a \<Rightarrow> append_audit a) (\<lambda>_.
     bindS (update_reservation_for_attempt (j_attempt_id e) ''RELEASED'') (\<lambda>_.
     bindS (reconcile_attempt (j_attempt_id e) ARolledBack now) (\<lambda>_.
     bindS (update_journal_phase (j_attempt_id e) RolledBack now) (\<lambda>_.
     returnS OutRolledBack)))))))"

text \<open>\<open>let _ = store.dedup_release(...)\<close>: the result is ignored, the effect is kept.\<close>

definition ignore_result :: "('s, 'e, 'a) op \<Rightarrow> ('s, 'e, unit) op" where
  "ignore_result m = (\<lambda>s. (Inr (), snd (m s)))"

definition drop_replica :: "journal_entry \<Rightarrow> replica list \<Rightarrow> replica \<Rightarrow> unit sop" where
  "drop_replica e known r =
     (if (case row_of replica_id known (replica_id r) of None \<Rightarrow> False
          | Some a \<Rightarrow> rep_object_id a \<noteq> rep_object_id r \<or> rep_generation a \<noteq> rep_generation r \<or>
              rep_location a \<noteq> rep_location r \<or> rep_content_hash a \<noteq> rep_content_hash r)
      then failS (Recovery [Lit ''journal '', Uid (j_attempt_id e), Lit '' replica deletion '',
        Uid (replica_id r), Lit '' does not match stored metadata''])
      else
        bindS (delete_replica (replica_id r)) (\<lambda>_.
        ignore_result (dedup_release (rep_content_hash r) (loc_backend (rep_location r)))))"

definition drop_archive :: "journal_entry \<Rightarrow> archive_record list \<Rightarrow> archive_record \<Rightarrow> unit sop" where
  "drop_archive e known x =
     (if (case row_of archive_id known (archive_id x) of None \<Rightarrow> False
          | Some a \<Rightarrow> ar_object_id a \<noteq> ar_object_id x \<or> ar_generation a \<noteq> ar_generation x \<or>
              ar_backend a \<noteq> ar_backend x \<or> ar_key a \<noteq> ar_key x \<or> ar_content_hash a \<noteq> ar_content_hash x)
      then failS (Recovery [Lit ''journal '', Uid (j_attempt_id e), Lit '' archive deletion '',
        Str (archive_id x), Lit '' does not match stored metadata''])
      else delete_archive (archive_id x))"

definition mark_reclaimed :: "int \<Rightarrow> journal_entry \<Rightarrow> reclaim_object \<Rightarrow> unit sop" where
  "mark_reclaimed now e current =
     (if obj_state current \<noteq> Reclaimed \<or> replication_count current \<noteq> 0 \<or> physical_size current \<noteq> 0 \<or>
         compressed_size current \<noteq> None
      then
        bindS (update_object (current\<lparr>obj_state := Reclaimed, replication_count := 0, physical_size := 0,
          compressed_size := None\<rparr>)) (\<lambda>_.
        append_audit (recovery_audit now ''RECOVERY_COMMIT'' e (Some (state_str (obj_state current)))
          (Some (state_str Reclaimed)) (JObject [(''phase'', JString (phase_str (j_phase e))),
            (''physical_confirmed'', JString ''payload gone'')])))
      else returnS ())"

definition commit_after_crash :: "int \<Rightarrow> journal_entry \<Rightarrow> journal_plan \<Rightarrow> reconcile_outcome sop" where
  "commit_after_crash now e p =
     bindS (askS (\<lambda>s. bindr (get_object (j_object_id e) s) (\<lambda>o'. ok_or o'
       (Recovery [Lit ''journal '', Uid (j_attempt_id e), Lit '' cannot commit: object '',
         Uid (j_object_id e), Lit '' is missing''])))) (\<lambda>current.
     if generation current \<noteq> j_generation e
     then failS (Recovery [Lit ''journal '', Uid (j_attempt_id e), Lit '' generation '',
       Num (int (j_generation e)), Lit '' cannot commit current generation '',
       Num (int (generation current))])
     else
       bindS (askS all_replicas) (\<lambda>rs.
       bindS (forS (replica_deletions p) (drop_replica e rs)) (\<lambda>_.
       bindS (askS (\<lambda>s. Inr (list_archives s))) (\<lambda>as.
       bindS (forS (archive_deletions p) (drop_archive e as)) (\<lambda>_.
       bindS (mark_reclaimed now e current) (\<lambda>_.
       bindS (update_reservation_for_attempt (j_attempt_id e) ''COMMITTED'') (\<lambda>_.
       bindS (reconcile_attempt (j_attempt_id e) ACommitted now) (\<lambda>_.
       bindS (update_journal_phase (j_attempt_id e) Committed now) (\<lambda>_.
       returnS OutCommitted)))))))))"

subsection \<open>One journal entry\<close>

definition pre_physical :: "journal_phase \<Rightarrow> bool" where
  "pre_physical ph \<longleftrightarrow> ph = Reserved \<or> ph = Validated"

text \<open>An older payload without the plan marker gets the null marker, before the physical phases.\<close>

definition compatible_payload :: "journal_entry \<Rightarrow> json" where
  "compatible_payload e =
     (if pre_physical (j_phase e)
      then (case j_payload e of
          JObject m \<Rightarrow> JObject (case map_of m PHYSICAL_DELETION_KEY of
              None \<Rightarrow> bt_insert PHYSICAL_DELETION_KEY JNull m | Some _ \<Rightarrow> m)
        | v \<Rightarrow> v)
      else j_payload e)"

definition plan_matches_phase :: "journal_entry \<Rightarrow> journal_plan \<Rightarrow> unit result" where
  "plan_matches_phase e p =
     (if pre_physical (j_phase e) \<and> physical_replica_deletions p \<noteq> None
      then Inl (Recovery [Lit ''journal '', Uid (j_attempt_id e),
        Lit '' has a physical deletion plan before PHYSICAL_STARTED''])
      else if (j_phase e = PhysicalStarted \<or> j_phase e = PhysicalDone) \<and> physical_replica_deletions p = None
      then Inl (Recovery [Lit ''journal '', Uid (j_attempt_id e),
        Lit '' physical phase has no durable physical deletion plan''])
      else Inr ())"

definition reconcile_entry ::
  "journal_codec \<Rightarrow> int \<Rightarrow> journal_entry \<Rightarrow> (json \<Rightarrow> bool result) \<Rightarrow> reconcile_outcome sop" where
  "reconcile_entry jc now e physical_state =
     bindS (liftS (map_err (\<lambda>x. Recovery ([Lit ''journal '', Uid (j_attempt_id e),
         Lit '' corrupt payload: ''] @ display x)) (parse_journal_payload jc (compatible_payload e)))) (\<lambda>parsed.
     bindS (liftS (validate_payload_identity e parsed)) (\<lambda>_.
     bindS (liftS (plan_matches_phase e parsed)) (\<lambda>_.
     case j_phase e of
       Committed \<Rightarrow> returnS OutFailed
     | RolledBack \<Rightarrow> returnS OutFailed
     | JFailed \<Rightarrow> returnS OutFailed
     | Reserved \<Rightarrow> rollback now e parsed
     | Validated \<Rightarrow> rollback now e parsed
     | _ \<Rightarrow>
         if physical_replica_deletions parsed = Some [] \<and> archive_deletions parsed = []
         then (if j_phase e = PhysicalDone then commit_after_crash now e parsed else rollback now e parsed)
         else
           bindS (liftS (physical_state (j_payload e))) (\<lambda>present.
           if present then rollback now e parsed else commit_after_crash now e parsed))))"

subsection \<open>The whole store\<close>

record recovery_report =
  reconciled_attempts :: nat
  committed :: "uuid list"
  rolled_back :: "uuid list"
  abandoned_reservations :: nat
  dedup_repairs :: "msg list"
  lineage_ok :: bool
  report_errors :: "msg list"

definition empty_report :: recovery_report where
  "empty_report = \<lparr>reconciled_attempts = 0, committed = [], rolled_back = [], abandoned_reservations = 0,
     dedup_repairs = [], lineage_ok = True, report_errors = []\<rparr>"

text \<open>A failure of one entry is recorded and the loop goes on.\<close>

definition reconcile_one ::
  "journal_codec \<Rightarrow> int \<Rightarrow> (json \<Rightarrow> bool result) \<Rightarrow> journal_entry \<Rightarrow> recovery_report \<Rightarrow> recovery_report sop" where
  "reconcile_one jc now physical_state e rep = (\<lambda>s.
     let rep1 = rep\<lparr>reconciled_attempts := reconciled_attempts rep + 1\<rparr> in
     case reconcile_entry jc now e physical_state s of
       (Inr OutCommitted, s') \<Rightarrow> (Inr (rep1\<lparr>committed := committed rep1 @ [j_attempt_id e]\<rparr>), s')
     | (Inr OutRolledBack, s') \<Rightarrow> (Inr (rep1\<lparr>rolled_back := rolled_back rep1 @ [j_attempt_id e]\<rparr>), s')
     | (Inr OutFailed, s') \<Rightarrow> (Inr (rep1\<lparr>report_errors := report_errors rep1 @
         [[Lit ''attempt '', Uid (j_attempt_id e), Lit '' could not be reconciled safely'']]\<rparr>), s')
     | (Inl x, s') \<Rightarrow> (Inr (rep1\<lparr>report_errors := report_errors rep1 @
         [[Lit ''attempt '', Uid (j_attempt_id e), Lit '': ''] @ display x]\<rparr>), s'))"

definition expire_reservation :: "int \<Rightarrow> reservation \<Rightarrow> nat \<Rightarrow> nat sop" where
  "expire_reservation now r n =
     (if expires_at_ms r > now then returnS n
      else
        bindS (askS (\<lambda>s. Inr (get_journal (r_attempt_id r) s))) (\<lambda>j.
        if (case j of None \<Rightarrow> False | Some e \<Rightarrow>
              j_phase e \<in> {Reserved, Validated, PhysicalStarted, PhysicalDone})
        then returnS n
        else
          bindS (askS (get_object (r_object_id r))) (\<lambda>current.
          bindS (case current of
              Some obj \<Rightarrow>
                if obj_state obj = ReclaimPending
                then
                  bindS (update_object (obj\<lparr>obj_state := Failed\<rparr>)) (\<lambda>_.
                  append_audit \<lparr>au_id = 0, au_ts_ms = now, actor = ''recovery'',
                    action = ''RECOVERY_MARK_FAILED'', au_object_id = Some (id obj),
                    au_generation = Some (generation obj),
                    prior_state = Some (state_str ReclaimPending), new_state = Some (state_str Failed),
                    au_policy = None, au_attempt_id = Some (r_attempt_id r), au_node = None,
                    detail = JObject [(''reason'',
                      JString ''expired reservation with no reconcileable journal'')]\<rparr>)
                else returnS ()
            | None \<Rightarrow> returnS ()) (\<lambda>_.
          bindS (update_reservation (reservation_id r) ''EXPIRED'') (\<lambda>_.
          bindS (reconcile_attempt (r_attempt_id r) AFailed now) (\<lambda>_.
          returnS (n + 1)))))))"

text \<open>
  \<open>LineageGraph::validate\<close> never panics on a loaded graph (\<open>None\<close>, theory Lineage), so
  that branch is unreachable; it is kept as an error.
\<close>

definition reconcile_lineage :: "recovery_report \<Rightarrow> recovery_report sop" where
  "reconcile_lineage rep =
     bindS (askS stored_lineage_graph) (\<lambda>g.
     case validate_graph g of
       Some (Inr _) \<Rightarrow> returnS (rep\<lparr>lineage_ok := True\<rparr>)
     | Some (Inl x) \<Rightarrow> returnS (rep\<lparr>lineage_ok := False,
         report_errors := report_errors rep @ [Lit ''lineage validation: '' # display x]\<rparr>)
     | None \<Rightarrow> failS (Internal [Lit ''panic'']))"

definition reconcile_store ::
  "journal_codec \<Rightarrow> int \<Rightarrow> (json \<Rightarrow> bool result) \<Rightarrow> recovery_report sop" where
  "reconcile_store jc now physical_state =
     bindS (askS (\<lambda>s. Inr (list_open_journal s))) (\<lambda>entries'.
     bindS (foldS (reconcile_one jc now physical_state) entries' empty_report) (\<lambda>rep.
     bindS (askS list_open_reservations) (\<lambda>rs.
     bindS (foldS (expire_reservation now) rs 0) (\<lambda>n.
     bindS repair_dedup_counts (\<lambda>repairs.
     reconcile_lineage (rep\<lparr>abandoned_reservations := n, dedup_repairs := repairs\<rparr>))))))"

definition close_reservation :: "reservation \<Rightarrow> string \<Rightarrow> unit sop" where
  "close_reservation r st = update_reservation (reservation_id r) st"

subsection \<open>Recovery keeps every invariant of the store\<close>

lemma keeps_foldS: "(\<And>x b. keeps P (f x b)) \<Longrightarrow> keeps P (foldS f xs b)"
  by (induction xs arbitrary: b) (auto intro: keeps_intros)

lemma keeps_ignore_result: "keeps P m \<Longrightarrow> keeps P (ignore_result m)"
  by (simp add: keeps_def ignore_result_def)

lemma keeps_prod: "(\<And>a b. keeps P (f a b)) \<Longrightarrow> keeps P (case x of (a, b) \<Rightarrow> f a b)"
  by (cases x) simp

context store_invariant
begin

lemma k_repair_entry: "keeps P (repair_entry e acc)"
  unfolding repair_entry_def Let_def
  by (intro keeps_prod keeps_intros k_delete_dedup k_upsert_dedup)

lemma k_repair_dedup_counts: "keeps P repair_dedup_counts"
  unfolding repair_dedup_counts_def recreate_entry_def
  by (intro keeps_intros keeps_foldS keeps_prod k_repair_entry k_insert_dedup)

lemma k_restore_rollback_metadata: "keeps P (restore_rollback_metadata e p)"
  unfolding restore_rollback_metadata_def restore_replica_def restore_archive_def
  by (intro keeps_intros keeps_foldS k_add_replica k_insert_archive)

lemma k_restore_object: "keeps P (restore_object now e p)"
  unfolding restore_object_def by (intro keeps_intros k_update_object k_create_object)

lemma k_rollback: "keeps P (rollback now e p)"
  unfolding rollback_def
  by (intro keeps_intros k_restore_object k_restore_rollback_metadata k_repair_dedup_counts k_append_audit
      k_update_reservation_for_attempt k_reconcile_attempt k_update_journal_phase)

lemma k_drop_replica: "keeps P (drop_replica e known r)"
  unfolding drop_replica_def by (intro keeps_intros keeps_ignore_result k_delete_replica k_dedup_release)

lemma k_drop_archive: "keeps P (drop_archive e known a)"
  unfolding drop_archive_def by (intro keeps_intros k_delete_archive)

lemma k_mark_reclaimed: "keeps P (mark_reclaimed now e cur)"
  unfolding mark_reclaimed_def by (intro keeps_intros k_update_object k_append_audit)

lemma k_commit_after_crash: "keeps P (commit_after_crash now e p)"
  unfolding commit_after_crash_def
  by (intro keeps_intros k_drop_replica k_drop_archive k_mark_reclaimed k_update_reservation_for_attempt
      k_reconcile_attempt k_update_journal_phase)

lemma k_reconcile_entry: "keeps P (reconcile_entry jc now e physical_state)"
  unfolding reconcile_entry_def
  by (cases "j_phase e") (auto intro!: keeps_intros k_rollback k_commit_after_crash)

lemma k_reconcile_one: "keeps P (reconcile_one jc now physical_state e rep)"
  unfolding keeps_def
proof (intro allI impI)
  fix s
  assume "P s"
  then have "P (snd (reconcile_entry jc now e physical_state s))" by (rule keepsD [OF k_reconcile_entry])
  moreover have "snd (reconcile_one jc now physical_state e rep s) = snd (reconcile_entry jc now e physical_state s)"
    by (auto simp: reconcile_one_def Let_def split: prod.splits sum.splits reconcile_outcome.splits)
  ultimately show "P (snd (reconcile_one jc now physical_state e rep s))" by simp
qed

lemma k_expire_reservation: "keeps P (expire_reservation now r n)"
  unfolding expire_reservation_def
  by (intro keeps_intros k_update_object k_append_audit k_update_reservation k_reconcile_attempt)

lemma k_reconcile_lineage: "keeps P (reconcile_lineage rep)"
  unfolding reconcile_lineage_def
  by (rule keeps_bind [OF keeps_ask])
    (auto intro: keeps_intros split: option.splits sum.splits)

lemma k_reconcile_store: "keeps P (reconcile_store jc now physical_state)"
  unfolding reconcile_store_def
  by (intro keeps_bind keeps_foldS keeps_ask k_reconcile_one k_expire_reservation k_repair_dedup_counts
      k_reconcile_lineage)

end

subsection \<open>The repaired counts are the live replicas\<close>

definition replica_identity :: "replica \<Rightarrow> content_hash \<times> string" where
  "replica_identity r = (rep_content_hash r, loc_backend (rep_location r))"

definition sharing :: "replica list \<Rightarrow> content_hash \<times> string \<Rightarrow> replica list" where
  "sharing rs i = filter (\<lambda>r. replica_identity r = i) rs"

text \<open>The live map of a list of replicas: what it says of each identity.\<close>

definition live_for :: "replica list \<Rightarrow> content_hash \<times> string \<Rightarrow> live_entry option \<Rightarrow> bool" where
  "live_for rs i x =
     (case x of
        None \<Rightarrow> sharing rs i = []
      | Some x \<Rightarrow> sharing rs i \<noteq> [] \<and> live_count x = length (sharing rs i) \<and>
          (\<forall>r\<in>set (sharing rs i). loc_key (rep_location r) = live_key x \<and> rep_size r = live_size x))"

definition live_ok :: "replica list \<Rightarrow> live_map \<Rightarrow> bool" where
  "live_ok rs live \<longleftrightarrow> bt_wf live \<and> (\<forall>i. live_for rs i (map_of live i))"

lemma sharing_snoc: "sharing (rs @ [r]) i = sharing rs i @ (if replica_identity r = i then [r] else [])"
  by (simp add: sharing_def)

lemma live_for_other: "replica_identity r \<noteq> i \<Longrightarrow> live_for (rs @ [r]) i x = live_for rs i x"
  by (simp add: live_for_def sharing_snoc cong: option.case_cong)

lemma count_live_ok:
  assumes "live_ok rs live" and "count_live objs live r = Inr live'"
  shows "live_ok (rs @ [r]) live'"
proof -
  let ?i = "replica_identity r"
  have wf: "bt_wf live" and "\<forall>j. live_for rs j (map_of live j)" using assms(1) unfolding live_ok_def by blast+
  then have f: "live_for rs j (map_of live j)" for j by blast
  obtain y where l: "live' = bt_insert ?i y live" and y: "live_for (rs @ [r]) ?i (Some y)"
  proof (cases "map_of live ?i")
    case None
    then have "live' = bt_insert ?i \<lparr>live_count = 1, live_key = loc_key (rep_location r), live_size = rep_size r\<rparr> live"
      using assms(2) by (auto simp: count_live_def Let_def bindr_Inr_iff replica_identity_def split: if_splits)
    moreover have "sharing rs ?i = []" using f [of ?i] None by (simp add: live_for_def)
    ultimately show thesis by (intro that) (auto simp: live_for_def sharing_snoc)
  next
    case (Some x)
    then have "live' = bt_insert ?i (x\<lparr>live_count := live_count x + 1\<rparr>) live"
      and "live_key x = loc_key (rep_location r)" "live_size x = rep_size r"
      using assms(2) by (auto simp: count_live_def Let_def bindr_Inr_iff ok_or_Inr_iff checked_add_u64_def
        replica_identity_def split: if_splits)
    then show thesis using f [of ?i] Some by (intro that) (auto simp: live_for_def sharing_snoc)
  qed
  have "live_for (rs @ [r]) j (map_of live' j)" for j
    by (cases "j = ?i") (use wf y f [of j] in \<open>auto simp: l live_for_other\<close>)
  then show ?thesis using wf by (simp add: live_ok_def l)
qed

lemma fold_count_live_ok:
  "fold_r (count_live objs) live rs = Inr live' \<Longrightarrow> live_ok qs live \<Longrightarrow> live_ok (qs @ rs) live'"
proof (induction rs arbitrary: live qs)
  case Nil
  then show ?case by simp
next
  case (Cons r rs)
  then obtain l1 where "count_live objs live r = Inr l1" "fold_r (count_live objs) l1 rs = Inr live'"
    by (auto simp: bindr_Inr_iff)
  then show ?case using Cons.IH [of l1 "qs @ [r]"] count_live_ok Cons.prems(2) by fastforce
qed

lemma loaded_replicas:
  assumes "all_replicas s = Inr rs" and "store_wf s"
  shows "rs = sort_key replica_id (t_replicas s)"
proof -
  have "load_replica r = Inr r" if "r \<in> set (t_replicas s)" for r
    using that assms(2) by (auto simp: store_wf_def keyed_def replica_stored_def load_replica_def checked_replica_def)
  then show ?thesis
    using assms(1) collect_all [of "sort_key replica_id (t_replicas s)" load_replica] by (simp add: all_replicas_def)
qed

lemma live_references_ok:
  assumes "live_references s = Inr live" and "store_wf s"
  shows "\<exists>rs. mset rs = mset (t_replicas s) \<and> live_ok rs live"
proof -
  from assms(1) obtain rs objs where rs: "all_replicas s = Inr rs" and f: "fold_r (count_live objs) [] rs = Inr live"
    by (auto simp: live_references_def bindr_Inr_iff)
  have "live_ok [] []" by (simp add: live_ok_def live_for_def sharing_def)
  then show ?thesis using fold_count_live_ok [OF f] loaded_replicas [OF rs assms(2)] by (metis append_Nil mset_sort)
qed

lemma delete_dedup_apply: "delete_dedup h b s = (Inr (), s\<lparr>t_dedup := filter (\<lambda>d. dedup_id d \<noteq> (h, b)) (t_dedup s)\<rparr>)"
  by (simp add: delete_dedup_def)

lemma row_of_replace:
  "row_of key (rows_update (\<lambda>q. key q = key r) (\<lambda>_. r) t) k =
     (if k = key r then (if key r \<in> key ` set t then Some r else None) else row_of key t k)"
  by (induction t) (auto simp: rows_update_def)

lemma row_of_missing: "k \<notin> key ` set t \<Longrightarrow> row_of key t k = None"
  by (induction t) auto

lemma row_of_upsert:
  "row_of key (if key r \<in> key ` set t then rows_update (\<lambda>q. key q = key r) (\<lambda>_. r) t else t @ [r]) k =
     (if k = key r then Some r else row_of key t k)"
  by (simp add: row_of_replace row_of_append row_of_missing split: option.split)

text \<open>What the table of payloads says of an identity.\<close>

abbreviation dedup_at :: "store \<Rightarrow> content_hash \<times> string \<Rightarrow> dedup_entry option" where
  "dedup_at s \<equiv> row_of dedup_id (t_dedup s)"

lemma dedup_id_live [simp]: "dedup_id (live_dedup i x) = i"
  by (simp add: dedup_id_def live_dedup_def)

lemma upsert_dedup_Inr:
  "upsert_dedup e s = (Inr u, s') \<Longrightarrow> dedup_at s' = (dedup_at s)(dedup_id e \<mapsto> e)"
  by (rule ext) (auto simp: upsert_dedup_def bindS_Inr row_of_upsert)

lemma insert_dedup_Inr:
  assumes "insert_dedup e s = (Inr u, s')"
  shows "dedup_at s' = (dedup_at s)(dedup_id e \<mapsto> e)"
proof -
  have "dedup_id e \<notin> dedup_id ` set (t_dedup s)" and "s' = s\<lparr>t_dedup := t_dedup s @ [e]\<rparr>"
    using assms by (auto simp: insert_dedup_def bindS_Inr updS_apply unique_insert_def split: sum.splits if_splits)
  then show ?thesis by (auto simp: fun_eq_iff row_of_append row_of_missing split: option.split)
qed

lemma repair_entry_Inr:
  assumes "repair_entry e (live, reps) s = (Inr (live', reps'), s')" and "bt_wf live"
    and "dedup_at s (dedup_id e) = Some e"
  shows "bt_wf live' \<and> map_of live' = (map_of live)(dedup_id e := None) \<and>
    dedup_at s' = (dedup_at s)(dedup_id e := map_option (live_dedup (dedup_id e)) (map_of live (dedup_id e)))"
proof (cases "map_of live (dedup_id e)")
  case None
  then have "live' = live" "s' = s\<lparr>t_dedup := filter (\<lambda>d. dedup_id d \<noteq> dedup_id e) (t_dedup s)\<rparr>"
    using assms(1) by (auto simp: repair_entry_def Let_def bindS_Inr delete_dedup_apply dedup_id_def)
  then show ?thesis using None assms(2) by (auto simp: row_of_filter_key fun_eq_iff)
next
  case (Some x)
  show ?thesis
  proof (cases "ref_count e \<noteq> live_count x \<or> de_key e \<noteq> live_key x \<or> payload_size e \<noteq> live_size x")
    case True
    then have "live' = bt_remove (dedup_id e) live" "upsert_dedup (live_dedup (dedup_id e) x) s = (Inr (), s')"
      using assms(1) Some by (auto simp: repair_entry_def Let_def bindS_Inr)
    then show ?thesis using Some assms(2) upsert_dedup_Inr by fastforce
  next
    case False
    then have "live' = bt_remove (dedup_id e) live" "s' = s"
      using assms(1) Some by (auto simp: repair_entry_def Let_def)
    moreover have "live_dedup (dedup_id e) x = e" using False by (simp add: live_dedup_def dedup_id_def)
    ultimately show ?thesis using Some assms(2,3) by (auto simp: fun_eq_iff)
  qed
qed

lemma repair_entries:
  assumes "foldS repair_entry es (live, reps) s = (Inr (live', reps'), s')" and "bt_wf live"
    and "distinct (map dedup_id es)" and "\<forall>e\<in>set es. dedup_at s (dedup_id e) = Some e"
  shows "bt_wf live' \<and> map_of live' i = (if i \<in> dedup_id ` set es then None else map_of live i) \<and>
    dedup_at s' i =
      (if i \<in> dedup_id ` set es then map_option (live_dedup i) (map_of live i) else dedup_at s i)"
  using assms
proof (induction es arbitrary: live reps s)
  case Nil
  then show ?case by simp
next
  case (Cons e es)
  from Cons.prems(1) obtain l1 r1 s1 where 1: "repair_entry e (live, reps) s = (Inr (l1, r1), s1)"
    and 2: "foldS repair_entry es (l1, r1) s1 = (Inr (live', reps'), s')"
    by (auto simp: bindS_Inr)
  note h = repair_entry_Inr [OF 1 Cons.prems(2)]
  have n: "dedup_id e \<notin> dedup_id ` set es" using Cons.prems(3) by simp
  have h: "bt_wf l1" "map_of l1 = (map_of live)(dedup_id e := None)"
    "dedup_at s1 = (dedup_at s)(dedup_id e := map_option (live_dedup (dedup_id e)) (map_of live (dedup_id e)))"
    using h Cons.prems(4) by simp_all
  have "\<forall>x\<in>set es. dedup_at s1 (dedup_id x) = Some x" using Cons.prems(4) n by (auto simp: h image_iff)
  from Cons.IH [OF 2 h(1) _ this] Cons.prems(3) n show ?case by (simp add: h)
qed

lemma map_of_Cons_if: "map_of (x # m) k = (if k = fst x then Some (snd x) else map_of m k)"
  by (cases x) simp

lemma recreate_entries:
  assumes "foldS recreate_entry ixs reps s = (Inr reps', s')" and "distinct (map fst ixs)"
  shows "dedup_at s' i = (case map_of ixs i of None \<Rightarrow> dedup_at s i | Some x \<Rightarrow> Some (live_dedup i x))"
  using assms
proof (induction ixs arbitrary: reps s)
  case Nil
  then show ?case by simp
next
  case (Cons ix ixs)
  from Cons.prems(1) obtain s1 r1 where 1: "insert_dedup (live_dedup (fst ix) (snd ix)) s = (Inr (), s1)"
    and 2: "foldS recreate_entry ixs r1 s1 = (Inr reps', s')"
    by (auto simp: bindS_Inr recreate_entry_def [of ix])
  have n: "map_of ixs (fst ix) = None" using Cons.prems(2) by (simp add: map_of_eq_None_iff)
  show ?case using Cons.IH [OF 2] insert_dedup_Inr [OF 1] Cons.prems(2) n
    by (cases "i = fst ix") (simp_all add: map_of_Cons_if split: option.split)
qed

lemma repaired_dedup:
  assumes "repair_dedup_counts s = (Inr repairs, s')" and "store_wf s"
  shows "\<exists>live rs. mset rs = mset (t_replicas s) \<and> live_ok rs live \<and>
    (\<forall>i. dedup_at s' i = map_option (live_dedup i) (map_of live i))"
proof -
  from assms(1) obtain live rest reps s1 where l: "live_references s = Inr live"
    and 1: "foldS repair_entry (list_dedup s) (live, []) s = (Inr (rest, reps), s1)"
    and 2: "foldS recreate_entry rest reps s1 = (Inr repairs, s')"
    by (auto simp: repair_dedup_counts_def bindS_Inr)
  from live_references_ok [OF l assms(2)] obtain rs where rs: "mset rs = mset (t_replicas s)" "live_ok rs live" by blast
  have d: "distinct (map dedup_id (t_dedup s))" using assms(2) by (simp add: store_wf_def keyed_def)
  have s: "mset (list_dedup s) = mset (t_dedup s)" by (simp add: list_dedup_def)
  have d': "distinct (map dedup_id (list_dedup s))"
    using d by (metis s mset_map mset_eq_imp_distinct_iff)
  have m: "set (list_dedup s) = set (t_dedup s)" using s by (rule mset_eq_setD)
  have "\<forall>e\<in>set (list_dedup s). dedup_at s (dedup_id e) = Some e" using row_of_distinct [OF d] m by simp
  note h = repair_entries [OF 1 _ d' this]
  have wf: "bt_wf live" using rs(2) by (simp add: live_ok_def)
  note h = h [OF wf]
  have d2: "distinct (map fst rest)" using h by (simp add: bt_wf_def)
  have "dedup_at s' i = map_option (live_dedup i) (map_of live i)" for i
  proof (cases "i \<in> dedup_id ` set (list_dedup s)")
    case True
    then show ?thesis using recreate_entries [OF 2 d2, of i] h [of i] by simp
  next
    case False
    then have "dedup_at s i = None" by (simp add: m row_of_missing)
    then show ?thesis using False recreate_entries [OF 2 d2, of i] h [of i] by (simp split: option.split)
  qed
  with rs show ?thesis by blast
qed

end
