(* ===== verification/RecoveryOutcome.thy ===== *)
theory RecoveryOutcome
  imports Recovery
begin

section \<open>What recovery leaves behind (src/recovery.rs)\<close>

text \<open>
  The outcomes of reconciliation, over the operations of theory Recovery: the reference counts
  after a repair, when an interrupted reclaim may be committed, and what a committed and a
  rolled-back attempt look like in the store afterwards.
\<close>

subsection \<open>Counts\<close>

text \<open>Everything in the store but the table of payloads.\<close>

definition beside_dedup :: "store \<Rightarrow> store" where
  "beside_dedup s = s\<lparr>t_dedup := []\<rparr>"

lemma beside_dedup_fields:
  assumes "beside_dedup s' = beside_dedup s"
  shows "t_objects s' = t_objects s" "t_replicas s' = t_replicas s" "t_archives s' = t_archives s"
    "t_journal s' = t_journal s" "t_attempts s' = t_attempts s" "t_reservations s' = t_reservations s"
proof -
  have "t_objects (beside_dedup s') = t_objects (beside_dedup s)" "t_replicas (beside_dedup s') = t_replicas (beside_dedup s)"
    "t_archives (beside_dedup s') = t_archives (beside_dedup s)" "t_journal (beside_dedup s') = t_journal (beside_dedup s)"
    "t_attempts (beside_dedup s') = t_attempts (beside_dedup s)"
    "t_reservations (beside_dedup s') = t_reservations (beside_dedup s)"
    using assms by simp_all
  then show "t_objects s' = t_objects s" "t_replicas s' = t_replicas s" "t_archives s' = t_archives s"
    "t_journal s' = t_journal s" "t_attempts s' = t_attempts s" "t_reservations s' = t_reservations s"
    by (simp_all add: beside_dedup_def)
qed

lemma beside_dedup_update [simp]: "beside_dedup (s\<lparr>t_dedup := d\<rparr>) = beside_dedup s"
  by (simp add: beside_dedup_def)

lemma beside_delete_dedup: "keeps (\<lambda>s. beside_dedup s = X) (delete_dedup h b)"
  by (simp add: keeps_def delete_dedup_def)

lemma beside_upsert_dedup: "keeps (\<lambda>s. beside_dedup s = X) (upsert_dedup e)"
  unfolding upsert_dedup_def by (auto simp: keeps_def bindS_apply split: sum.splits)

lemma beside_insert_dedup: "keeps (\<lambda>s. beside_dedup s = X) (insert_dedup e)"
  unfolding insert_dedup_def by (auto simp: keeps_def bindS_apply updS_apply bindr_Inr_iff split: sum.splits)

lemma beside_dedup_release: "keeps (\<lambda>s. beside_dedup s = X) (dedup_release h b)"
  unfolding dedup_release_def Let_def
  by (intro keeps_intros) (auto simp: keeps_def execS_apply)

lemma beside_repair: "keeps (\<lambda>s. beside_dedup s = X) repair_dedup_counts"
  unfolding repair_dedup_counts_def recreate_entry_def repair_entry_def Let_def
  by (intro keeps_intros keeps_foldS keeps_prod beside_delete_dedup beside_upsert_dedup beside_insert_dedup)

lemma repair_replicas: "repair_dedup_counts s = (Inr repairs, s') \<Longrightarrow> t_replicas s' = t_replicas s"
  using keepsD [OF beside_repair [of "beside_dedup s"], of s] by (intro beside_dedup_fields(2)) simp

lemma sharing_mset: "mset rs = mset qs \<Longrightarrow> mset (sharing rs i) = mset (sharing qs i)"
  by (simp add: sharing_def)

lemma live_for_mset: "mset rs = mset qs \<Longrightarrow> live_for rs i x = live_for qs i x"
  using sharing_mset [of rs qs i] mset_eq_setD [OF sharing_mset, of rs qs i] mset_eq_length [OF sharing_mset, of rs qs i]
  by (cases x) (auto simp: live_for_def)

lemma repaired_refs:
  assumes "repair_dedup_counts s = (Inr repairs, s')" and "store_wf s"
  shows "store_refs s' i = Some (length (sharing (t_replicas s') i)) \<and>
    (case dedup_at s' i of None \<Rightarrow> sharing (t_replicas s') i = []
     | Some e \<Rightarrow> \<forall>r\<in>set (sharing (t_replicas s') i). loc_key (rep_location r) = de_key e \<and> rep_size r = payload_size e)"
proof -
  from repaired_dedup [OF assms] obtain live rs where rs: "mset rs = mset (t_replicas s)" "live_ok rs live"
    and d: "\<forall>i. dedup_at s' i = map_option (live_dedup i) (map_of live i)" by blast
  have "live_for rs i (map_of live i)" using rs(2) unfolding live_ok_def by blast
  then have "live_for (t_replicas s') i (map_of live i)"
    using live_for_mset [OF rs(1)] by (simp add: repair_replicas [OF assms(1)])
  moreover have "dedup_at s' i = map_option (live_dedup i) (map_of live i)" using d by blast
  ultimately show ?thesis
    by (cases "map_of live i") (auto simp: live_for_def store_refs_def live_dedup_def)
qed

subsection \<open>Closing an attempt\<close>

text \<open>The journal entry, the attempt and every reservation of an attempt are closed together.\<close>

definition attempt_closed :: "uuid \<Rightarrow> journal_phase \<Rightarrow> attempt_status \<Rightarrow> store \<Rightarrow> bool" where
  "attempt_closed i ph st s \<longleftrightarrow>
     map_option j_phase (get_journal i s) = Some ph \<and> map_option a_status (get_attempt i s) = Some st \<and>
     (\<forall>r\<in>set (t_reservations s). r_attempt_id r = i \<longrightarrow> r_status r \<noteq> ''OPEN'')"

text \<open>The rows the closing steps do not touch.\<close>

definition payload_rows :: "store \<Rightarrow> reclaim_object list \<times> replica list \<times> archive_record list \<times> dedup_entry list" where
  "payload_rows s = (t_objects s, t_replicas s, t_archives s, t_dedup s)"

definition close_steps :: "uuid \<Rightarrow> string \<Rightarrow> attempt_status \<Rightarrow> journal_phase \<Rightarrow> int \<Rightarrow> 'a \<Rightarrow> 'a sop" where
  "close_steps i rst st ph now x =
     bindS (update_reservation_for_attempt i rst) (\<lambda>_.
     bindS (reconcile_attempt i st now) (\<lambda>_.
     bindS (update_journal_phase i ph now) (\<lambda>_. returnS x)))"

lemma updated_row:
  assumes "rows_count (\<lambda>r. key r = k \<and> q r) t \<noteq> 0" and "distinct (map key t)" and "\<And>r. key (f r) = key r"
  shows "\<exists>r. row_of key (rows_update (\<lambda>r. key r = k \<and> q r) f t) k = Some (f r)"
proof -
  from rows_count_row_of [OF assms(1,2)] obtain r where "row_of key t k = Some r" "q r" by blast
  then show ?thesis using row_of_key [of key t k r] by (auto simp: row_of_rows_update assms(3))
qed

lemma reconcile_attempt_Inr:
  assumes "reconcile_attempt i st now s = (Inr u, s')" and "distinct (map a_attempt_id (t_attempts s))"
  shows "map_option a_status (get_attempt i s') = Some st \<and> payload_rows s' = payload_rows s \<and>
    t_reservations s' = t_reservations s \<and> t_journal s' = t_journal s"
proof -
  let ?q = "\<lambda>a. a_status a = AOpen" and ?f = "\<lambda>a. a\<lparr>a_status := st, a_updated_at_ms := now\<rparr>"
  let ?n = "rows_count (\<lambda>a. a_attempt_id a = i \<and> ?q a) (t_attempts s)"
  have s': "s' = s\<lparr>t_attempts := rows_update (\<lambda>a. a_attempt_id a = i \<and> ?q a) ?f (t_attempts s)\<rparr>"
    and "?n = 0 \<longrightarrow> map_option a_status (get_attempt i s') = Some st"
    using assms(1) by (auto simp: reconcile_attempt_def close_attempt_def Let_def bindS_Inr tx_Inr get_attempt_def
      split: if_splits)
  moreover have "map_option a_status (get_attempt i s') = Some st" if "?n \<noteq> 0"
    using updated_row [OF that assms(2), of ?f] by (auto simp: s' get_attempt_def)
  ultimately show ?thesis by (auto simp: payload_rows_def)
qed

lemma update_journal_phase_Inr:
  assumes "update_journal_phase i ph now s = (Inr u, s')" and "distinct (map j_attempt_id (t_journal s))"
  shows "map_option j_phase (get_journal i s') = Some ph \<and> payload_rows s' = payload_rows s \<and>
    t_reservations s' = t_reservations s \<and> t_attempts s' = t_attempts s"
proof -
  let ?f = "\<lambda>j. j\<lparr>j_phase := ph, j_updated_at_ms := now\<rparr>"
  from assms(1) obtain prior where n: "rows_count (\<lambda>j. j_attempt_id j = i \<and> j_phase j \<in> set prior) (t_journal s) = 1"
    and s': "s' = s\<lparr>t_journal := rows_update (\<lambda>j. j_attempt_id j = i \<and> j_phase j \<in> set prior) ?f (t_journal s)\<rparr>"
    unfolding update_journal_phase_def Let_def by (auto simp: bindS_Inr split: if_splits)
  have "rows_count (\<lambda>j. j_attempt_id j = i \<and> j_phase j \<in> set prior) (t_journal s) \<noteq> 0" using n by simp
  from updated_row [OF this assms(2), of ?f] show ?thesis by (auto simp: s' get_journal_def payload_rows_def)
qed

lemma rows_update_none: "(\<And>r. \<not> p (f r)) \<Longrightarrow> \<forall>r\<in>set (rows_update p f t). \<not> p r"
  by (auto simp: rows_update_def)

lemma update_reservation_for_attempt_Inr:
  assumes "update_reservation_for_attempt i rst s = (Inr u, s')" and "rst \<noteq> ''OPEN''"
  shows "(\<forall>r\<in>set (t_reservations s'). r_attempt_id r = i \<longrightarrow> r_status r \<noteq> ''OPEN'') \<and>
    payload_rows s' = payload_rows s \<and> t_journal s' = t_journal s \<and> t_attempts s' = t_attempts s"
proof -
  have s': "s' = s\<lparr>t_reservations :=
       rows_update (\<lambda>r. r_attempt_id r = i \<and> r_status r = ''OPEN'') (\<lambda>r. r\<lparr>r_status := rst\<rparr>) (t_reservations s)\<rparr>"
    using assms(1) by (auto simp: update_reservation_for_attempt_def bindS_Inr)
  have "\<forall>r\<in>set (t_reservations s'). r_attempt_id r = i \<longrightarrow> r_status r \<noteq> ''OPEN''"
    using rows_update_none [of "\<lambda>r. r_attempt_id r = i \<and> r_status r = ''OPEN''" "\<lambda>r. r\<lparr>r_status := rst\<rparr>"]
      assms(2) by (simp add: s')
  then show ?thesis by (simp add: s' payload_rows_def)
qed

lemma close_steps_Inr:
  assumes "close_steps i rst st ph now x s = (Inr y, s')" and "store_wf s" and "rst \<noteq> ''OPEN''"
  shows "y = x \<and> attempt_closed i ph st s' \<and> payload_rows s' = payload_rows s"
proof -
  from assms(1) obtain s1 s2 where 1: "update_reservation_for_attempt i rst s = (Inr (), s1)"
    and 2: "reconcile_attempt i st now s1 = (Inr (), s2)" and 3: "update_journal_phase i ph now s2 = (Inr (), s')"
    and y: "y = x" by (auto simp: close_steps_def bindS_Inr)
  have d: "distinct (map a_attempt_id (t_attempts s))" "distinct (map j_attempt_id (t_journal s))"
    using assms(2) by (simp_all add: store_wf_def keyed_def)
  note r = update_reservation_for_attempt_Inr [OF 1 assms(3)]
  have a: "map_option a_status (get_attempt i s2) = Some st \<and> payload_rows s2 = payload_rows s1 \<and>
    t_reservations s2 = t_reservations s1 \<and> t_journal s2 = t_journal s1"
    using reconcile_attempt_Inr [OF 2] r d by simp
  have "map_option j_phase (get_journal i s') = Some ph \<and> payload_rows s' = payload_rows s2 \<and>
    t_reservations s' = t_reservations s2 \<and> t_attempts s' = t_attempts s2"
    using update_journal_phase_Inr [OF 3] r a d by simp
  with r a y show ?thesis by (simp add: attempt_closed_def get_attempt_def)
qed

subsection \<open>Finishing an interrupted reclaim\<close>

lemma forS_establishes:
  assumes "forS xs f s = (Inr u, s')" and "\<And>x s s'. f x s = (Inr (), s') \<Longrightarrow> Q x s'" and "\<And>x y. keeps (Q y) (f x)"
  shows "\<forall>x\<in>set xs. Q x s'"
  using assms(1)
proof (induction xs arbitrary: s)
  case Nil
  then show ?case by simp
next
  case (Cons x xs)
  then obtain t where 1: "f x s = (Inr (), t)" and 2: "forS xs f t = (Inr u, s')" by (auto simp: bindS_Inr)
  from assms(2) [OF 1] have "Q x s'" by (rule keepsE [OF keeps_forS [OF assms(3)] 2])
  then show ?case using Cons.IH [OF 2] by simp
qed

lemma ignored_release_fields:
  assumes "ignore_result (dedup_release h b) s = (r, s')"
  shows "t_objects s' = t_objects s" "t_replicas s' = t_replicas s" "t_archives s' = t_archives s"
proof -
  have "beside_dedup s' = beside_dedup s"
    using keepsE [OF keeps_ignore_result [OF beside_dedup_release] assms refl] .
  then show "t_objects s' = t_objects s" "t_replicas s' = t_replicas s" "t_archives s' = t_archives s"
    by (rule beside_dedup_fields)+
qed

lemma drop_replica_Inr:
  assumes "drop_replica e known r s = (res, s')"
  shows "t_objects s' = t_objects s \<and> t_archives s' = t_archives s \<and> set (t_replicas s') \<subseteq> set (t_replicas s) \<and>
    (res = Inr () \<longrightarrow> replica_id r \<notin> replica_id ` set (t_replicas s'))"
proof (cases "case row_of replica_id known (replica_id r) of None \<Rightarrow> False
          | Some a \<Rightarrow> rep_object_id a \<noteq> rep_object_id r \<or> rep_generation a \<noteq> rep_generation r \<or>
              rep_location a \<noteq> rep_location r \<or> rep_content_hash a \<noteq> rep_content_hash r")
  case True
  then show ?thesis using assms unfolding drop_replica_def by (simp only: if_True) auto
next
  case False
  then have "ignore_result (dedup_release (rep_content_hash r) (loc_backend (rep_location r)))
      (s\<lparr>t_replicas := filter (\<lambda>q. replica_id q \<noteq> replica_id r) (t_replicas s)\<rparr>) = (res, s')"
    using assms unfolding drop_replica_def by (simp only: if_False) (simp add: delete_replica_def bindS_apply)
  from ignored_release_fields [OF this] show ?thesis by auto
qed

lemma drop_archive_Inr:
  assumes "drop_archive e known a s = (res, s')"
  shows "t_objects s' = t_objects s \<and> t_replicas s' = t_replicas s \<and> set (t_archives s') \<subseteq> set (t_archives s) \<and>
    (res = Inr () \<longrightarrow> archive_id a \<notin> archive_id ` set (t_archives s'))"
  using assms by (auto simp: drop_archive_def delete_archive_def split: if_splits)

lemma keeps_by_result: "(\<And>s r s'. m s = (r, s') \<Longrightarrow> P s \<Longrightarrow> P s') \<Longrightarrow> keeps P m"
  unfolding keeps_def by (metis prod.collapse)

lemma drop_replicas_Inr:
  assumes "forS rs (drop_replica e known) s = (Inr u, s')"
  shows "t_objects s' = t_objects s \<and> (\<forall>r\<in>set rs. replica_id r \<notin> replica_id ` set (t_replicas s'))"
proof
  have "keeps (\<lambda>s. t_objects s = X) (forS rs (drop_replica e known))" for X
    by (intro keeps_forS keeps_by_result) (use drop_replica_Inr in simp)
  from keepsE [OF this assms refl] show "t_objects s' = t_objects s" .
  show "\<forall>r\<in>set rs. replica_id r \<notin> replica_id ` set (t_replicas s')"
    by (rule forS_establishes [OF assms]) (use drop_replica_Inr in \<open>blast, blast intro: keeps_by_result\<close>)
qed

lemma drop_archives_Inr:
  assumes "forS as (drop_archive e known) s = (Inr u, s')"
  shows "t_objects s' = t_objects s \<and> t_replicas s' = t_replicas s \<and>
    (\<forall>a\<in>set as. archive_id a \<notin> archive_id ` set (t_archives s'))"
proof (intro conjI)
  have "keeps (\<lambda>s. t_objects s = X \<and> t_replicas s = Y) (forS as (drop_archive e known))" for X Y
    by (intro keeps_forS keeps_by_result) (use drop_archive_Inr in simp)
  from keepsE [OF this assms] show "t_objects s' = t_objects s" "t_replicas s' = t_replicas s" by simp_all
  show "\<forall>a\<in>set as. archive_id a \<notin> archive_id ` set (t_archives s')"
    by (rule forS_establishes [OF assms]) (use drop_archive_Inr in \<open>blast, blast intro: keeps_by_result\<close>)
qed

text \<open>The object as a finished reclaim leaves it.\<close>

definition reclaimed_object :: "reclaim_object \<Rightarrow> bool" where
  "reclaimed_object obj \<longleftrightarrow>
     obj_state obj = Reclaimed \<and> replication_count obj = 0 \<and> physical_size obj = 0 \<and> compressed_size obj = None"

lemma update_object_Inr:
  assumes "update_object obj s = (Inr u, s')" and "distinct (map id (t_objects s))"
  shows "row_of id (t_objects s') (id obj) = Some obj \<and> t_replicas s' = t_replicas s \<and>
    t_archives s' = t_archives s \<and> t_dedup s' = t_dedup s"
proof -
  have n: "rows_count (\<lambda>r. id r = id obj) (t_objects s) = 1"
    and s': "s' = s\<lparr>t_objects := rows_update (\<lambda>r. id r = id obj) (\<lambda>_. obj) (t_objects s)\<rparr>"
    using assms(1) update_object_row_Inr by (auto simp: update_object_def bindS_Inr tx_Inr)
  from n have "id obj \<in> id ` set (t_objects s)"
    using rows_count_0_iff [of "\<lambda>r. id r = id obj" "t_objects s"] by (auto simp: image_iff intro: sym)
  then show ?thesis by (simp add: s' row_of_replace)
qed

lemma get_object_row: "get_object i s = Inr (Some obj) \<Longrightarrow> row_of id (t_objects s) i = Some obj"
  by (auto simp: get_object_def bindr_Inr_iff load_object_def checked_object_def map_err_Inr_iff split: option.splits)

lemma mark_reclaimed_Inr:
  assumes "mark_reclaimed now e cur s = (Inr u, s')" and "row_of id (t_objects s) i = Some cur"
    and "distinct (map id (t_objects s))"
  shows "(\<exists>obj. row_of id (t_objects s') i = Some obj \<and> reclaimed_object obj) \<and>
    t_replicas s' = t_replicas s \<and> t_archives s' = t_archives s"
proof (cases "reclaimed_object cur")
  case True
  then have "s' = s" using assms(1) by (simp add: mark_reclaimed_def reclaimed_object_def)
  then show ?thesis using assms(2) True by auto
next
  case False
  let ?obj = "cur\<lparr>obj_state := Reclaimed, replication_count := 0, physical_size := 0, compressed_size := None\<rparr>"
  obtain s1 a where 1: "update_object ?obj s = (Inr (), s1)" and 2: "insert_audit_row a s1 = (Inr u, s')"
    using assms(1) False by (auto simp: mark_reclaimed_def reclaimed_object_def bindS_Inr append_audit_def)
  have "id ?obj = i" using row_of_key [OF assms(2)] by simp
  moreover have "s' = write_audit a s1" using 2 by (rule insert_audit_row_Inr)
  ultimately show ?thesis using update_object_Inr [OF 1 assms(3)]
    by (auto simp: write_audit_def reclaimed_object_def)
qed

lemma commit_after_crash_close:
  "commit_after_crash now e p =
     bindS (askS (\<lambda>s. bindr (get_object (j_object_id e) s) (\<lambda>o'. ok_or o'
       (Recovery [Lit ''journal '', Uid (j_attempt_id e), Lit '' cannot commit: object '',
         Uid (j_object_id e), Lit '' is missing''])))) (\<lambda>current.
     if generation current \<noteq> j_generation e
     then failS (Recovery [Lit ''journal '', Uid (j_attempt_id e), Lit '' generation '',
       Num (int (j_generation e)), Lit '' cannot commit current generation '',
       Num (int (generation current))])
     else
       bindS (askS all_replicas) (\<lambda>rs.
       bindS (forS (replica_deletions p) (drop_replica e rs)) (\<lambda>_.
       bindS (askS (\<lambda>s. Inr (list_archives s))) (\<lambda>as.
       bindS (forS (archive_deletions p) (drop_archive e as)) (\<lambda>_.
       bindS (mark_reclaimed now e current) (\<lambda>_.
       close_steps (j_attempt_id e) ''COMMITTED'' ACommitted Committed now OutCommitted))))))"
  unfolding commit_after_crash_def close_steps_def ..

lemma commit_after_crash_Inr:
  assumes "commit_after_crash now e p s = (Inr out, s')" and "store_wf s"
  shows "out = OutCommitted \<and> attempt_closed (j_attempt_id e) Committed ACommitted s' \<and>
    (\<exists>obj. row_of id (t_objects s') (j_object_id e) = Some obj \<and> reclaimed_object obj) \<and>
    (\<forall>r\<in>set (replica_deletions p). replica_id r \<notin> replica_id ` set (t_replicas s')) \<and>
    (\<forall>a\<in>set (archive_deletions p). archive_id a \<notin> archive_id ` set (t_archives s'))"
proof -
  from assms(1) obtain cur rs s1 s2 as s3 where g: "get_object (j_object_id e) s = Inr (Some cur)"
    and 1: "forS (replica_deletions p) (drop_replica e rs) s = (Inr (), s1)"
    and 2: "forS (archive_deletions p) (drop_archive e as) s1 = (Inr (), s2)"
    and 3: "mark_reclaimed now e cur s2 = (Inr (), s3)"
    and 4: "close_steps (j_attempt_id e) ''COMMITTED'' ACommitted Committed now OutCommitted s3 = (Inr out, s')"
    unfolding commit_after_crash_close
    by (auto simp: bindS_Inr bindr_Inr_iff ok_or_Inr_iff split: if_splits)
  have k: "keeps store_wf (forS (replica_deletions p) (drop_replica e rs))"
    "keeps store_wf (forS (archive_deletions p) (drop_archive e as))" "keeps store_wf (mark_reclaimed now e cur)"
    by (intro keeps_forS wf.k_drop_replica wf.k_drop_archive wf.k_mark_reclaimed)+
  have wf: "store_wf s1" "store_wf s2" "store_wf s3"
    using keepsE [OF k(1) 1 assms(2)] keepsE [OF k(2) 2] keepsE [OF k(3) 3] by simp_all
  note r = drop_replicas_Inr [OF 1] and a = drop_archives_Inr [OF 2]
  have "row_of id (t_objects s2) (j_object_id e) = Some cur" using get_object_row [OF g] r a by simp
  note m = mark_reclaimed_Inr [OF 3 this]
  have "distinct (map id (t_objects s2))" using wf(2) by (simp add: store_wf_def keyed_def)
  note m = m [OF this]
  have c: "out = OutCommitted" "attempt_closed (j_attempt_id e) Committed ACommitted s'" "payload_rows s' = payload_rows s3"
    using close_steps_Inr [OF 4 wf(3)] by simp_all
  from c(3) have "t_objects s' = t_objects s3" "t_replicas s' = t_replicas s3" "t_archives s' = t_archives s3"
    by (simp_all add: payload_rows_def)
  then show ?thesis using c(1,2) m a r by simp
qed

subsection \<open>Rolling an interrupted reclaim back\<close>

definition replica_restored :: "replica \<Rightarrow> replica \<Rightarrow> bool" where
  "replica_restored x a \<longleftrightarrow> replica_id a = replica_id x \<and> rep_object_id a = rep_object_id x \<and>
     rep_generation a = rep_generation x \<and> rep_location a = rep_location x \<and> rep_size a = rep_size x \<and>
     rep_content_hash a = rep_content_hash x \<and> valid a = valid x"

definition archive_restored :: "archive_record \<Rightarrow> archive_record \<Rightarrow> bool" where
  "archive_restored x a \<longleftrightarrow> archive_id a = archive_id x \<and> ar_object_id a = ar_object_id x \<and>
     ar_generation a = ar_generation x \<and> ar_backend a = ar_backend x \<and> ar_key a = ar_key x \<and>
     ar_size a = ar_size x \<and> ar_content_hash a = ar_content_hash x"

lemma add_replica_Inr: "add_replica r s = (Inr u, s') \<Longrightarrow> s' = s\<lparr>t_replicas := t_replicas s @ [r]\<rparr>"
  by (auto simp: add_replica_def bindS_Inr updS_apply bindr_Inr_iff unique_insert_def split: sum.splits if_splits)

lemma insert_archive_Inr: "insert_archive a s = (Inr u, s') \<Longrightarrow> s' = s\<lparr>t_archives := t_archives s @ [a]\<rparr>"
  by (auto simp: insert_archive_def updS_apply bindr_Inr_iff unique_insert_def split: sum.splits if_splits)

lemma restore_replica_Inr:
  assumes "restore_replica e x known s = (Inr known', s')" and "set known \<subseteq> set (t_replicas s)"
  shows "set known' \<subseteq> set (t_replicas s') \<and> set (t_replicas s) \<subseteq> set (t_replicas s') \<and>
    (\<exists>a\<in>set (t_replicas s'). replica_restored x a) \<and> t_objects s' = t_objects s \<and> t_archives s' = t_archives s"
proof (cases "row_of replica_id known (replica_id x)")
  case None
  then have "add_replica x s = (Inr (), s')" and k: "known' = known @ [x]"
    using assms(1) by (auto simp: restore_replica_def bindS_Inr split: if_splits)
  then show ?thesis using assms(2) add_replica_Inr by (fastforce simp: replica_restored_def)
next
  case (Some a)
  then have "s' = s" "known' = known" "replica_restored x a"
    using assms(1) row_of_key [OF Some] by (auto simp: restore_replica_def replica_restored_def split: if_splits)
  then show ?thesis using row_of_Some [OF Some] assms(2) by blast
qed

lemma restore_archive_Inr:
  assumes "restore_archive e x known s = (Inr known', s')" and "set known \<subseteq> set (t_archives s)"
  shows "set known' \<subseteq> set (t_archives s') \<and> set (t_archives s) \<subseteq> set (t_archives s') \<and>
    (\<exists>a\<in>set (t_archives s'). archive_restored x a) \<and> t_objects s' = t_objects s \<and> t_replicas s' = t_replicas s"
proof (cases "row_of archive_id known (archive_id x)")
  case None
  then have "insert_archive x s = (Inr (), s')" and k: "known' = known @ [x]"
    using assms(1) by (auto simp: restore_archive_def bindS_Inr split: if_splits)
  then show ?thesis using assms(2) insert_archive_Inr by (fastforce simp: archive_restored_def)
next
  case (Some a)
  then have "s' = s" "known' = known" "archive_restored x a"
    using assms(1) row_of_key [OF Some] by (auto simp: restore_archive_def archive_restored_def split: if_splits)
  then show ?thesis using row_of_Some [OF Some] assms(2) by blast
qed

text \<open>A loop that carries the rows it has seen: every element is matched by a row of the table in the end.\<close>

lemma foldS_restores:
  assumes "foldS f xs known s = (Inr known', s')" and "set known \<subseteq> set (rows s)"
    and "\<And>x known s known' s'. f x known s = (Inr known', s') \<Longrightarrow> set known \<subseteq> set (rows s) \<Longrightarrow>
      set known' \<subseteq> set (rows s') \<and> set (rows s) \<subseteq> set (rows s') \<and> (\<exists>a\<in>set (rows s'). R x a) \<and> other s' = other s"
  shows "set (rows s) \<subseteq> set (rows s') \<and> (\<forall>x\<in>set xs. \<exists>a\<in>set (rows s'). R x a) \<and> other s' = other s"
  using assms(1,2)
proof (induction xs arbitrary: known s)
  case Nil
  then show ?case by simp
next
  case (Cons x xs)
  then obtain k1 s1 where 1: "f x known s = (Inr k1, s1)" and 2: "foldS f xs k1 s1 = (Inr known', s')"
    by (auto simp: bindS_Inr)
  note h = assms(3) [OF 1 Cons.prems(2)]
  have "set (rows s1) \<subseteq> set (rows s') \<and> (\<forall>x\<in>set xs. \<exists>a\<in>set (rows s'). R x a) \<and> other s' = other s1"
    using Cons.IH [OF 2] h by simp
  then show ?case using h by fastforce
qed

lemma restore_rollback_metadata_Inr:
  assumes "restore_rollback_metadata e p s = (Inr u, s')" and "store_wf s"
  shows "t_objects s' = t_objects s \<and> (\<forall>x\<in>set (replica_deletions p). \<exists>a\<in>set (t_replicas s'). replica_restored x a) \<and>
    (\<forall>x\<in>set (archive_deletions p). \<exists>a\<in>set (t_archives s'). archive_restored x a)"
proof -
  from assms(1) obtain rs k1 s1 k2 where rs: "all_replicas s = Inr rs"
    and 1: "foldS (restore_replica e) (replica_deletions p) rs s = (Inr k1, s1)"
    and 2: "foldS (restore_archive e) (archive_deletions p) (list_archives s1) s1 = (Inr k2, s')"
    by (auto simp: restore_rollback_metadata_def bindS_Inr)
  have "set rs \<subseteq> set (t_replicas s)" using loaded_replicas [OF rs assms(2)] by simp
  then have a: "set (t_replicas s) \<subseteq> set (t_replicas s1) \<and>
    (\<forall>x\<in>set (replica_deletions p). \<exists>a\<in>set (t_replicas s1). replica_restored x a) \<and> t_objects s1 = t_objects s"
    by (rule foldS_restores [where rows = t_replicas, OF 1]) (blast dest: restore_replica_Inr)
  have "set (list_archives s1) \<subseteq> set (t_archives s1)" by (simp add: list_archives_def)
  then have "set (t_archives s1) \<subseteq> set (t_archives s') \<and>
    (\<forall>x\<in>set (archive_deletions p). \<exists>a\<in>set (t_archives s'). archive_restored x a) \<and>
    (t_objects s', t_replicas s') = (t_objects s1, t_replicas s1)"
    by (rule foldS_restores [where rows = t_archives and other = "\<lambda>s. (t_objects s, t_replicas s)", OF 2])
      (drule (1) restore_archive_Inr, simp)
  with a show ?thesis by simp
qed

lemma restore_object_Inr:
  assumes "restore_object now e p s = (Inr au, s')" and "store_wf s" and "id (prior_object p) = j_object_id e"
  shows "\<exists>obj. row_of id (t_objects s') (j_object_id e) = Some obj \<and> obj_state obj = obj_state (prior_object p)"
proof -
  have d: "distinct (map id (t_objects s))" using assms(2) by (simp add: store_wf_def keyed_def)
  from assms(1) obtain cur where g: "get_object (j_object_id e) s = Inr cur"
    by (auto simp: restore_object_def bindS_Inr)
  show ?thesis
  proof (cases cur)
    case None
    then have "create_object (prior_object p) s = (Inr (), s')"
      using assms(1) g by (auto simp: restore_object_def bindS_Inr)
    then have "id (prior_object p) \<notin> id ` set (t_objects s) \<and> s' = s\<lparr>t_objects := t_objects s @ [prior_object p]\<rparr>"
      by (intro insert_object_row_Inr) (auto simp: create_object_def bindS_Inr tx_Inr)
    then show ?thesis using assms(3) by (simp add: row_of_append row_of_missing)
  next
    case (Some obj)
    show ?thesis
    proof (cases "obj_state obj = obj_state (prior_object p)")
      case True
      then have "s' = s" using assms(1) g Some by (auto simp: restore_object_def bindS_Inr split: if_splits)
      then show ?thesis using True get_object_row [of "j_object_id e" s obj] g Some by simp
    next
      case False
      then have "update_object (prior_object p) s = (Inr (), s')"
        using assms(1) g Some by (auto simp: restore_object_def bindS_Inr split: if_splits)
      from update_object_Inr [OF this d] show ?thesis using assms(3) by auto
    qed
  qed
qed

lemma rollback_close:
  "rollback now e p =
     bindS (restore_object now e p) (\<lambda>au.
     bindS (restore_rollback_metadata e p) (\<lambda>_.
     bindS repair_dedup_counts (\<lambda>_.
     bindS (case au of None \<Rightarrow> returnS () | Some a \<Rightarrow> append_audit a) (\<lambda>_.
     close_steps (j_attempt_id e) ''RELEASED'' ARolledBack RolledBack now OutRolledBack))))"
  unfolding rollback_def close_steps_def ..

lemma rollback_Inr:
  assumes "rollback now e p s = (Inr out, s')" and "store_wf s" and "id (prior_object p) = j_object_id e"
  shows "out = OutRolledBack \<and> attempt_closed (j_attempt_id e) RolledBack ARolledBack s' \<and>
    (\<exists>obj. row_of id (t_objects s') (j_object_id e) = Some obj \<and> obj_state obj = obj_state (prior_object p)) \<and>
    (\<forall>x\<in>set (replica_deletions p). \<exists>a\<in>set (t_replicas s'). replica_restored x a) \<and>
    (\<forall>x\<in>set (archive_deletions p). \<exists>a\<in>set (t_archives s'). archive_restored x a) \<and>
    (\<forall>i. store_refs s' i = Some (length (sharing (t_replicas s') i)))"
proof -
  from assms(1) obtain au s1 s2 reps s3 s4 where 1: "restore_object now e p s = (Inr au, s1)"
    and 2: "restore_rollback_metadata e p s1 = (Inr (), s2)" and 3: "repair_dedup_counts s2 = (Inr reps, s3)"
    and 4: "(case au of None \<Rightarrow> returnS () | Some a \<Rightarrow> append_audit a) s3 = (Inr (), s4)"
    and 5: "close_steps (j_attempt_id e) ''RELEASED'' ARolledBack RolledBack now OutRolledBack s4 = (Inr out, s')"
    unfolding rollback_close by (auto simp: bindS_Inr)
  have wf1: "store_wf s1" using wf.k_restore_object 1 assms(2) by (rule keepsE)
  have wf2: "store_wf s2" using wf.k_restore_rollback_metadata 2 wf1 by (rule keepsE)
  have wf3: "store_wf s3" using wf.k_repair_dedup_counts 3 wf2 by (rule keepsE)
  have "keeps store_wf (case au of None \<Rightarrow> returnS () | Some a \<Rightarrow> append_audit a)"
    by (intro keeps_intros wf.k_append_audit)
  then have wf4: "store_wf s4" using 4 wf3 by (rule keepsE)
  have 4: "payload_rows s4 = payload_rows s3"
    using 4 by (cases au) (auto simp: append_audit_def payload_rows_def write_audit_def dest!: insert_audit_row_Inr)
  have c: "out = OutRolledBack" "attempt_closed (j_attempt_id e) RolledBack ARolledBack s'"
    "payload_rows s' = payload_rows s3"
    using close_steps_Inr [OF 5 wf4] 4 by simp_all
  have "beside_dedup s3 = beside_dedup s2" using keepsE [OF beside_repair 3 refl] .
  note b = beside_dedup_fields [OF this]
  have f: "t_objects s' = t_objects s3" "t_replicas s' = t_replicas s3" "t_archives s' = t_archives s3"
    "t_dedup s' = t_dedup s3" using c(3) by (simp_all add: payload_rows_def)
  have "store_refs s' i = Some (length (sharing (t_replicas s') i))" for i
    using repaired_refs [OF 3 wf2, of i] f by (simp add: store_refs_def)
  then show ?thesis
    using c(1,2) restore_object_Inr [OF 1 assms(2,3)] restore_rollback_metadata_Inr [OF 2 wf1] f b by simp
qed

subsection \<open>One journal entry\<close>

lemma parsed_prior_identity: "validate_payload_identity e p = Inr u \<Longrightarrow> id (prior_object p) = j_object_id e"
  by (auto simp: validate_payload_identity_def split: if_splits)

lemma reconcile_entry_cases:
  assumes "reconcile_entry jc now e ps s = (Inr out, s')" and "out \<noteq> OutFailed"
  obtains p where "parse_journal_payload jc (compatible_payload e) = Inr p" "validate_payload_identity e p = Inr ()"
    "pre_physical (j_phase e) \<or> j_phase e = PhysicalStarted \<or> ps (j_payload e) = Inr True"
    "rollback now e p s = (Inr out, s')"
  | p where "parse_journal_payload jc (compatible_payload e) = Inr p" "validate_payload_identity e p = Inr ()"
    "j_phase e = PhysicalStarted \<or> j_phase e = PhysicalDone"
    "ps (j_payload e) = Inr False \<or>
       j_phase e = PhysicalDone \<and> physical_replica_deletions p = Some [] \<and> archive_deletions p = []"
    "commit_after_crash now e p s = (Inr out, s')"
proof -
  from assms(1) obtain p where p: "parse_journal_payload jc (compatible_payload e) = Inr p"
    "validate_payload_identity e p = Inr ()"
    by (auto simp: reconcile_entry_def bindS_Inr map_err_Inr_iff)
  show thesis
    using assms p that [of p]
    by (cases "j_phase e") (auto simp: reconcile_entry_def bindS_Inr pre_physical_def split: if_splits)
qed

subsection \<open>The report\<close>

text \<open>The final rows of an attempt.\<close>

definition settled :: "uuid \<Rightarrow> journal_phase \<Rightarrow> attempt_status \<Rightarrow> store \<Rightarrow> bool" where
  "settled i ph st s \<longleftrightarrow>
     map_option j_phase (get_journal i s) = Some ph \<and> map_option a_status (get_attempt i s) = Some st"

lemma settled_closed: "attempt_closed i ph st s \<Longrightarrow> settled i ph st s"
  by (simp add: attempt_closed_def settled_def)

lemma settled_later:
  assumes "settled i ph st s" and "journal_final ph" and "st \<noteq> AOpen"
    and "\<And>j. journal_row_later j s \<Longrightarrow> journal_row_later j s'"
    and "\<And>a. attempt_row_later a s \<Longrightarrow> attempt_row_later a s'"
  shows "settled i ph st s'"
proof -
  from assms(1) obtain j a where j: "get_journal i s = Some j" "j_phase j = ph"
    and a: "get_attempt i s = Some a" "a_status a = st" by (auto simp: settled_def)
  have i: "j_attempt_id j = i" "a_attempt_id a = i"
    using j(1) a(1) row_of_key by (force simp: get_journal_def get_attempt_def)+
  have "journal_row_later j s'" using j i by (intro assms(4)) (auto simp: journal_row_later_def)
  moreover have "attempt_row_later a s'" using a i by (intro assms(5)) (auto simp: attempt_row_later_def)
  ultimately show ?thesis
    using assms(2,3) i j(2) a(2) by (auto simp: settled_def journal_row_later_def journal_later_def attempt_row_later_def)
qed

lemma settled_keeps:
  assumes "journal_final ph" and "st \<noteq> AOpen" and "\<And>j. keeps (journal_row_later j) m" and "\<And>a. keeps (attempt_row_later a) m"
  shows "keeps (settled i ph st) m"
  unfolding keeps_def using settled_later [OF _ assms(1,2)] keepsD [OF assms(3)] keepsD [OF assms(4)] by blast

definition report_ok :: "recovery_report \<Rightarrow> store \<Rightarrow> bool" where
  "report_ok rep s \<longleftrightarrow> (\<forall>i\<in>set (committed rep). settled i Committed ACommitted s) \<and>
     (\<forall>i\<in>set (rolled_back rep). settled i RolledBack ARolledBack s) \<and>
     reconciled_attempts rep = length (committed rep) + length (rolled_back rep) + length (report_errors rep)"

lemma foldS_keeps_result:
  assumes "foldS f xs b s = (Inr b', s')" and "I b s"
    and "\<And>x b s b' s'. f x b s = (Inr b', s') \<Longrightarrow> I b s \<Longrightarrow> I b' s'"
  shows "I b' s'"
  using assms(1,2)
proof (induction xs arbitrary: b s)
  case Nil
  then show ?case by simp
next
  case (Cons x xs)
  then show ?case using assms(3) by (auto simp: bindS_Inr)
qed

lemma reconcile_one_ok:
  assumes "reconcile_one jc now ps e rep s = (Inr rep', s')" and "report_ok rep s" and "store_wf s"
  shows "report_ok rep' s' \<and> store_wf s' \<and> reconciled_attempts rep' = Suc (reconciled_attempts rep)"
proof -
  obtain res where r: "reconcile_entry jc now e ps s = (res, s')"
    using assms(1) by (auto simp: reconcile_one_def Let_def split: prod.splits sum.splits reconcile_outcome.splits)
  have wf: "store_wf s'" using wf.k_reconcile_entry r assms(3) by (rule keepsE)
  have old: "settled i ph st s'" if "settled i ph st s" "journal_final ph" "st \<noteq> AOpen" for i ph st
    using settled_keeps [OF that(2,3) journal_row.k_reconcile_entry attempt_row.k_reconcile_entry] r that(1)
    by (rule keepsE)
  have c: "settled (j_attempt_id e) Committed ACommitted s'" if "res = Inr OutCommitted"
    using reconcile_entry_cases [of jc now e ps s OutCommitted s'] r that
      rollback_Inr [OF _ assms(3)] commit_after_crash_Inr [OF _ assms(3)] parsed_prior_identity settled_closed
    by (metis reconcile_outcome.distinct(1,3))
  have b: "settled (j_attempt_id e) RolledBack ARolledBack s'" if "res = Inr OutRolledBack"
    using reconcile_entry_cases [of jc now e ps s OutRolledBack s'] r that
      rollback_Inr [OF _ assms(3)] commit_after_crash_Inr [OF _ assms(3)] parsed_prior_identity settled_closed
    by (metis reconcile_outcome.distinct(1,5))
  have f: "journal_final Committed" "journal_final RolledBack" "ACommitted \<noteq> AOpen" "ARolledBack \<noteq> AOpen"
    by (simp_all add: journal_final_def)
  have keep: "(\<forall>i\<in>set (committed rep). settled i Committed ACommitted s') \<and>
     (\<forall>i\<in>set (rolled_back rep). settled i RolledBack ARolledBack s') \<and>
     reconciled_attempts rep = length (committed rep) + length (rolled_back rep) + length (report_errors rep)"
    using assms(2) old f by (simp add: report_ok_def)
  show ?thesis
  proof (cases res)
    case (Inl x)
    then show ?thesis using assms(1) r keep wf by (auto simp: reconcile_one_def Let_def report_ok_def)
  next
    case (Inr out)
    then show ?thesis using assms(1) r keep wf b c by (cases out) (auto simp: reconcile_one_def Let_def report_ok_def)
  qed
qed

lemma reconcile_all_ok:
  assumes "foldS (reconcile_one jc now ps) es rep s = (Inr rep', s')" and "report_ok rep s" and "store_wf s"
  shows "report_ok rep' s' \<and> store_wf s' \<and> reconciled_attempts rep' = reconciled_attempts rep + length es"
  using assms
proof (induction es arbitrary: rep s)
  case Nil
  then show ?case by simp
next
  case (Cons e es)
  from Cons.prems(1) obtain r1 s1 where 1: "reconcile_one jc now ps e rep s = (Inr r1, s1)"
    and 2: "foldS (reconcile_one jc now ps) es r1 s1 = (Inr rep', s')" by (auto simp: bindS_Inr)
  from reconcile_one_ok [OF 1 Cons.prems(2,3)] Cons.IH [OF 2] show ?case by simp
qed

lemma reconcile_lineage_Inr:
  assumes "reconcile_lineage rep s = (Inr rep', s')"
  shows "s' = s \<and> committed rep' = committed rep \<and> rolled_back rep' = rolled_back rep \<and>
    reconciled_attempts rep' = reconciled_attempts rep"
proof -
  from assms obtain g where "(case validate_graph g of
       Some (Inr _) \<Rightarrow> returnS (rep\<lparr>lineage_ok := True\<rparr>)
     | Some (Inl x) \<Rightarrow> returnS (rep\<lparr>lineage_ok := False,
         report_errors := report_errors rep @ [Lit ''lineage validation: '' # display x]\<rparr>)
     | None \<Rightarrow> failS (Internal [Lit ''panic''])) s = (Inr rep', s')"
    by (auto simp: reconcile_lineage_def bindS_Inr)
  then show ?thesis
    by (cases "validate_graph g"; cases "the (validate_graph g)") auto
qed

subsection \<open>Main results\<close>

text \<open>
  C30: recovery fails closed. An interrupted reclaim is committed only from the physical phases,
  with a readable plan for that very object and generation, and only when the backends report the
  payloads gone or the release was recorded as done with nothing to delete; an unreadable,
  mismatched or misplaced plan, and a backend that cannot be asked, end in an error that leaves
  the store exactly as it was.
\<close>

theorem recovery_fails_closed:
  "(fst (reconcile_entry jc now e ps s) = Inr OutCommitted \<longrightarrow>
     (\<exists>p. parse_journal_payload jc (j_payload e) = Inr p \<and> validate_payload_identity e p = Inr () \<and>
        (j_phase e = PhysicalStarted \<or> j_phase e = PhysicalDone) \<and>
        (ps (j_payload e) = Inr False \<or>
         j_phase e = PhysicalDone \<and> physical_replica_deletions p = Some [] \<and> archive_deletions p = []))) \<and>
   ((\<forall>p. parse_journal_payload jc (compatible_payload e) = Inr p \<longrightarrow>
       validate_payload_identity e p \<noteq> Inr () \<or> plan_matches_phase e p \<noteq> Inr ()) \<longrightarrow>
     (\<exists>x. reconcile_entry jc now e ps s = (Inl x, s))) \<and>
   (\<forall>x p. ps (j_payload e) = Inl x \<and> parse_journal_payload jc (j_payload e) = Inr p \<and>
       (physical_replica_deletions p \<noteq> Some [] \<or> archive_deletions p \<noteq> []) \<and>
       (j_phase e = PhysicalStarted \<or> j_phase e = PhysicalDone) \<longrightarrow>
     (\<exists>y. reconcile_entry jc now e ps s = (Inl y, s)))"
proof (intro conjI impI)
  assume "fst (reconcile_entry jc now e ps s) = Inr OutCommitted"
  then obtain s' where "reconcile_entry jc now e ps s = (Inr OutCommitted, s')" by (metis prod.collapse)
  then show "\<exists>p. parse_journal_payload jc (j_payload e) = Inr p \<and> validate_payload_identity e p = Inr () \<and>
        (j_phase e = PhysicalStarted \<or> j_phase e = PhysicalDone) \<and>
        (ps (j_payload e) = Inr False \<or>
         j_phase e = PhysicalDone \<and> physical_replica_deletions p = Some [] \<and> archive_deletions p = [])"
  proof (rule reconcile_entry_cases)
    fix p
    assume "rollback now e p s = (Inr OutCommitted, s')"
    then show ?thesis by (auto simp: rollback_def bindS_Inr)
  qed (auto simp: compatible_payload_def pre_physical_def)
next
  assume "\<forall>p. parse_journal_payload jc (compatible_payload e) = Inr p \<longrightarrow>
       validate_payload_identity e p \<noteq> Inr () \<or> plan_matches_phase e p \<noteq> Inr ()"
  then show "\<exists>x. reconcile_entry jc now e ps s = (Inl x, s)"
    by (cases "parse_journal_payload jc (compatible_payload e)")
      (auto simp: reconcile_entry_def bindS_apply split: sum.splits)
next
  show "\<forall>x p. ps (j_payload e) = Inl x \<and> parse_journal_payload jc (j_payload e) = Inr p \<and>
       (physical_replica_deletions p \<noteq> Some [] \<or> archive_deletions p \<noteq> []) \<and>
       (j_phase e = PhysicalStarted \<or> j_phase e = PhysicalDone) \<longrightarrow>
     (\<exists>y. reconcile_entry jc now e ps s = (Inl y, s))"
    by (auto simp: reconcile_entry_def bindS_apply compatible_payload_def pre_physical_def split: sum.splits)
qed

text \<open>
  C31: when recovery commits an attempt, the journal entry, the attempt and its reservations are
  closed together, the object is reclaimed with nothing left of its physical sizes, and no
  replica or archive that the plan scheduled is left in the metadata.
\<close>

theorem recovery_commit_complete:
  assumes "reconcile_entry jc now e ps s = (Inr OutCommitted, s')" and "store_wf s"
  shows "attempt_closed (j_attempt_id e) Committed ACommitted s' \<and>
    (\<exists>obj. row_of id (t_objects s') (j_object_id e) = Some obj \<and> reclaimed_object obj) \<and>
    (\<exists>p. parse_journal_payload jc (j_payload e) = Inr p \<and>
      (\<forall>r\<in>set (replica_deletions p). replica_id r \<notin> replica_id ` set (t_replicas s')) \<and>
      (\<forall>a\<in>set (archive_deletions p). archive_id a \<notin> archive_id ` set (t_archives s')))"
  using assms(1)
proof (rule reconcile_entry_cases)
  fix p
  assume "rollback now e p s = (Inr OutCommitted, s')"
  then show ?thesis by (auto simp: rollback_def bindS_Inr)
next
  fix p
  assume p: "parse_journal_payload jc (compatible_payload e) = Inr p"
    and ph: "j_phase e = PhysicalStarted \<or> j_phase e = PhysicalDone"
    and c: "commit_after_crash now e p s = (Inr OutCommitted, s')"
  have "parse_journal_payload jc (j_payload e) = Inr p"
    using p ph by (auto simp: compatible_payload_def pre_physical_def)
  then show ?thesis using commit_after_crash_Inr [OF c assms(2)] by simp
qed simp

text \<open>
  C32: when recovery rolls an attempt back, the journal entry, the attempt and its reservations
  are closed together, the object is back in the state it had before the reclaim, every replica
  and archive that the plan scheduled is in the metadata with the identity, place and content it
  had, and the reference counts equal the replicas that share each payload.
\<close>

theorem recovery_rollback_complete:
  assumes "reconcile_entry jc now e ps s = (Inr OutRolledBack, s')" and "store_wf s"
  shows "attempt_closed (j_attempt_id e) RolledBack ARolledBack s' \<and>
    (\<exists>p. parse_journal_payload jc (compatible_payload e) = Inr p \<and>
      (\<exists>obj. row_of id (t_objects s') (j_object_id e) = Some obj \<and> obj_state obj = obj_state (prior_object p)) \<and>
      (\<forall>x\<in>set (replica_deletions p). \<exists>a\<in>set (t_replicas s'). replica_restored x a) \<and>
      (\<forall>x\<in>set (archive_deletions p). \<exists>a\<in>set (t_archives s'). archive_restored x a)) \<and>
    (\<forall>i. store_refs s' i = Some (length (sharing (t_replicas s') i)))"
  using assms(1)
proof (rule reconcile_entry_cases)
  fix p
  assume p: "parse_journal_payload jc (compatible_payload e) = Inr p" and v: "validate_payload_identity e p = Inr ()"
    and r: "rollback now e p s = (Inr OutRolledBack, s')"
  show ?thesis using rollback_Inr [OF r assms(2) parsed_prior_identity [OF v]] p by blast
next
  fix p
  assume "commit_after_crash now e p s = (Inr OutRolledBack, s')"
  from commit_after_crash_Inr [OF this assms(2)] show ?thesis by simp
qed simp

text \<open>
  C33: a repair makes the stored reference counts the truth about the replicas: every payload has
  as many references as there are replicas that share it, its row names their key and size, a
  payload no replica uses has no row, and nothing else in the store changes.
\<close>

theorem repair_dedup_counts_exact:
  assumes "repair_dedup_counts s = (Inr repairs, s')" and "store_wf s"
  shows "(\<forall>i. store_refs s' i = Some (length (sharing (t_replicas s) i)) \<and>
      (case row_of dedup_id (t_dedup s') i of
         None \<Rightarrow> sharing (t_replicas s) i = []
       | Some d \<Rightarrow> \<forall>r\<in>set (sharing (t_replicas s) i). loc_key (rep_location r) = de_key d \<and> rep_size r = payload_size d)) \<and>
    s'\<lparr>t_dedup := t_dedup s\<rparr> = s"
proof
  show "\<forall>i. store_refs s' i = Some (length (sharing (t_replicas s) i)) \<and>
      (case row_of dedup_id (t_dedup s') i of
         None \<Rightarrow> sharing (t_replicas s) i = []
       | Some d \<Rightarrow> \<forall>r\<in>set (sharing (t_replicas s) i). loc_key (rep_location r) = de_key d \<and> rep_size r = payload_size d)"
    using repaired_refs [OF assms] unfolding repair_replicas [OF assms(1)] by blast
  have "beside_dedup s' = beside_dedup s" using keepsE [OF beside_repair assms(1) refl] .
  then show "s'\<lparr>t_dedup := t_dedup s\<rparr> = s"
    unfolding beside_dedup_def by (metis store.surjective store.update_convs(4))
qed

text \<open>
  C34: the report of a recovery is true of the store it leaves: an attempt it lists as committed
  or rolled back is final in that way in the journal and in the attempts, also after the later
  steps; every open journal entry is accounted for; the reference counts are those of the
  replicas; and the audit trail has only grown.
\<close>

theorem reconcile_store_report:
  assumes "reconcile_store jc now ps s = (Inr rep, s')" and "store_wf s"
  shows "(\<forall>i\<in>set (committed rep). settled i Committed ACommitted s') \<and>
    (\<forall>i\<in>set (rolled_back rep). settled i RolledBack ARolledBack s') \<and>
    reconciled_attempts rep = length (list_open_journal s) \<and>
    (\<forall>i. store_refs s' i = Some (length (sharing (t_replicas s') i))) \<and>
    prefix (t_audit s) (t_audit s') \<and> store_wf s'"
proof -
  from assms(1) obtain rep1 s1 rs n s2 reps s3 where
    1: "foldS (reconcile_one jc now ps) (list_open_journal s) empty_report s = (Inr rep1, s1)"
    and 2: "foldS (expire_reservation now) rs 0 s1 = (Inr n, s2)"
    and r: "repair_dedup_counts s2 = (Inr reps, s3)"
    and l: "reconcile_lineage (rep1\<lparr>abandoned_reservations := n, dedup_repairs := reps\<rparr>) s3 = (Inr rep, s')"
    by (auto simp: reconcile_store_def bindS_Inr)
  have rep: "committed rep = committed rep1" "rolled_back rep = rolled_back rep1"
      "reconciled_attempts rep = reconciled_attempts rep1" and 3: "repair_dedup_counts s2 = (Inr reps, s')"
    using reconcile_lineage_Inr [OF l] r by simp_all
  have "report_ok empty_report s" by (simp add: report_ok_def empty_report_def)
  from reconcile_all_ok [OF 1 this assms(2)] have r1: "report_ok rep1 s1" "store_wf s1"
    "reconciled_attempts rep1 = length (list_open_journal s)" by (simp_all add: empty_report_def)
  have wf2: "store_wf s2" using keeps_foldS [OF wf.k_expire_reservation] 2 r1(2) by (rule keepsE)
  have later: "settled i ph st s'" if "settled i ph st s1" "journal_final ph" "st \<noteq> AOpen" for i ph st
  proof -
    have "settled i ph st s2"
      using settled_keeps [OF that(2,3) keeps_foldS [OF journal_row.k_expire_reservation]
          keeps_foldS [OF attempt_row.k_expire_reservation]] 2 that(1) by (rule keepsE)
    with settled_keeps [OF that(2,3) journal_row.k_repair_dedup_counts attempt_row.k_repair_dedup_counts] 3
    show ?thesis by (rule keepsE)
  qed
  have "\<forall>i\<in>set (committed rep). settled i Committed ACommitted s'" "\<forall>i\<in>set (rolled_back rep). settled i RolledBack ARolledBack s'"
    using r1(1) later by (simp_all add: report_ok_def rep journal_final_def)
  moreover have "store_refs s' i = Some (length (sharing (t_replicas s') i))" for i
    using repaired_refs [OF 3 wf2, of i] by blast
  moreover have "prefix (t_audit s) (t_audit s')"
    using audit_grows.k_reconcile_store assms(1) by (rule keepsE) simp
  moreover have "store_wf s'" using wf.k_reconcile_store assms by (rule keepsE)
  ultimately show ?thesis using r1(3) rep(3) by simp
qed

end
