(* ===== verification/Coordinator.thy ===== *)
theory Coordinator
  imports RecoveryOutcome "HOL-Library.AList"
begin

section \<open>The coordinator (src/coordinator.rs)\<close>

text \<open>
  The authority for lifecycle decisions and reclamation: the state behind its mutex, the checks
  every access passes, the guards of concurrent operations, the routing of payload operations to
  local backends or nodes, planning, and the transactional reclaim
  (plan, reserve, validate, execute, verify, commit).

  What the coordinator calls outside itself is the parameter \<open>E\<close>: the clock, fresh
  identifiers, the registered backend and archive objects, the call of a remote node and the
  text of identifiers and messages. All of them act on \<open>world\<close>, whose type is left open.
  An operation is a function of the state it finds; between two accesses of the mutex another
  thread can only do what the guards let it do, and a guard that never becomes free is the
  timeout error.
\<close>

subsection \<open>State and environment\<close>

record backend_descriptor =
  bd_id :: string
  bd_kind :: string
  bd_location :: "string option"

record node_info =
  ni_node_id :: string
  ni_name :: string
  ni_process_id :: string
  ni_boot_id :: uuid
  ni_addr :: string
  ni_backends :: "backend_descriptor list"
  ni_last_seen_ms :: int

record node_operation_request =
  nq_object_id :: uuid
  nq_generation :: nat
  nq_replica_id :: uuid
  nq_attempt_id :: "uuid option"
  nq_coordinator_epoch :: nat
  nq_backend :: string
  nq_key :: string
  nq_payload_b64 :: "string option"
  nq_expected_hash :: "string option"
  nq_codec :: "string option"

record node_operation_reply =
  nr_ok :: bool
  nr_size :: "nat option"
  nr_result_hash :: "string option"
  nr_existed :: bool
  nr_error :: "wire_error option"

record coordinator_config =
  cfg_process_id :: string
  reservation_ttl_ms :: int
  node_heartbeat_timeout_ms :: int

record 'w environment =
  env_now :: "'w \<Rightarrow> int \<times> 'w"
  env_uuid :: "'w \<Rightarrow> uuid \<times> 'w"
  env_stamp :: "'w \<Rightarrow> int"
  backend_put :: "string \<Rightarrow> string \<Rightarrow> bytes \<Rightarrow> 'w \<Rightarrow> nat result \<times> 'w"
  backend_get :: "string \<Rightarrow> string \<Rightarrow> 'w \<Rightarrow> bytes result \<times> 'w"
  backend_delete :: "string \<Rightarrow> string \<Rightarrow> 'w \<Rightarrow> unit result \<times> 'w"
  backend_exists :: "string \<Rightarrow> string \<Rightarrow> 'w \<Rightarrow> bool result \<times> 'w"
  archive_drop :: "string \<Rightarrow> string \<Rightarrow> 'w \<Rightarrow> unit result \<times> 'w"
  archive_exists :: "string \<Rightarrow> string \<Rightarrow> 'w \<Rightarrow> bool result \<times> 'w"
  node_call :: "string \<Rightarrow> string \<Rightarrow> node_operation_request \<Rightarrow> 'w \<Rightarrow> node_operation_reply result \<times> 'w"
  external_metrics :: "'w \<Rightarrow> nat \<Rightarrow> pressure_metrics"
  env_order :: "(content_hash \<times> string) list \<Rightarrow> (content_hash \<times> string) list"
  env_sha :: sha_fun
  env_codec :: journal_codec
  base64 :: "bytes \<Rightarrow> string"
  from_base64 :: "string \<Rightarrow> bytes result"
  uuid_text :: "uuid \<Rightarrow> string"
  msg_text :: "msg \<Rightarrow> string"

record 'w coordinator =
  co_store :: store
  co_epoch :: nat
  co_boot_id :: uuid
  co_policies :: policy_registry
  co_pressure :: pressure_registry
  co_backends :: "string list"
  co_archives :: "string list"
  co_nodes :: "(string \<times> node_info) list"
  active_objects :: "uuid list"
  active_payloads :: "(string \<times> content_hash) list"
  active_recovery :: bool
  co_config :: coordinator_config
  authority_lost :: bool
  shutdown_requested :: bool
  world :: 'w

type_synonym ('w, 'a) cop = "('w coordinator, error, 'a) op"

subsection \<open>The mutex\<close>

text \<open>A call on a part of the state.\<close>

definition on_store :: "'a sop \<Rightarrow> ('w, 'a) cop" where
  "on_store m = (\<lambda>c. case m (co_store c) of (r, s') \<Rightarrow> (r, c\<lparr>co_store := s'\<rparr>))"

definition on_world :: "('w \<Rightarrow> 'a result \<times> 'w) \<Rightarrow> ('w, 'a) cop" where
  "on_world f = (\<lambda>c. case f (world c) of (r, w') \<Rightarrow> (r, c\<lparr>world := w'\<rparr>))"

definition read_clock :: "'w environment \<Rightarrow> ('w, int) cop" where
  "read_clock E = on_world (\<lambda>w. case env_now E w of (t, w') \<Rightarrow> (Inr t, w'))"

definition new_v4 :: "'w environment \<Rightarrow> ('w, uuid) cop" where
  "new_v4 E = on_world (\<lambda>w. case env_uuid E w of (i, w') \<Rightarrow> (Inr i, w'))"

text \<open>The lock, the lost-authority flag and the heartbeat of every access.\<close>

definition with_inner :: "'w environment \<Rightarrow> ('w, 'a) cop \<Rightarrow> ('w, 'a) cop" where
  "with_inner E f = (\<lambda>c.
     if authority_lost c
     then (Inl (ReservationConflict [Lit ''coordinator authority has been lost'']), c)
     else
       case bindS (read_clock E) (\<lambda>now.
           on_store (coordinator_heartbeat (cfg_process_id (co_config c)) (co_boot_id c) (co_epoch c) now)) c of
         (Inl e, c') \<Rightarrow> (Inl e, c'\<lparr>authority_lost := True\<rparr>)
       | (Inr _, c') \<Rightarrow> f c')"

definition locked :: "'w environment \<Rightarrow> 'a sop \<Rightarrow> ('w, 'a) cop" where
  "locked E m = with_inner E (on_store m)"

definition asked :: "'w environment \<Rightarrow> (store \<Rightarrow> 'a result) \<Rightarrow> ('w, 'a) cop" where
  "asked E f = locked E (askS f)"

subsection \<open>Guards\<close>

definition begin_object_operation :: "'w environment \<Rightarrow> uuid \<Rightarrow> ('w, unit) cop" where
  "begin_object_operation E i = with_inner E (\<lambda>c.
     if active_recovery c then (Inl (ReservationConflict [Lit ''recovery is in progress'']), c)
     else if i \<in> set (active_objects c)
     then (Inl (ReservationConflict [Lit ''object '', Uid i, Lit '' already has an operation in progress'']), c)
     else (Inr (), c\<lparr>active_objects := i # active_objects c\<rparr>))"

text \<open>\<open>let _operation = self.begin_object_operation(id)?\<close>: the guard is dropped on every way out.\<close>

definition with_object :: "'w environment \<Rightarrow> uuid \<Rightarrow> ('w, 'a) cop \<Rightarrow> ('w, 'a) cop" where
  "with_object E i body =
     bindS (begin_object_operation E i) (\<lambda>_ c.
     case body c of (r, c') \<Rightarrow> (r, c'\<lparr>active_objects := removeAll i (active_objects c')\<rparr>))"

definition begin_payload_operations :: "(string \<times> content_hash) list \<Rightarrow> ('w, (string \<times> content_hash) list) cop" where
  "begin_payload_operations ks = (\<lambda>c.
     let keys = remdups (sort ks) in
     if shutdown_requested c then (Inl (ReservationConflict [Lit ''coordinator is shutting down'']), c)
     else if authority_lost c then (Inl (ReservationConflict [Lit ''coordinator authority has been lost'']), c)
     else if \<not> active_recovery c \<and> (\<forall>k\<in>set keys. k \<notin> set (active_payloads c))
     then (Inr keys, c\<lparr>active_payloads := keys @ active_payloads c\<rparr>)
     else (Inl (ReservationConflict [Lit ''timed out waiting for shared payload operation'']), c))"

definition drop_payload_guard :: "(string \<times> content_hash) list \<Rightarrow> 'w coordinator \<Rightarrow> 'w coordinator" where
  "drop_payload_guard keys c = c\<lparr>active_payloads := filter (\<lambda>k. k \<notin> set keys) (active_payloads c)\<rparr>"

definition begin_recovery :: "'w environment \<Rightarrow> ('w, unit) cop" where
  "begin_recovery E = with_inner E (\<lambda>c.
     if active_recovery c \<or> active_objects c \<noteq> [] \<or> active_payloads c \<noteq> []
     then (Inl (ReservationConflict [Lit ''cannot run recovery while lifecycle operations are active'']), c)
     else (Inr (), c\<lparr>active_recovery := True\<rparr>))"

subsection \<open>Payloads on local backends and on nodes\<close>

definition NODE_EXECUTE_STORE :: string where "NODE_EXECUTE_STORE = ''node.execute.store''"
definition NODE_EXECUTE_DELETE :: string where "NODE_EXECUTE_DELETE = ''node.execute.delete''"
definition NODE_EXECUTE_READ :: string where "NODE_EXECUTE_READ = ''node.execute.read''"
definition NODE_EXECUTE_EXISTS :: string where "NODE_EXECUTE_EXISTS = ''node.execute.exists''"

definition node_for_backend_locked :: "string \<Rightarrow> ('w, string option) cop" where
  "node_for_backend_locked b = (\<lambda>c.
     let owners = sort (map ni_node_id (filter (\<lambda>n. \<exists>d\<in>set (ni_backends n). bd_id d = b) (map snd (co_nodes c))))
     in
       if length owners > 1
       then (Inl (ReservationConflict ([Lit ''backend '', Str b, Lit '' is ambiguously registered by nodes '']
         @ map Str owners)), c)
       else (Inr (if owners = [] then None else Some (last owners)), c))"

definition node_for_backend :: "'w environment \<Rightarrow> string \<Rightarrow> ('w, string option) cop" where
  "node_for_backend E b = with_inner E (node_for_backend_locked b)"

text \<open>\<open>g.backends.get(id)\<close>: the registered backend object, here its identifier.\<close>

definition local_backend :: "'w environment \<Rightarrow> string \<Rightarrow> ('w, string) cop" where
  "local_backend E b = with_inner E (\<lambda>c.
     if b \<in> set (co_backends c) then (Inr b, c) else (Inl (Backend [Lit ''unknown backend '', Str b]), c))"

definition node_operation ::
  "'w environment \<Rightarrow> string \<Rightarrow> string \<Rightarrow> node_operation_request \<Rightarrow> ('w, node_operation_reply) cop" where
  "node_operation E nid meth q =
     bindS (with_inner E (\<lambda>c. (case map_of (co_nodes c) nid of
         None \<Rightarrow> Inl (NotFound [Lit ''node '', Str nid]) | Some n \<Rightarrow> Inr (ni_addr n), c))) (\<lambda>addr c.
     on_world (node_call E addr meth (q\<lparr>nq_coordinator_epoch := co_epoch c\<rparr>)) c)"

definition node_request :: "string \<Rightarrow> string \<Rightarrow> node_operation_request" where
  "node_request b key = \<lparr>nq_object_id = 0, nq_generation = 0, nq_replica_id = 0, nq_attempt_id = None,
     nq_coordinator_epoch = 0, nq_backend = b, nq_key = key, nq_payload_b64 = None,
     nq_expected_hash = None, nq_codec = None\<rparr>"

text \<open>The error of a reply that is not ok.\<close>

definition reply_error :: "string \<Rightarrow> node_operation_reply \<Rightarrow> error" where
  "reply_error what r =
     (case nr_error r of
        Some w \<Rightarrow> map_reclaim_error (\<lambda>m. [Str m]) (error_of_wire w)
      | None \<Rightarrow> Backend [Lit what])"

definition read_payload :: "'w environment \<Rightarrow> string \<Rightarrow> string \<Rightarrow> ('w, bytes) cop" where
  "read_payload E b key =
     bindS (node_for_backend E b) (\<lambda>n.
     case n of
       None \<Rightarrow> bindS (local_backend E b) (\<lambda>b'. on_world (backend_get E b' key))
     | Some nid \<Rightarrow>
         bindS (node_operation E nid NODE_EXECUTE_READ (node_request b key)) (\<lambda>r.
         if \<not> nr_ok r then failS (reply_error ''node read failed'' r)
         else bindS (liftS (ok_or (nr_result_hash r) (Protocol [Lit ''node read returned no payload''])))
           (\<lambda>x. liftS (from_base64 E x))))"

definition delete_payload :: "'w environment \<Rightarrow> string \<Rightarrow> string \<Rightarrow> ('w, unit) cop" where
  "delete_payload E b key =
     bindS (node_for_backend E b) (\<lambda>n.
     case n of
       None \<Rightarrow> bindS (local_backend E b) (\<lambda>b'. on_world (backend_delete E b' key))
     | Some nid \<Rightarrow>
         bindS (node_operation E nid NODE_EXECUTE_DELETE (node_request b key)) (\<lambda>r.
         if \<not> nr_ok r then failS (reply_error ''node delete failed'' r) else returnS ()))"

definition payload_exists :: "'w environment \<Rightarrow> string \<Rightarrow> string \<Rightarrow> ('w, bool) cop" where
  "payload_exists E b key =
     bindS (node_for_backend E b) (\<lambda>n.
     case n of
       None \<Rightarrow> bindS (local_backend E b) (\<lambda>b'. on_world (backend_exists E b' key))
     | Some nid \<Rightarrow>
         bindS (node_operation E nid NODE_EXECUTE_EXISTS (node_request b key)) (\<lambda>r.
         if \<not> nr_ok r then failS (reply_error ''node exists failed'' r) else returnS (nr_existed r)))"

text \<open>
  The verified write. An error of the calls themselves is returned at once; the inner result is
  \<open>write_result\<close>, whose error first removes the payload again.
\<close>

definition write_result :: "'w environment \<Rightarrow> string \<Rightarrow> string \<Rightarrow> bytes \<Rightarrow> ('w, unit result) cop" where
  "write_result E b key data =
     (let expected = hash_of (env_sha E) data in
      bindS (node_for_backend E b) (\<lambda>n.
      case n of
        None \<Rightarrow>
          bindS (local_backend E b) (\<lambda>b'.
          bindS (on_world (backend_put E b' key data)) (\<lambda>size.
          if size \<noteq> length data
          then returnS (Inl (Backend [Lit ''backend '', Str b, Lit '' reported storing '', Num (int size),
            Lit '' bytes, expected '', Num (int (length data))]))
          else
            bindS (on_world (backend_get E b' key)) (\<lambda>stored.
            returnS (verify_sha256 (env_sha E) stored expected))))
      | Some nid \<Rightarrow>
          bindS (node_operation E nid NODE_EXECUTE_STORE ((node_request b key)
            \<lparr>nq_payload_b64 := Some (base64 E data), nq_expected_hash := Some (hash_str expected)\<rparr>)) (\<lambda>r.
          returnS
            (if \<not> nr_ok r then Inl (reply_error ''node store failed'' r)
             else if nr_size r \<noteq> Some (length data)
             then Inl (Protocol ([Lit ''node store returned size ''] @
               (case nr_size r of None \<Rightarrow> [Lit ''None''] | Some n \<Rightarrow> [Lit ''Some('', Num (int n), Lit '')'']) @
               [Lit '', expected '', Num (int (length data))]))
             else if nr_result_hash r \<noteq> Some (base64 E expected)
             then Inl (Protocol [Lit ''node store returned a mismatched content hash''])
             else Inr ()))))"

text \<open>Running an operation without leaving on its error.\<close>

definition attempt_op :: "('s, 'e, 'a) op \<Rightarrow> ('s, 'e, 'e + 'a) op" where
  "attempt_op m = (\<lambda>s. case m s of (r, s') \<Rightarrow> (Inr r, s'))"

definition write_payload_to :: "'w environment \<Rightarrow> string \<Rightarrow> string \<Rightarrow> bytes \<Rightarrow> ('w, unit) cop" where
  "write_payload_to E b key data =
     bindS (write_result E b key data) (\<lambda>res.
     case res of
       Inr _ \<Rightarrow> returnS ()
     | Inl e \<Rightarrow>
         bindS (attempt_op (delete_payload E b key)) (\<lambda>r.
         case r of
           Inr _ \<Rightarrow> failS e
         | Inl cleanup \<Rightarrow> failS (Internal ([Lit ''payload write verification failed (''] @ display e @
             [Lit ''); cleanup also failed (''] @ display cleanup @ [Lit '')'']))))"

subsection \<open>Object operations\<close>

definition object_audit ::
  "int \<Rightarrow> string \<Rightarrow> string \<Rightarrow> reclaim_object \<Rightarrow> string option \<Rightarrow> string option \<Rightarrow> string option \<Rightarrow> uuid option
   \<Rightarrow> json \<Rightarrow> audit_entry" where
  "object_audit now who act obj prior new pol att d = \<lparr>au_id = 0, au_ts_ms = now, actor = who, action = act,
     au_object_id = Some (id obj), au_generation = Some (generation obj), prior_state = prior, new_state = new,
     au_policy = pol, au_attempt_id = att, au_node = None, detail = d\<rparr>"

definition apply_transition ::
  "'w environment \<Rightarrow> reclaim_object \<Rightarrow> lifecycle_state \<Rightarrow> string \<Rightarrow> string \<Rightarrow> string option \<Rightarrow> uuid option
   \<Rightarrow> ('w, reclaim_object) cop" where
  "apply_transition E obj to who act pol att =
     bindS (liftS (check_transition (obj_state obj) to)) (\<lambda>res.
     if res = Noop then returnS obj
     else
       let updated = obj\<lparr>obj_state := to\<rparr> in
       bindS (with_inner E (bindS (read_clock E) (\<lambda>now.
         on_store (update_object_with_audit updated (object_audit now who act obj
           (Some (state_str (obj_state obj))) (Some (state_str to)) pol att (JObject [])))))) (\<lambda>_.
       returnS updated))"

definition apply_object_update ::
  "'w environment \<Rightarrow> reclaim_object \<Rightarrow> string \<Rightarrow> uuid option \<Rightarrow> string \<Rightarrow> ('w, unit) cop" where
  "apply_object_update E obj who att act =
     with_inner E (bindS (read_clock E) (\<lambda>now.
       on_store (update_object_with_audit obj (object_audit now who act obj None
         (Some (state_str (obj_state obj))) None att (JObject [])))))"

definition touch :: "'w environment \<Rightarrow> uuid \<Rightarrow> string \<Rightarrow> ('w, reclaim_object) cop" where
  "touch E i who = with_object E i (
     bindS (asked E (require_object i)) (\<lambda>obj.
     if obj_state obj = Reclaimed then failS (InvalidArgument [Lit ''cannot touch a RECLAIMED object''])
     else
       bindS (liftS (ok_or (checked_add_u64 (access_count obj) 1)
         (InvalidArgument [Lit ''object '', Uid (id obj), Lit '' access count overflow'']))) (\<lambda>n.
       bindS (read_clock E) (\<lambda>now.
       let obj' = obj\<lparr>access_count := n, last_access_ms := now\<rparr> in
       bindS (apply_object_update E obj' who None ''OBJECT_TOUCHED'') (\<lambda>_. returnS obj')))))"

definition pin :: "'w environment \<Rightarrow> uuid \<Rightarrow> string \<Rightarrow> ('w, reclaim_object) cop" where
  "pin E i who = with_object E i (
     bindS (asked E (require_object i)) (\<lambda>obj.
     if obj_state obj = Reclaimed then failS (InvalidArgument [Lit ''cannot pin a RECLAIMED object''])
     else
       let obj' = obj\<lparr>pinned := True\<rparr> in
       bindS (apply_object_update E obj' who None ''OBJECT_PINNED'') (\<lambda>_. returnS obj')))"

definition unpin :: "'w environment \<Rightarrow> uuid \<Rightarrow> string \<Rightarrow> ('w, reclaim_object) cop" where
  "unpin E i who = with_object E i (
     bindS (asked E (require_object i)) (\<lambda>obj.
     let obj' = obj\<lparr>pinned := False\<rparr> in
     bindS (apply_object_update E obj' who None ''OBJECT_UNPINNED'') (\<lambda>_. returnS obj')))"

definition set_protected :: "'w environment \<Rightarrow> uuid \<Rightarrow> bool \<Rightarrow> string \<Rightarrow> ('w, reclaim_object) cop" where
  "set_protected E i b who = with_object E i (
     bindS (asked E (require_object i)) (\<lambda>obj.
     let obj' = obj\<lparr>protected := b\<rparr> in
     bindS (apply_object_update E obj' who None (if b then ''OBJECT_PROTECTED'' else ''OBJECT_UNPROTECTED'')) (\<lambda>_.
     returnS obj')))"

subsection \<open>Lineage\<close>

definition lineage_idle :: "uuid \<Rightarrow> uuid \<Rightarrow> ('w, unit) cop" where
  "lineage_idle p k = (\<lambda>c.
     if active_recovery c \<or> p \<in> set (active_objects c) \<or> k \<in> set (active_objects c)
     then (Inl (ReservationConflict [Lit ''lineage endpoint has an active lifecycle operation'']), c)
     else (Inr (), c))"

definition lineage_audit :: "'w environment \<Rightarrow> int \<Rightarrow> string \<Rightarrow> string \<Rightarrow> uuid \<Rightarrow> uuid \<Rightarrow> audit_entry" where
  "lineage_audit E now who act p k = \<lparr>au_id = 0, au_ts_ms = now, actor = who, action = act,
     au_object_id = Some p, au_generation = None, prior_state = None, new_state = None, au_policy = None,
     au_attempt_id = None, au_node = None,
     detail = JObject [(''child'', JString (uuid_text E k)), (''parent'', JString (uuid_text E p))]\<rparr>"

definition add_lineage :: "'w environment \<Rightarrow> uuid \<Rightarrow> uuid \<Rightarrow> edge_kind \<Rightarrow> string \<Rightarrow> ('w, unit) cop" where
  "add_lineage E p k kind who = with_inner E (
     bindS (lineage_idle p k) (\<lambda>_.
     bindS (on_store (askS stored_lineage_graph)) (\<lambda>g.
     bindS (liftS (add_edge p k kind g)) (\<lambda>_.
     bindS (on_store (add_lineage_edge p k kind)) (\<lambda>_.
     bindS (read_clock E) (\<lambda>now.
     on_store (append_audit (lineage_audit E now who (''LINEAGE_ADD_'' @ edge_kind_str kind) p k))))))))"

definition remove_lineage :: "'w environment \<Rightarrow> uuid \<Rightarrow> uuid \<Rightarrow> edge_kind \<Rightarrow> string \<Rightarrow> ('w, unit) cop" where
  "remove_lineage E p k kind who = with_inner E (
     bindS (lineage_idle p k) (\<lambda>_.
     bindS (on_store (remove_lineage_edge p k kind)) (\<lambda>_.
     bindS (read_clock E) (\<lambda>now.
     on_store (append_audit (lineage_audit E now who (''LINEAGE_REMOVE_'' @ edge_kind_str kind) p k))))))"

definition lineage :: "'w environment \<Rightarrow> ('w, lineage_graph) cop" where
  "lineage E = asked E stored_lineage_graph"

subsection \<open>Planning\<close>

definition reconstructible :: "reclaim_object \<Rightarrow> bool" where
  "reconstructible obj \<longleftrightarrow> recompute_cost obj \<noteq> None"

definition reconstructible_in :: "reclaim_object list \<Rightarrow> uuid \<Rightarrow> bool" where
  "reconstructible_in objs i = (case row_of id objs i of None \<Rightarrow> False | Some obj \<Rightarrow> reconstructible obj)"

definition dead_in :: "reclaim_object list \<Rightarrow> uuid list" where
  "dead_in objs = map id (filter (\<lambda>obj. obj_state obj = Reclaimed) objs)"

definition dependency_weight :: "lineage_graph \<Rightarrow> reclaim_object list \<Rightarrow> uuid \<Rightarrow> f64" where
  "dependency_weight g objs i =
     fold (\<lambda>e v. if edge_kind e = DependsOn \<and> edge_child e \<notin> set (dead_in objs) \<and>
           \<not> reconstructible_in objs (edge_child e) then fadd v (Fin 1) else v)
       (entries (parents g) i) (Fin 0)"

definition survivability_weight :: "reclaim_object \<Rightarrow> nat \<Rightarrow> f64" where
  "survivability_weight obj copies =
     (if copies > 0 then fmax (fof_nat (min_valid_copies (obj_durability obj))) (Fin 1) else Fin 0)"

definition decision_context :: "'w environment \<Rightarrow> reclaim_object \<Rightarrow> ('w, decision_context) cop" where
  "decision_context E obj =
     bindS (lineage E) (\<lambda>g.
     bindS (asked E list_objects) (\<lambda>objs.
     bindS (asked E (\<lambda>s. Inr (valid_replica_count (id obj) s))) (\<lambda>n.
     bindS (asked E (\<lambda>s. Inr (length (archives_for (id obj) s)))) (\<lambda>m.
     returnS \<lparr>ctx_dependency_value = fmul (dependency_weight g objs (id obj)) (Fin 10000),
              ctx_survivability_value = survivability_weight obj (n + m)\<rparr>))))"

fun verdict_dbg :: "reclaim_verdict \<Rightarrow> string" where
  "verdict_dbg Retain = ''Retain''"
| "verdict_dbg Reclaim = ''Reclaim''"
| "verdict_dbg Demote = ''Demote''"
| "verdict_dbg CompressVerdict = ''Compress''"
| "verdict_dbg Deduplicate = ''Deduplicate''"
| "verdict_dbg ArchiveVerdict = ''Archive''"
| "verdict_dbg MarkRecomputable = ''MarkRecomputable''"

definition read_pressure :: "'w environment \<Rightarrow> ('w, pressure_level) cop" where
  "read_pressure E = with_inner E (\<lambda>c. (try_level (external_metrics E (world c)) (co_pressure c), c))"

definition plan :: "'w environment \<Rightarrow> uuid \<Rightarrow> string \<Rightarrow> ('w, policy_decision) cop" where
  "plan E i who =
     bindS (asked E (require_object i)) (\<lambda>obj.
     bindS (decision_context E obj) (\<lambda>ctx.
     bindS (read_pressure E) (\<lambda>pressure.
     bindS (askS (\<lambda>c. Inr (co_epoch c))) (\<lambda>ep.
     bindS (read_clock E) (\<lambda>now.
     bindS (with_inner E (askS (\<lambda>c. Inr (co_policies c)))) (\<lambda>registry.
     bindS (liftS (decide registry obj pressure ep now ctx)) (\<lambda>d.
     bindS (with_inner E (
       bindS (askS (\<lambda>c. Inr (env_stamp E (world c)))) (\<lambda>stamp.
       bindS (on_store (insert_decision stamp (pd_decision d))) (\<lambda>_.
       on_store (append_audit (object_audit now who ''DECISION'' obj (Some (state_str (obj_state obj))) None
         (Some (dec_policy_id (pd_decision d))) None
         (JObject [(''explanation'', explanation d), (''score'', JFloat (score (pd_decision d))),
           (''threshold'', JFloat (threshold (pd_decision d))),
           (''verdict'', JString (verdict_dbg (verdict (pd_decision d))))]))))))) (\<lambda>_.
     returnS d))))))))"

subsection \<open>Checks before a release\<close>

definition valid_copy_count :: "'w environment \<Rightarrow> uuid \<Rightarrow> ('w, nat) cop" where
  "valid_copy_count E i =
     bindS (asked E (\<lambda>s. Inr (valid_replica_count i s))) (\<lambda>n.
     bindS (asked E (\<lambda>s. Inr (length (archives_for i s)))) (\<lambda>m. returnS (n + m)))"

definition check_survivability ::
  "'w environment \<Rightarrow> reclaim_object \<Rightarrow> replica list \<Rightarrow> nat \<Rightarrow> ('w, unit) cop" where
  "check_survivability E obj to_delete archs =
     bindS (valid_copy_count E (id obj)) (\<lambda>valid_before.
     let remaining = valid_before - length (filter valid to_delete) - archs;
         m = min_valid_copies (obj_durability obj) in
     if remaining < m
     then failS (SurvivabilityViolation [Lit ''after reclaim: '', Num (int remaining),
       Lit '' valid copies remain, minimum for '', Str (durability_dbg (obj_durability obj)), Lit '' is '',
       Num (int m)])
     else returnS ())"

definition check_dependencies :: "'w environment \<Rightarrow> reclaim_object \<Rightarrow> ('w, unit) cop" where
  "check_dependencies E obj =
     bindS (lineage E) (\<lambda>g.
     bindS (asked E list_objects) (\<lambda>objs.
     liftS (dependency_safe g (id obj) (reconstructible_in objs) (dead_in objs))))"

subsection \<open>The reclaim transaction\<close>

record reclaim_request =
  rq_object_id :: uuid
  rq_actor :: string
  rq_force :: bool

record reclaim_report =
  rr_object_id :: uuid
  rr_generation :: nat
  reclaimed :: bool
  rr_prior_state :: string
  final_state :: string
  rr_attempt_id :: uuid
  rr_reservation_id :: uuid
  rr_decision :: "policy_decision option"
  rr_explanation :: "json option"
  deleted_replicas :: "uuid list"
  deleted_archives :: "string list"
  physical_error :: "string option"

text \<open>The hard invariants, before anything is planned.\<close>

definition reclaim_precheck :: "'w environment \<Rightarrow> int \<Rightarrow> reclaim_object \<Rightarrow> ('w, unit) cop" where
  "reclaim_precheck E now obj =
     (if pinned obj then failS (PinnedObject [Uid (id obj)])
      else if protected obj then failS (ProtectedObject [Uid (id obj)])
      else if obj_state obj = Reclaimed
      then failS (InvalidArgument [Lit ''object '', Uid (id obj), Lit '' is already RECLAIMED''])
      else if obj_state obj = Failed
      then failS (InvalidArgument [Lit ''object '', Uid (id obj), Lit '' is FAILED and requires operator repair''])
      else
        bindS (asked E (\<lambda>s. Inr (has_open_reservation_for (id obj) s))) (\<lambda>open_r.
        if open_r
        then failS (ReservationConflict [Lit ''object '', Uid (id obj),
          Lit '' already has an open reclamation reservation''])
        else
          case min_retention_deadline_ms obj of
            None \<Rightarrow> returnS ()
          | Some deadline \<Rightarrow>
              if now < deadline
              then failS (InvalidArgument [Lit ''object '', Uid (id obj),
                Lit '' is before its minimum retention deadline''])
              else returnS ()))"

definition releasing_state :: "lifecycle_state \<Rightarrow> bool" where
  "releasing_state st \<longleftrightarrow> st = Hot \<or> st = Warm \<or> st = Cold \<or> st = Compressed"

definition reclaim_route :: "reclaim_object \<Rightarrow> unit result" where
  "reclaim_route obj =
     (if releasing_state (obj_state obj)
      then
        if \<not> reconstructible obj \<and> obj_durability obj \<noteq> DurEphemeral
        then Inl (SurvivabilityViolation [Lit ''object '', Uid (id obj),
          Lit '' is not reconstructible and may not be reclaimed''])
        else
          bindr (check_transition (obj_state obj) Recomputable) (\<lambda>_.
          bindr (check_transition Recomputable ReclaimPending) (\<lambda>_. Inr ()))
      else bindr (check_transition (obj_state obj) ReclaimPending) (\<lambda>_. Inr ()))"

text \<open>Reserve: the three records in one transaction, then the object to \<open>RECLAIM_PENDING\<close>.\<close>

definition reserve_reclaim ::
  "'w environment \<Rightarrow> int \<Rightarrow> reclaim_object \<Rightarrow> json \<Rightarrow> reclaim_report \<Rightarrow> ('w, unit) cop" where
  "reserve_reclaim E now obj pay rep =
     bindS (with_inner E (askS (\<lambda>c. Inr (reservation_ttl_ms (co_config c))))) (\<lambda>ttl.
     bindS (liftS (ok_or (checked_add_i64 now ttl)
       (InvalidArgument [Lit ''reservation expiration timestamp overflow'']))) (\<lambda>expires.
     locked E (create_reclaim_reservation
       \<lparr>j_attempt_id = rr_attempt_id rep, j_object_id = id obj, j_generation = generation obj, j_phase = Reserved,
         j_created_at_ms = now, j_updated_at_ms = now, j_payload = pay\<rparr>
       \<lparr>reservation_id = rr_reservation_id rep, r_attempt_id = rr_attempt_id rep, r_object_id = id obj,
         r_generation = generation obj, r_node = ''coordinator'', r_created_at_ms = now, expires_at_ms = expires,
         r_status = ''OPEN''\<rparr>
       \<lparr>a_attempt_id = rr_attempt_id rep, a_object_id = id obj, a_generation = generation obj,
         a_node = ''coordinator'', a_created_at_ms = now, a_updated_at_ms = now, a_status = AOpen\<rparr>)))"

definition pend_object ::
  "'w environment \<Rightarrow> reclaim_request \<Rightarrow> policy_decision \<Rightarrow> reclaim_object \<Rightarrow> reclaim_report
   \<Rightarrow> ('w, reclaim_object) cop" where
  "pend_object E q d prior rep =
     (let pol = Some (dec_policy_id (pd_decision d)); att = Some (rr_attempt_id rep) in
      if obj_state prior = ReclaimPending then returnS prior
      else
        bindS (if releasing_state (obj_state prior)
          then apply_transition E prior Recomputable (rq_actor q) ''RECLAIM_STEP_RECOMPUTABLE'' pol att
          else returnS prior) (\<lambda>current.
        apply_transition E current ReclaimPending (rq_actor q) ''RECLAIM_RESERVED'' pol att))"

definition abort_reclaim ::
  "'w environment \<Rightarrow> reclaim_report \<Rightarrow> reclaim_object \<Rightarrow> error \<Rightarrow> ('w, unit) cop" where
  "abort_reclaim E rep prior reason =
     bindS (read_clock E) (\<lambda>now.
     with_inner E (
       bindS (on_store (update_object_with_audit prior (object_audit now ''coordinator'' ''RECLAIM_ABORTED'' prior
         (Some (state_str ReclaimPending)) (Some (state_str (obj_state prior))) None (Some (rr_attempt_id rep))
         (JObject [(''reason'', JString (msg_text E (display reason)))])))) (\<lambda>_.
       bindS (on_store (update_reservation (rr_reservation_id rep) ''RELEASED'')) (\<lambda>_.
       bindS (on_store (update_attempt (rr_attempt_id rep) ARolledBack now)) (\<lambda>_.
       on_store (update_journal_phase (rr_attempt_id rep) RolledBack now))))))"

text \<open>\<open>self.abort_reclaim(...)?; return Err(e)\<close>.\<close>

definition aborting ::
  "'w environment \<Rightarrow> reclaim_report \<Rightarrow> reclaim_object \<Rightarrow> ('w, 'a) cop \<Rightarrow> ('w, 'a) cop" where
  "aborting E rep prior m =
     bindS (attempt_op m) (\<lambda>r. case r of
       Inr a \<Rightarrow> returnS a
     | Inl e \<Rightarrow> bindS (abort_reclaim E rep prior e) (\<lambda>_. failS e))"

definition indeterminate_reclaim ::
  "'w environment \<Rightarrow> reclaim_report \<Rightarrow> error \<Rightarrow> string \<Rightarrow> ('w, 'a) cop" where
  "indeterminate_reclaim E rep reason kind = (\<lambda>c.
     let message = [Lit ''reclaim '', Uid (rr_attempt_id rep), Lit '' became indeterminate during '', Str kind,
           Lit '': ''] @ display reason @ [Lit ''; coordinator is shutting down for recovery''] in
     case with_inner E (bindS (read_clock E) (\<lambda>now. on_store (insert_failure \<lparr>f_id = 0, f_ts_ms = now,
         f_object_id = Some (rr_object_id rep), f_attempt_id = Some (rr_attempt_id rep), f_kind = kind,
         f_message = display reason, recovered = False\<rparr>))) c of
       (r, c') \<Rightarrow>
         (Inl (Recovery (case r of Inr _ \<Rightarrow> message
            | Inl fe \<Rightarrow> message @ [Lit ''; recording the failure also failed: ''] @ display fe)),
          c'\<lparr>authority_lost := True, shutdown_requested := True\<rparr>))"

definition indeterminate_on_error ::
  "'w environment \<Rightarrow> reclaim_report \<Rightarrow> string \<Rightarrow> ('w, 'a) cop \<Rightarrow> ('w, 'a) cop" where
  "indeterminate_on_error E rep kind m =
     bindS (attempt_op m) (\<lambda>r. case r of
       Inr a \<Rightarrow> returnS a | Inl e \<Rightarrow> indeterminate_reclaim E rep e kind)"

text \<open>
  Execute: which payloads lose their last reference. A \<open>HashMap\<close> counts the scheduled
  replicas of each payload; \<open>env_order\<close> is the order in which it is walked.
\<close>

type_synonym schedule = "((content_hash \<times> string) \<times> nat \<times> replica) list"

definition schedule_replica ::
  "'w environment \<Rightarrow> schedule \<times> replica list \<Rightarrow> replica \<Rightarrow> (schedule \<times> replica list) result" where
  "schedule_replica E acc r =
     (let (sched, physical) = acc; key = (rep_content_hash r, loc_backend (rep_location r)) in
      if rep_content_hash r = hash_empty (env_sha E) then Inr (sched, physical @ [r])
      else
        let (n, first) = (case map_of sched key of Some x \<Rightarrow> x | None \<Rightarrow> (0, r)) in
        if loc_key (rep_location first) \<noteq> loc_key (rep_location r)
        then Inl (Dedup [Lit ''replicas for '', Hsh (rep_content_hash r), Lit '' on '',
          Str (loc_backend (rep_location r)), Lit '' disagree on canonical key''])
        else Inr (AList.update key (n + 1, first) sched, physical))"

definition schedule_payload ::
  "store \<Rightarrow> schedule \<Rightarrow> replica list \<Rightarrow> content_hash \<times> string \<Rightarrow> replica list result" where
  "schedule_payload s sched physical key =
     (case map_of sched key of
        None \<Rightarrow> Inr physical
      | Some (n, first) \<Rightarrow>
          bindr (ok_or (get_dedup (fst key) (snd key) s)
            (Dedup [Lit ''missing dedup row for scheduled replica '', Hsh (fst key), Lit '' on '', Str (snd key)])) (\<lambda>d.
          if de_key d \<noteq> loc_key (rep_location first)
          then Inl (Dedup [Lit ''dedup key '', Str (de_key d), Lit '' disagrees with replica key '',
            Str (loc_key (rep_location first)), Lit '' for '', Hsh (fst key), Lit '' on '', Str (snd key)])
          else if n > ref_count d
          then Inl (Dedup [Lit ''scheduled '', Num (int n), Lit '' releases but dedup refcount is '',
            Num (int (ref_count d)), Lit '' for '', Hsh (fst key), Lit '' on '', Str (snd key)])
          else Inr (if n = ref_count d then physical @ [first] else physical)))"

definition physical_plan :: "'w environment \<Rightarrow> replica list \<Rightarrow> store \<Rightarrow> replica list result" where
  "physical_plan E to_delete s =
     bindr (fold_r (schedule_replica E) ([], []) to_delete) (\<lambda>(sched, physical).
     fold_r (schedule_payload s sched) physical (env_order E (map fst sched)))"

definition delete_archive_payload ::
  "'w environment \<Rightarrow> reclaim_report \<Rightarrow> archive_record \<Rightarrow> ('w, unit) cop" where
  "delete_archive_payload E rep a =
     bindS (askS (\<lambda>c. if ar_backend a \<in> set (co_archives c) then Inr ()
       else Inl (ArchiveFailure [Lit ''archive backend '', Str (ar_backend a), Lit '' unavailable'']))) (\<lambda>_.
     indeterminate_on_error E rep ''ARCHIVE_RECLAIM_FAILED'' (on_world (archive_drop E (ar_backend a) (ar_key a))))"

definition verify_gone :: "'w environment \<Rightarrow> reclaim_report \<Rightarrow> replica \<Rightarrow> ('w, unit) cop" where
  "verify_gone E rep r =
     bindS (indeterminate_on_error E rep ''RECLAIM_VERIFY_FAILED''
       (payload_exists E (loc_backend (rep_location r)) (loc_key (rep_location r)))) (\<lambda>present.
     if present
     then indeterminate_reclaim E rep (IntegrityFailure [Lit ''payload still exists after reclaim: '',
       Str (loc_backend (rep_location r)), Lit '':'', Str (loc_key (rep_location r))]) ''RECLAIM_VERIFY_FAILED''
     else returnS ())"

text \<open>The deletions and their verification; the lists of what was deleted are those of the plan.\<close>

definition execute_plan ::
  "'w environment \<Rightarrow> reclaim_report \<Rightarrow> replica list \<Rightarrow> archive_record list \<Rightarrow> ('w, unit) cop" where
  "execute_plan E rep plan_rs archs =
     bindS (forS plan_rs (\<lambda>r. indeterminate_on_error E rep ''PHYSICAL_RECLAIM_FAILED''
       (delete_payload E (loc_backend (rep_location r)) (loc_key (rep_location r))))) (\<lambda>_.
     bindS (forS archs (delete_archive_payload E rep)) (\<lambda>_.
     bindS (forS plan_rs (verify_gone E rep)) (\<lambda>_.
     indeterminate_on_error E rep ''PHYSICAL_DONE_PERSIST_FAILED''
       (with_inner E (bindS (read_clock E) (\<lambda>now.
         on_store (update_journal_phase (rr_attempt_id rep) PhysicalDone now)))))))"

definition release_replica :: "'w environment \<Rightarrow> replica \<Rightarrow> unit sop" where
  "release_replica E r =
     bindS (delete_replica (replica_id r)) (\<lambda>_.
     if rep_content_hash r \<noteq> hash_empty (env_sha E)
     then bindS (dedup_release (rep_content_hash r) (loc_backend (rep_location r))) (\<lambda>_. returnS ())
     else returnS ())"

definition commit_reclaim ::
  "'w environment \<Rightarrow> reclaim_request \<Rightarrow> policy_decision \<Rightarrow> reclaim_object \<Rightarrow> reclaim_report
   \<Rightarrow> replica list \<Rightarrow> archive_record list \<Rightarrow> replica list \<Rightarrow> ('w, unit) cop" where
  "commit_reclaim E q d current rep to_delete archs plan_rs =
     with_inner E (
       bindS (on_store (forS to_delete (release_replica E))) (\<lambda>_.
       bindS (on_store (forS archs (\<lambda>a. delete_archive (archive_id a)))) (\<lambda>_.
       bindS (read_clock E) (\<lambda>now.
       bindS (on_store (update_object_with_audit (current\<lparr>obj_state := Reclaimed\<rparr>)
         (object_audit now (rq_actor q) ''RECLAIM_COMMITTED'' current (Some (state_str ReclaimPending))
           (Some (state_str Reclaimed)) (Some (dec_policy_id (pd_decision d))) (Some (rr_attempt_id rep))
           (JObject [(''deleted_archives'', JArray (map (\<lambda>a. JString (archive_id a)) archs)),
             (''deleted_replicas'', JArray (map (\<lambda>r. JString (uuid_text E (replica_id r))) plan_rs))])))) (\<lambda>_.
       bindS (on_store (update_reservation (rr_reservation_id rep) ''COMMITTED'')) (\<lambda>_.
       bindS (read_clock E) (\<lambda>now1.
       bindS (on_store (update_attempt (rr_attempt_id rep) ACommitted now1)) (\<lambda>_.
       bindS (read_clock E) (\<lambda>now2.
       on_store (update_journal_phase (rr_attempt_id rep) Committed now2))))))))))"

text \<open>From the payload guard on, while the guard is held.\<close>

definition release_under_guard ::
  "'w environment \<Rightarrow> reclaim_request \<Rightarrow> policy_decision \<Rightarrow> reclaim_object \<Rightarrow> reclaim_object \<Rightarrow> json \<Rightarrow> reclaim_report
   \<Rightarrow> replica list \<Rightarrow> archive_record list \<Rightarrow> ('w, reclaim_report) cop" where
  "release_under_guard E q d prior current pay rep to_delete archs =
     bindS (asked E (physical_plan E to_delete)) (\<lambda>plan_rs.
     bindS (liftS (with_physical_deletions (env_codec E) pay plan_rs)) (\<lambda>planned.
     bindS (aborting E rep prior (with_inner E (bindS (read_clock E) (\<lambda>now.
       on_store (start_journal_physical (rr_attempt_id rep) planned now))))) (\<lambda>_.
     bindS (execute_plan E rep plan_rs archs) (\<lambda>_.
     bindS (indeterminate_on_error E rep ''RECLAIM_COMMIT_FAILED''
       (commit_reclaim E q d current rep to_delete archs plan_rs)) (\<lambda>_.
     returnS (rep\<lparr>reclaimed := True, final_state := state_str Reclaimed,
       deleted_replicas := map replica_id plan_rs, deleted_archives := map archive_id archs\<rparr>))))))"

definition with_payloads ::
  "'w environment \<Rightarrow> reclaim_report \<Rightarrow> reclaim_object \<Rightarrow> (string \<times> content_hash) list \<Rightarrow> ('w, 'a) cop \<Rightarrow> ('w, 'a) cop" where
  "with_payloads E rep prior ks body =
     bindS (aborting E rep prior (begin_payload_operations ks)) (\<lambda>keys c.
     case body c of (r, c') \<Rightarrow> (r, drop_payload_guard keys c'))"

text \<open>Validate: once more, after the reservation and before any physical action.\<close>

definition validate_reclaim ::
  "'w environment \<Rightarrow> reclaim_report \<Rightarrow> reclaim_object \<Rightarrow> replica list \<Rightarrow> archive_record list \<Rightarrow> ('w, unit) cop" where
  "validate_reclaim E rep prior to_delete archs =
     bindS (with_inner E (bindS (read_clock E) (\<lambda>now.
       on_store (update_journal_phase (rr_attempt_id rep) Validated now)))) (\<lambda>_.
     bindS (aborting E rep prior (check_survivability E prior to_delete (length archs))) (\<lambda>_.
     aborting E rep prior (check_dependencies E prior)))"

definition new_report :: "reclaim_object \<Rightarrow> uuid \<Rightarrow> uuid \<Rightarrow> policy_decision \<Rightarrow> reclaim_report" where
  "new_report obj att res d = \<lparr>rr_object_id = id obj, rr_generation = generation obj, reclaimed = False,
     rr_prior_state = state_str (obj_state obj), final_state = state_str (obj_state obj),
     rr_attempt_id = att, rr_reservation_id = res, rr_decision = Some d, rr_explanation = Some (explanation d),
     deleted_replicas = [], deleted_archives = [], physical_error = None\<rparr>"

text \<open>The steps after a decision to reclaim.\<close>

definition reclaim_decided ::
  "'w environment \<Rightarrow> reclaim_request \<Rightarrow> int \<Rightarrow> reclaim_object \<Rightarrow> policy_decision \<Rightarrow> reclaim_report
   \<Rightarrow> ('w, reclaim_report) cop" where
  "reclaim_decided E q now obj d rep =
     bindS (asked E (replicas_for (id obj))) (\<lambda>to_delete.
     bindS (asked E (\<lambda>s. Inr (archives_for (id obj) s))) (\<lambda>archs.
     bindS (check_survivability E obj to_delete (length archs)) (\<lambda>_.
     bindS (liftS (reclaim_route obj)) (\<lambda>_.
     let pay = journal_payload (env_codec E) obj to_delete archs in
     bindS (reserve_reclaim E now obj pay rep) (\<lambda>_.
     bindS (pend_object E q d obj rep) (\<lambda>current.
     let rep' = rep\<lparr>final_state := state_str ReclaimPending\<rparr> in
     bindS (validate_reclaim E rep' obj to_delete archs) (\<lambda>_.
     with_payloads E rep' obj (map (\<lambda>r. (loc_backend (rep_location r), rep_content_hash r)) to_delete)
       (release_under_guard E q d obj current pay rep' to_delete archs))))))))"

definition reclaim :: "'w environment \<Rightarrow> reclaim_request \<Rightarrow> ('w, reclaim_report) cop" where
  "reclaim E q = with_object E (rq_object_id q) (
     bindS (read_clock E) (\<lambda>now.
     bindS (asked E (require_object (rq_object_id q))) (\<lambda>obj.
     bindS (reclaim_precheck E now obj) (\<lambda>_.
     bindS (plan E (id obj) (rq_actor q)) (\<lambda>d.
     bindS (new_v4 E) (\<lambda>att.
     bindS (new_v4 E) (\<lambda>res.
     let rep = new_report obj att res d in
     if verdict (pd_decision d) \<noteq> Reclaim \<and> \<not> rq_force q then returnS rep
     else reclaim_decided E q now obj d rep)))))))"

end
