(* ===== verification/CoordinatorInvariants.thy ===== *)
theory CoordinatorInvariants
  imports Coordinator
begin

section \<open>What every operation of the coordinator keeps (src/coordinator.rs)\<close>

text \<open>
  The contract between the coordinator and the state behind its mutex, as a locale: a predicate
  that every statement on the store, every call outside and every change of a guard or a flag
  keeps is kept by each whole operation. Interpreted with the runs of the store it shows that
  an operation is a sequence of store operations, so every invariant of the store holds for the
  coordinator; interpreted with the lost-authority flag it shows that lost authority is final.
\<close>

subsection \<open>Sequences of store operations\<close>

definition stepwise :: "'a sop \<Rightarrow> bool" where
  "stepwise m \<longleftrightarrow> (\<forall>s0. keeps (store_step\<^sup>*\<^sup>* s0) m)"

lemma stepwise_step: "(\<And>s. store_step s (snd (m s))) \<Longrightarrow> stepwise m"
  by (auto simp: stepwise_def keeps_def intro: rtranclp.rtrancl_into_rtrancl)

named_theorems stepwise_intros \<open>operations that are runs of the store\<close>

text \<open>
  The bookkeeping of an operation: statements that leave replicas, reference counts, archives
  and lineage alone. Those that leave the objects alone as well come first.
\<close>

inductive note_step :: "store \<Rightarrow> store \<Rightarrow> bool" where
  "note_step s (snd (append_audit au s))"
| "note_step s (snd (insert_decision now d s))"
| "note_step s (snd (create_reclaim_reservation j res a s))"
| "note_step s (snd (update_reservation i x s))"
| "note_step s (snd (update_attempt i st now s))"
| "note_step s (snd (update_journal_phase i ph now s))"
| "note_step s (snd (start_journal_physical i pay now s))"
| "note_step s (snd (insert_failure f s))"
| "note_step s (snd (coordinator_heartbeat pid boot ep now s))"

inductive book_step :: "store \<Rightarrow> store \<Rightarrow> bool" where
  of_note: "note_step s s' \<Longrightarrow> book_step s s'"
| of_object: "book_step s (snd (update_object_with_audit obj au s))"

lemma note_store_step: "note_step s s' \<Longrightarrow> store_step s s'"
  by (induction rule: note_step.induct) (rule store_step.intros)+

lemma book_store_step: "book_step s s' \<Longrightarrow> store_step s s'"
  by (induction rule: book_step.induct) (blast intro: note_store_step store_step.intros)+

lemma note_book_run: "note_step\<^sup>*\<^sup>* s s' \<Longrightarrow> book_step\<^sup>*\<^sup>* s s'"
  by (metis (mono_tags) book_step.of_note mono_rtranclp)

lemma book_store_run: "book_step\<^sup>*\<^sup>* s s' \<Longrightarrow> store_step\<^sup>*\<^sup>* s s'"
  by (metis (mono_tags) book_store_step mono_rtranclp)

definition noted :: "'a sop \<Rightarrow> bool" where
  "noted m \<longleftrightarrow> (\<forall>s0. keeps (note_step\<^sup>*\<^sup>* s0) m)"

lemma noted_step: "(\<And>s. note_step s (snd (m s))) \<Longrightarrow> noted m"
  by (auto simp: noted_def keeps_def intro: rtranclp.rtrancl_into_rtrancl)

lemma noted_ask: "noted (askS g)"
  unfolding noted_def by (blast intro: keeps_intros)

lemma noted_ops:
  "noted (append_audit au)" "noted (insert_decision now d)"
  "noted (create_reclaim_reservation j r a)" "noted (update_reservation i x)" "noted (update_attempt i st now)"
  "noted (update_journal_phase i ph now)" "noted (start_journal_physical i pay now)" "noted (insert_failure f)"
  "noted (coordinator_heartbeat pid boot ep now)"
  by (rule noted_step, rule note_step.intros)+

lemmas noted_intros = noted_ask noted_ops

lemma noted_run: "noted m \<Longrightarrow> note_step\<^sup>*\<^sup>* s (snd (m s))"
  unfolding noted_def using keepsD by fastforce

lemma stepwise_bind [stepwise_intros]: "stepwise m \<Longrightarrow> (\<And>a. stepwise (f a)) \<Longrightarrow> stepwise (bindS m f)"
  unfolding stepwise_def by (blast intro: keeps_bind)

lemma stepwise_pure [stepwise_intros]: "stepwise (returnS a)" "stepwise (failS e)" "stepwise (liftS r)" "stepwise (askS g)"
  unfolding stepwise_def by (blast intro: keeps_intros)+

lemma stepwise_forS [stepwise_intros]: "(\<And>x. stepwise (f x)) \<Longrightarrow> stepwise (forS xs f)"
  unfolding stepwise_def by (blast intro: keeps_forS)

lemma stepwise_if [stepwise_intros]: "stepwise m \<Longrightarrow> stepwise n \<Longrightarrow> stepwise (if b then m else n)"
  by simp

lemma stepwise_ops [stepwise_intros]:
  "stepwise (update_object_with_audit obj au)" "stepwise (append_audit au)" "stepwise (add_lineage_edge p k kind)"
  "stepwise (remove_lineage_edge p k kind)" "stepwise (insert_decision now d)"
  "stepwise (create_reclaim_reservation j r a)" "stepwise (update_reservation i x)"
  "stepwise (update_attempt i st now)" "stepwise (update_journal_phase i ph now)"
  "stepwise (start_journal_physical i pay now)" "stepwise (insert_failure f)" "stepwise (delete_replica i)"
  "stepwise (dedup_release h b)" "stepwise (delete_archive x)" "stepwise (coordinator_heartbeat pid boot ep now)"
  by (rule stepwise_step, rule store_step.intros)+

lemma stepwise_run: "stepwise m \<Longrightarrow> store_step\<^sup>*\<^sup>* s (snd (m s))"
  unfolding stepwise_def using keepsD by fastforce

subsection \<open>Access to the state\<close>

text \<open>What an accepted heartbeat changes: the coordinator row and the clock.\<close>

inductive beaten :: "'w coordinator \<Rightarrow> 'w coordinator \<Rightarrow> bool" for c where
  "note_step (co_store c) ((co_store c)\<lparr>t_coordinator := x\<rparr>) \<Longrightarrow>
   beaten c (c\<lparr>co_store := (co_store c)\<lparr>t_coordinator := x\<rparr>, world := w\<rparr>)"

lemma heartbeat_row: "\<exists>x. snd (coordinator_heartbeat pid boot ep now s) = s\<lparr>t_coordinator := x\<rparr>"
proof -
  have s: "\<exists>x. s = s\<lparr>t_coordinator := x\<rparr>" by (rule exI [of _ "t_coordinator s"]) simp
  then show ?thesis
    by (cases "t_coordinator s"; cases "sql_u64 ''coordinator epoch'' ep")
      (auto simp: coordinator_heartbeat_def update_authority_def bindS_apply execS_apply)
qed

lemma with_inner_cases:
  assumes "with_inner E f c = (r, c')"
  obtains (lost) e where "authority_lost c" "r = Inl e" "c' = c"
  | (stale) e c1 where "\<not> authority_lost c" "beaten c c1" "r = Inl e" "c' = c1\<lparr>authority_lost := True\<rparr>"
  | (held) c1 where "\<not> authority_lost c" "beaten c c1" "f c1 = (r, c')"
proof (cases "authority_lost c")
  case True
  have "r = Inl (ReservationConflict [Lit ''coordinator authority has been lost''])" "c' = c"
    using assms True by (auto simp: with_inner_def)
  with True show thesis by (rule lost)
next
  case False
  obtain now w where n: "env_now E (world c) = (now, w)" by fastforce
  let ?h = "coordinator_heartbeat (cfg_process_id (co_config c)) (co_boot_id c) (co_epoch c) now (co_store c)"
  obtain x where x: "snd ?h = (co_store c)\<lparr>t_coordinator := x\<rparr>" using heartbeat_row by blast
  let ?c1 = "c\<lparr>co_store := (co_store c)\<lparr>t_coordinator := x\<rparr>, world := w\<rparr>"
  have b: "beaten c ?c1" by (rule beaten.intros) (use x note_step.intros(9) in metis)
  have i: "bindS (read_clock E) (\<lambda>now. on_store (coordinator_heartbeat (cfg_process_id (co_config c)) (co_boot_id c)
      (co_epoch c) now)) c = (fst ?h, ?c1)"
    using n x by (cases ?h) (auto simp: read_clock_def on_world_def on_store_def bindS_apply)
  show thesis
  proof (cases "fst ?h")
    case (Inl e)
    then have "r = Inl e" "c' = ?c1\<lparr>authority_lost := True\<rparr>" using assms False i by (auto simp: with_inner_def)
    with False b show thesis by (rule stale)
  next
    case (Inr u)
    then have "f ?c1 = (r, c')" using assms False i by (auto simp: with_inner_def)
    with False b show thesis by (rule held)
  qed
qed

subsection \<open>The contract\<close>

locale coordinator_notes =
  fixes I :: "'w coordinator \<Rightarrow> bool"
  assumes records: "I c \<Longrightarrow> note_step\<^sup>*\<^sup>* (co_store c) s \<Longrightarrow> I (c\<lparr>co_store := s\<rparr>)"
    and outside: "I c \<Longrightarrow> I (c\<lparr>world := w\<rparr>)"
    and lost: "I c \<Longrightarrow> I (c\<lparr>authority_lost := True\<rparr>)"
    and shut: "I c \<Longrightarrow> I (c\<lparr>shutdown_requested := True\<rparr>)"
begin

lemma c_on_notes: "noted m \<Longrightarrow> keeps I (on_store m)"
proof (rule keeps_by_result)
  fix c r c'
  assume m: "noted m" and "on_store m c = (r, c')" and i: "I c"
  then have "c' = c\<lparr>co_store := snd (m (co_store c))\<rparr>" by (auto simp: on_store_def split: prod.splits)
  then show "I c'" using records [OF i noted_run [OF m]] by simp
qed

lemma c_on_world: "keeps I (on_world f)"
  by (auto simp: keeps_def on_world_def outside split: prod.splits)

lemma c_clock: "keeps I (read_clock E)" "keeps I (new_v4 E)"
  unfolding read_clock_def new_v4_def by (rule c_on_world)+

lemma c_with_inner:
  assumes "keeps I f"
  shows "keeps I (with_inner E f)"
proof (rule keeps_by_result)
  fix c r c'
  assume w: "with_inner E f c = (r, c')" and i: "I c"
  let ?b = "bindS (read_clock E) (\<lambda>now.
    on_store (coordinator_heartbeat (cfg_process_id (co_config c)) (co_boot_id c) (co_epoch c) now))"
  obtain x c1 where b: "?b c = (x, c1)" by fastforce
  have "keeps I ?b" by (intro keeps_intros c_clock c_on_notes noted_intros)
  then have i1: "I c1" using b i by (rule keepsE)
  show "I c'"
  proof (cases "authority_lost c")
    case True
    then show ?thesis using w i by (simp add: with_inner_def)
  next
    case False
    then show ?thesis
      using w b i1 lost keepsE [OF assms _ i1] by (cases x) (auto simp: with_inner_def)
  qed
qed

lemma c_locked: "noted m \<Longrightarrow> keeps I (locked E m)"
  unfolding locked_def by (intro c_with_inner c_on_notes)

lemma c_asked: "keeps I (asked E f)"
  unfolding asked_def by (intro c_locked noted_intros)

lemma keeps_attempt: "keeps I m \<Longrightarrow> keeps I (attempt_op m)"
  by (auto simp: keeps_def attempt_op_def split: prod.splits)

lemma c_node_for_backend: "keeps I (node_for_backend E b)"
  unfolding node_for_backend_def by (intro c_with_inner) (simp add: keeps_def node_for_backend_locked_def Let_def)

lemma c_local_backend: "keeps I (local_backend E b)"
  unfolding local_backend_def by (intro c_with_inner) (simp add: keeps_def)

lemma c_node_operation: "keeps I (node_operation E nid meth q)"
  unfolding node_operation_def
  by (rule keeps_bind, rule c_with_inner) (auto simp: keeps_def intro: keepsD [OF c_on_world])

lemmas c_access = c_clock c_with_inner c_locked c_asked c_on_world c_node_for_backend c_local_backend c_node_operation

lemma c_read_payload: "keeps I (read_payload E b key)"
  unfolding read_payload_def by (intro keeps_intros c_access)

lemma c_delete_payload: "keeps I (delete_payload E b key)"
  unfolding delete_payload_def by (intro keeps_intros c_access)

lemma c_payload_exists: "keeps I (payload_exists E b key)"
  unfolding payload_exists_def by (intro keeps_intros c_access)

lemma c_lineage: "keeps I (lineage E)"
  unfolding lineage_def by (intro c_access)

lemma c_read_pressure: "keeps I (read_pressure E)"
  unfolding read_pressure_def by (intro c_with_inner) (simp add: keeps_def)

lemma c_plan: "keeps I (plan E i who)"
  unfolding plan_def decision_context_def
  by (intro keeps_intros c_access c_on_notes noted_intros c_lineage c_read_pressure)

lemma c_checks: "keeps I (check_survivability E obj rs n)" "keeps I (check_dependencies E obj)"
  unfolding check_survivability_def valid_copy_count_def check_dependencies_def Let_def
  by (intro keeps_intros c_access c_lineage)+

lemma keeps_sum: "(\<And>e. keeps I (f e)) \<Longrightarrow> (\<And>a. keeps I (g a)) \<Longrightarrow> keeps I (case x of Inl e \<Rightarrow> f e | Inr a \<Rightarrow> g a)"
  by (cases x) auto

lemma c_indeterminate: "keeps I (indeterminate_reclaim E rep e kind)"
proof (rule keeps_by_result)
  fix c r c'
  assume r: "indeterminate_reclaim E rep e kind c = (r, c')" and i: "I c"
  let ?m = "with_inner E (bindS (read_clock E) (\<lambda>now. on_store (insert_failure \<lparr>f_id = 0, f_ts_ms = now,
         f_object_id = Some (rr_object_id rep), f_attempt_id = Some (rr_attempt_id rep), f_kind = kind,
         f_message = display e, recovered = False\<rparr>)))"
  have "keeps I ?m" by (intro keeps_intros c_access c_on_notes noted_intros)
  then have "I (snd (?m c))" using i by (rule keepsD)
  moreover have "c' = (snd (?m c))\<lparr>authority_lost := True, shutdown_requested := True\<rparr>"
    using r by (auto simp: indeterminate_reclaim_def Let_def split: prod.splits)
  ultimately show "I c'" using lost shut by simp
qed

lemma c_indeterminate_on_error: "keeps I m \<Longrightarrow> keeps I (indeterminate_on_error E rep kind m)"
  unfolding indeterminate_on_error_def by (intro keeps_intros keeps_attempt keeps_sum c_indeterminate)

lemma c_reserve: "keeps I (reserve_reclaim E now obj pay rep)"
  unfolding reserve_reclaim_def by (intro keeps_intros c_access noted_intros)

lemma c_execute: "keeps I (execute_plan E rep rs as)"
  unfolding execute_plan_def delete_archive_payload_def verify_gone_def
  by (intro keeps_intros c_indeterminate_on_error c_indeterminate c_access c_on_notes noted_intros c_delete_payload
      c_payload_exists)

lemma c_precheck: "keeps I (reclaim_precheck E now obj)"
  unfolding reclaim_precheck_def by (intro keeps_intros c_access)

end

text \<open>A predicate that updates of the object rows keep as well.\<close>

locale coordinator_calls = coordinator_notes +
  assumes object: "I c \<Longrightarrow> I (c\<lparr>co_store := snd (update_object_with_audit obj au (co_store c))\<rparr>)"
begin

lemma c_on_object: "keeps I (on_store (update_object_with_audit obj au))"
proof (rule keeps_by_result)
  fix c r c'
  assume "on_store (update_object_with_audit obj au) c = (r, c')" and i: "I c"
  then have "c' = c\<lparr>co_store := snd (update_object_with_audit obj au (co_store c))\<rparr>"
    by (auto simp: on_store_def split: prod.splits)
  then show "I c'" using object [OF i] by simp
qed

lemma c_apply_transition: "keeps I (apply_transition E obj to who act pol att)"
  unfolding apply_transition_def Let_def by (intro keeps_intros c_access c_on_object c_on_notes noted_intros)

lemma c_apply_object_update: "keeps I (apply_object_update E obj who att act)"
  unfolding apply_object_update_def by (intro keeps_intros c_access c_on_object c_on_notes noted_intros)

lemma c_abort: "keeps I (abort_reclaim E rep prior e)"
  unfolding abort_reclaim_def by (intro keeps_intros c_access c_on_object c_on_notes noted_intros)

lemma c_aborting: "keeps I m \<Longrightarrow> keeps I (aborting E rep prior m)"
  unfolding aborting_def by (intro keeps_intros keeps_attempt keeps_sum c_abort)

lemma c_pend: "keeps I (pend_object E q d prior rep)"
  unfolding pend_object_def Let_def by (intro keeps_intros c_apply_transition)

lemma c_validate: "keeps I (validate_reclaim E rep prior rs as)"
  unfolding validate_reclaim_def
  by (intro keeps_intros c_aborting c_checks c_access c_on_object c_on_notes noted_intros)

end

text \<open>A predicate that the statements of every operation of the store keep.\<close>

locale coordinator_commits = coordinator_calls +
  assumes store: "I c \<Longrightarrow> store_step\<^sup>*\<^sup>* (co_store c) s \<Longrightarrow> I (c\<lparr>co_store := s\<rparr>)"
begin

lemma c_on_store: "stepwise m \<Longrightarrow> keeps I (on_store m)"
proof (rule keeps_by_result)
  fix c r c'
  assume m: "stepwise m" and "on_store m c = (r, c')" and i: "I c"
  then have "c' = c\<lparr>co_store := snd (m (co_store c))\<rparr>" by (auto simp: on_store_def split: prod.splits)
  then show "I c'" using store [OF i stepwise_run [OF m]] by simp
qed

lemma c_lineage_idle: "keeps I (lineage_idle p k)"
  by (simp add: keeps_def lineage_idle_def)

lemma c_lineage_ops: "keeps I (add_lineage E p k kind who)" "keeps I (remove_lineage E p k kind who)"
  unfolding add_lineage_def remove_lineage_def
  by (intro keeps_intros c_access c_on_store stepwise_intros c_lineage_idle)+

lemma c_commit: "keeps I (commit_reclaim E q d current rep rs as plan_rs)"
  unfolding commit_reclaim_def release_replica_def
  by (intro keeps_intros c_access c_on_store stepwise_intros)

lemma c_release: "keeps I (release_under_guard E q d prior current pay rep rs as)"
  unfolding release_under_guard_def
  by (intro keeps_intros c_aborting c_indeterminate_on_error c_access c_on_notes noted_intros c_execute c_commit)

lemma c_reclaim_decided_under:
  assumes "\<And>rep' ks cur pay rs as. keeps I (with_payloads E rep' obj ks (release_under_guard E q d obj cur pay rep' rs as))"
  shows "keeps I (reclaim_decided E q now obj d rep)"
  unfolding reclaim_decided_def Let_def
  by (intro keeps_intros c_access c_checks c_reserve c_pend c_validate assms)

end

subsection \<open>Guards\<close>

text \<open>A predicate that the guards of payloads and objects may change as well.\<close>

locale coordinator_invariant = coordinator_commits +
  assumes objects: "I c \<Longrightarrow> I (c\<lparr>active_objects := xs\<rparr>)"
    and payloads: "I c \<Longrightarrow> I (c\<lparr>active_payloads := ks\<rparr>)"
begin

lemma c_with_object:
  assumes "keeps I body"
  shows "keeps I (with_object E i body)"
proof -
  have "keeps I (begin_object_operation E i)"
    unfolding begin_object_operation_def by (intro c_with_inner) (auto simp: keeps_def objects)
  moreover have "keeps I (\<lambda>c. case body c of (r, c') \<Rightarrow> (r, c'\<lparr>active_objects := removeAll i (active_objects c')\<rparr>))"
    using assms by (auto simp: keeps_def objects split: prod.splits)
  ultimately show ?thesis unfolding with_object_def by (intro keeps_bind)
qed

lemma c_object_ops: "keeps I (touch E i who)" "keeps I (pin E i who)" "keeps I (unpin E i who)" "keeps I (set_protected E i b who)"
  unfolding touch_def pin_def unpin_def set_protected_def Let_def
  by (intro c_with_object keeps_intros c_access c_apply_object_update)+

lemma c_with_payloads: "keeps I body \<Longrightarrow> keeps I (with_payloads E rep prior ks body)"
  unfolding with_payloads_def
  by (intro keeps_bind c_aborting)
    (auto simp: keeps_def begin_payload_operations_def drop_payload_guard_def Let_def payloads split: prod.splits)

lemma c_reclaim_decided: "keeps I (reclaim_decided E q now obj d rep)"
  by (rule c_reclaim_decided_under, rule c_with_payloads, rule c_release)

lemma c_reclaim: "keeps I (reclaim E q)"
  unfolding reclaim_def Let_def
  by (intro c_with_object keeps_intros c_access c_precheck c_plan c_reclaim_decided)

end

text \<open>The guards as they are, while a call outside them runs.\<close>

definition guards_are :: "uuid list \<Rightarrow> (string \<times> content_hash) list \<Rightarrow> 'w coordinator \<Rightarrow> bool" where
  "guards_are xs ks c \<longleftrightarrow> active_objects c = xs \<and> active_payloads c = ks"

interpretation guards: coordinator_commits "guards_are xs ks"
  by unfold_locales (auto simp: guards_are_def)

lemma with_payloads_guards:
  assumes "\<And>ks'. keeps (guards_are xs ks') body"
  shows "keeps (guards_are xs ks) (with_payloads E rep prior keys body)"
proof (rule keeps_by_result)
  fix c r c'
  assume w: "with_payloads E rep prior keys body c = (r, c')" and g: "guards_are xs ks c"
  let ?k = "remdups (sort keys)"
  show "guards_are xs ks c'"
  proof (cases "begin_payload_operations keys c")
    case (Pair x c1)
    show ?thesis
    proof (cases x)
      case (Inl e)
      then have c1: "c1 = c" using Pair by (auto simp: begin_payload_operations_def Let_def split: if_splits)
      have "keeps (guards_are xs ks) (bindS (abort_reclaim E rep prior e) (\<lambda>_. failS e))"
        by (intro keeps_intros guards.c_abort)
      then show ?thesis
        using w g Pair Inl c1 by (auto simp: with_payloads_def aborting_def attempt_op_def bindS_apply keeps_def
          split: sum.splits) 
    next
      case (Inr k)
      then have k: "k = ?k" "c1 = c\<lparr>active_payloads := ?k @ active_payloads c\<rparr>" "\<forall>q\<in>set ?k. q \<notin> set (active_payloads c)"
        using Pair by (auto simp: begin_payload_operations_def Let_def split: if_splits)
      obtain y c2 where b: "body c1 = (y, c2)" by fastforce
      have "guards_are xs (?k @ ks) c1" using g k by (simp add: guards_are_def)
      then have "guards_are xs (?k @ ks) c2" by (rule keepsE [OF assms b])
      moreover have "c' = drop_payload_guard ?k c2"
        using w Pair Inr k b by (auto simp: with_payloads_def aborting_def attempt_op_def bindS_apply split: sum.splits)
      moreover have "filter (\<lambda>q. q \<notin> set ?k) (?k @ ks) = ks"
        using k(3) g by (auto simp: guards_are_def filter_id_conv)
      ultimately show ?thesis by (simp add: guards_are_def drop_payload_guard_def)
    qed
  qed
qed

lemma with_object_guards:
  assumes "\<And>ys. keeps (guards_are ys ks) body"
  shows "keeps (guards_are xs ks) (with_object E i body)"
proof (rule keeps_by_result)
  fix c r c'
  assume w: "with_object E i body c = (r, c')" and g: "guards_are xs ks c"
  show "guards_are xs ks c'"
  proof (cases "begin_object_operation E i c")
    case (Pair x c1)
    then have 1: "(\<exists>e. x = Inl e \<and> guards_are xs ks c1) \<or> x = Inr () \<and> i \<notin> set xs \<and> guards_are (i # xs) ks c1"
      using g unfolding begin_object_operation_def
      by (cases rule: with_inner_cases) (auto simp: guards_are_def beaten.simps split: if_splits)
    obtain y c2 where b: "body c1 = (y, c2)" by fastforce
    show ?thesis
    proof (cases x)
      case (Inl e)
      then show ?thesis using w Pair 1 by (simp add: with_object_def bindS_apply)
    next
      case (Inr u)
      with 1 have 2: "i \<notin> set xs" "guards_are (i # xs) ks c1" by simp_all
      have "guards_are (i # xs) ks c2" using assms b 2(2) by (rule keepsE)
      moreover have "c' = c2\<lparr>active_objects := removeAll i (active_objects c2)\<rparr>"
        using w Pair Inr b by (simp add: with_object_def bindS_apply)
      ultimately show ?thesis using 2(1) by (simp add: guards_are_def)
    qed
  qed
qed

lemma object_ops_guards:
  "keeps (guards_are xs ks) (touch E i who)" "keeps (guards_are xs ks) (pin E i who)"
  "keeps (guards_are xs ks) (unpin E i who)" "keeps (guards_are xs ks) (set_protected E i b who)"
  unfolding touch_def pin_def unpin_def set_protected_def Let_def
  by (rule with_object_guards, intro keeps_intros guards.c_access guards.c_apply_object_update)+

lemma reclaim_guards: "keeps (guards_are xs ks) (reclaim E q)"
  unfolding reclaim_def Let_def
  by (rule with_object_guards, intro keeps_intros guards.c_access guards.c_precheck guards.c_plan
      guards.c_reclaim_decided_under with_payloads_guards guards.c_release)

subsection \<open>Sequences of operations\<close>

inductive coordinator_step :: "'w environment \<Rightarrow> 'w coordinator \<Rightarrow> 'w coordinator \<Rightarrow> bool" for E where
  "coordinator_step E c (snd (touch E i who c))"
| "coordinator_step E c (snd (pin E i who c))"
| "coordinator_step E c (snd (unpin E i who c))"
| "coordinator_step E c (snd (set_protected E i b who c))"
| "coordinator_step E c (snd (add_lineage E p k kind who c))"
| "coordinator_step E c (snd (remove_lineage E p k kind who c))"
| "coordinator_step E c (snd (plan E i who c))"
| "coordinator_step E c (snd (reclaim E q c))"

interpretation store_run: coordinator_invariant "\<lambda>c. store_step\<^sup>*\<^sup>* s0 (co_store c)"
  by unfold_locales (auto intro: rtranclp_trans rtranclp.rtrancl_into_rtrancl store_step.intros dest: note_book_run book_store_run)

context coordinator_invariant
begin

lemma c_step: "coordinator_step E c c' \<Longrightarrow> I c \<Longrightarrow> I c'"
  by (induction rule: coordinator_step.induct)
    (auto intro: keepsD [OF c_object_ops(1)] keepsD [OF c_object_ops(2)] keepsD [OF c_object_ops(3)]
      keepsD [OF c_object_ops(4)] keepsD [OF c_lineage_ops(1)] keepsD [OF c_lineage_ops(2)] keepsD [OF c_plan]
      keepsD [OF c_reclaim])

lemma c_run: "(coordinator_step E)\<^sup>*\<^sup>* c c' \<Longrightarrow> I c \<Longrightarrow> I c'"
  by (induction rule: rtranclp_induct) (auto intro: c_step)

end

lemma guards_step: "coordinator_step E c c' \<Longrightarrow> guards_are xs ks c \<Longrightarrow> guards_are xs ks c'"
  by (induction rule: coordinator_step.induct)
    (auto intro: keepsD [OF object_ops_guards(1)] keepsD [OF object_ops_guards(2)] keepsD [OF object_ops_guards(3)]
      keepsD [OF object_ops_guards(4)] keepsD [OF guards.c_lineage_ops(1)] keepsD [OF guards.c_lineage_ops(2)]
      keepsD [OF guards.c_plan] keepsD [OF reclaim_guards])

lemma with_inner_lost: "authority_lost c \<Longrightarrow> snd (with_inner E f c) = c"
  by (simp add: with_inner_def)

lemma bindS_lost: "authority_lost c \<Longrightarrow> snd (bindS (with_inner E f) g c) = c"
  by (simp add: with_inner_def bindS_apply)

lemma lost_step: "coordinator_step E c c' \<Longrightarrow> authority_lost c \<Longrightarrow> c' = c"
  by (induction rule: coordinator_step.induct)
    (simp_all add: touch_def pin_def unpin_def set_protected_def add_lineage_def remove_lineage_def plan_def reclaim_def
      with_object_def begin_object_operation_def asked_def locked_def bindS_lost with_inner_lost)

end
