(* ===== verification/Reclamation.thy ===== *)
theory Reclamation
  imports CoordinatorInvariants
begin

section \<open>What a reclaim guarantees (src/coordinator.rs)\<close>

text \<open>
  The results on \<open>Coordinator::reclaim\<close>: when it may succeed, what a success leaves in the
  store, that a payload another object still uses is never deleted, and how failures end.
\<close>

subsection \<open>Bookkeeping leaves the payload tables alone\<close>

definition payload_tables ::
  "store \<Rightarrow> replica list \<times> archive_record list \<times> dedup_entry list \<times> (uuid \<times> uuid \<times> edge_kind) list" where
  "payload_tables s = (t_replicas s, t_archives s, t_dedup s, t_lineage s)"

lemma payload_tables_update [simp]:
  "payload_tables (s\<lparr>t_objects := x1\<rparr>) = payload_tables s" "payload_tables (s\<lparr>t_attempts := x2\<rparr>) = payload_tables s"
  "payload_tables (s\<lparr>t_reservations := x3\<rparr>) = payload_tables s" "payload_tables (s\<lparr>t_journal := x4\<rparr>) = payload_tables s"
  "payload_tables (s\<lparr>t_coordinator := x5\<rparr>) = payload_tables s"
  "payload_tables (s\<lparr>t_audit := x6, audit_seq := n\<rparr>) = payload_tables s"
  "payload_tables (s\<lparr>t_failures := x7, failure_seq := n\<rparr>) = payload_tables s"
  "payload_tables (s\<lparr>t_decisions := x8, decision_seq := n\<rparr>) = payload_tables s"
  by (simp_all add: payload_tables_def)

lemma tables_rows:
  "keeps (\<lambda>s. payload_tables s = X) (insert_audit_row au)" "keeps (\<lambda>s. payload_tables s = X) (update_object_row obj)"
  unfolding insert_audit_row_def update_object_row_def
  by (intro keeps_intros keeps_updS keeps_execS; auto simp: bindr_Inr_iff)+

lemma note_step_tables: "note_step s s' \<Longrightarrow> payload_tables s' = payload_tables s \<and> t_objects s' = t_objects s"
proof (induction rule: note_step.induct)
  case (1 s au)
  have "keeps (\<lambda>s. payload_tables s = X \<and> t_objects s = Y) (append_audit au)" for X Y
    unfolding append_audit_def insert_audit_row_def by (intro keeps_intros keeps_updS; auto simp: bindr_Inr_iff)
  then show ?case by (rule keepsD) simp
next
  case (2 s now d)
  have "keeps (\<lambda>s. payload_tables s = X \<and> t_objects s = Y) (insert_decision now d)" for X Y
    unfolding insert_decision_def by (intro keeps_intros keeps_updS; auto simp: bindr_Inr_iff)
  then show ?case by (rule keepsD) simp
next
  case (3 s j res a)
  have "keeps (\<lambda>s. payload_tables s = X \<and> t_objects s = Y) (create_reclaim_reservation j res a)" for X Y
    unfolding create_reclaim_reservation_def Let_def by (intro keeps_intros keeps_updS; auto simp: bindr_Inr_iff)
  then show ?case by (rule keepsD) simp
next
  case (4 s i x)
  have "keeps (\<lambda>s. payload_tables s = X \<and> t_objects s = Y) (update_reservation i x)" for X Y
    unfolding update_reservation_def Let_def by (intro keeps_intros keeps_execS; auto)
  then show ?case by (rule keepsD) simp
next
  case (5 s i st now)
  have "keeps (\<lambda>s. payload_tables s = X \<and> t_objects s = Y) (update_attempt i st now)" for X Y
    unfolding update_attempt_def close_attempt_def Let_def by (intro keeps_intros keeps_execS; auto)
  then show ?case by (rule keepsD) simp
next
  case (6 s i ph now)
  have "keeps (\<lambda>s. payload_tables s = X \<and> t_objects s = Y) (update_journal_phase i ph now)" for X Y
    unfolding update_journal_phase_def Let_def by (intro keeps_intros keeps_execS; auto)
  then show ?case by (rule keepsD) simp
next
  case (7 s i pay now)
  have "keeps (\<lambda>s. payload_tables s = X \<and> t_objects s = Y) (start_journal_physical i pay now)" for X Y
    unfolding start_journal_physical_def Let_def by (intro keeps_intros keeps_execS; auto)
  then show ?case by (rule keepsD) simp
next
  case (8 s f)
  have "keeps (\<lambda>s. payload_tables s = X \<and> t_objects s = Y) (insert_failure f)" for X Y
    unfolding insert_failure_def by (intro keeps_updS; auto simp: bindr_Inr_iff)
  then show ?case by (rule keepsD) simp
next
  case (9 s pid boot ep now)
  show ?case using heartbeat_row [of pid boot ep now s] by auto
qed

lemma book_step_tables: "book_step s s' \<Longrightarrow> payload_tables s' = payload_tables s"
proof (induction rule: book_step.induct)
  case (of_note s s')
  then show ?case by (simp add: note_step_tables)
next
  case (of_object s obj au)
  have "keeps (\<lambda>s. payload_tables s = X) (update_object_with_audit obj au)" for X
    unfolding update_object_with_audit_def by (intro keeps_intros tables_rows)
  then show ?case by (rule keepsD) simp
qed

lemma note_run_tables: "note_step\<^sup>*\<^sup>* s s' \<Longrightarrow> payload_tables s' = payload_tables s \<and> t_objects s' = t_objects s"
  by (induction rule: rtranclp_induct) (auto dest: note_step_tables)

lemma object_write_tables: "payload_tables (snd (update_object_with_audit obj au s)) = payload_tables s"
  by (rule book_step_tables) (rule book_step.of_object)

interpretation tables: coordinator_calls "\<lambda>c. payload_tables (co_store c) = X"
  by unfold_locales (auto dest: note_run_tables simp: object_write_tables)

interpretation notes_only: coordinator_notes "\<lambda>c. note_step\<^sup>*\<^sup>* s0 (co_store c)"
  by unfold_locales (auto intro: rtranclp_trans)

lemma wf_writes:
  "note_step\<^sup>*\<^sup>* s s' \<Longrightarrow> store_wf s \<Longrightarrow> store_wf s'"
  "store_wf s \<Longrightarrow> store_wf (snd (update_object_with_audit obj au s))"
  "store_step\<^sup>*\<^sup>* s s' \<Longrightarrow> store_wf s \<Longrightarrow> store_wf s'"
  using wf.run_keeps [OF book_store_run [OF note_book_run]] wf.run_keeps [OF stepwise_run [OF stepwise_ops(1)]]
    wf.run_keeps by blast+

interpretation wf_store: coordinator_invariant "\<lambda>c. store_wf (co_store c)"
  by unfold_locales (auto intro: wf_writes)

subsection \<open>Which payloads are deleted\<close>

definition schedule_ok :: "'w environment \<Rightarrow> replica list \<Rightarrow> schedule \<times> replica list \<Rightarrow> bool" where
  "schedule_ok E rs acc \<longleftrightarrow>
     snd acc = filter (\<lambda>r. rep_content_hash r = hash_empty (env_sha E)) rs \<and>
     (\<forall>k. case map_of (fst acc) k of
        None \<Rightarrow> fst k = hash_empty (env_sha E) \<or> sharing rs k = []
      | Some (n, first) \<Rightarrow> fst k \<noteq> hash_empty (env_sha E) \<and> n = length (sharing rs k) \<and> first \<in> set (sharing rs k))"

lemma schedule_okD:
  "schedule_ok E rs acc \<Longrightarrow> case map_of (fst acc) k of
        None \<Rightarrow> fst k = hash_empty (env_sha E) \<or> sharing rs k = []
      | Some (n, first) \<Rightarrow> fst k \<noteq> hash_empty (env_sha E) \<and> n = length (sharing rs k) \<and> first \<in> set (sharing rs k)"
  unfolding schedule_ok_def by blast

lemma schedule_replica_ok:
  assumes "schedule_ok E rs acc" and "schedule_replica E acc r = Inr acc'"
  shows "schedule_ok E (rs @ [r]) acc'"
proof -
  obtain sched phys where acc: "acc = (sched, phys)" by fastforce
  let ?k = "replica_identity r"
  show ?thesis
  proof (cases "rep_content_hash r = hash_empty (env_sha E)")
    case True
    then have a: "acc' = (sched, phys @ [r])" using assms(2) by (simp add: schedule_replica_def acc)
    have h: "fst ?k = hash_empty (env_sha E)" using True by (simp add: replica_identity_def)
    show ?thesis unfolding schedule_ok_def
    proof (intro conjI allI)
      show "snd acc' = filter (\<lambda>r. rep_content_hash r = hash_empty (env_sha E)) (rs @ [r])"
        using assms(1) True by (simp add: a acc schedule_ok_def)
      fix k
      show "case map_of (fst acc') k of
        None \<Rightarrow> fst k = hash_empty (env_sha E) \<or> sharing (rs @ [r]) k = []
      | Some (n, first) \<Rightarrow> fst k \<noteq> hash_empty (env_sha E) \<and> n = length (sharing (rs @ [r]) k) \<and> first \<in> set (sharing (rs @ [r]) k)"
        using schedule_okD [OF assms(1), of k] h by (cases "k = ?k") (auto simp: a acc sharing_snoc split: option.splits)
    qed
  next
    case False
    have id: "(rep_content_hash r, loc_backend (rep_location r)) = ?k" by (simp add: replica_identity_def)
    obtain n first where nf: "(case map_of sched ?k of Some x \<Rightarrow> x | None \<Rightarrow> (0, r)) = (n, first)" by fastforce
    have a: "acc' = (AList.update ?k (n + 1, first) sched, phys)"
      using assms(2) False nf by (auto simp: schedule_replica_def acc Let_def id split: if_splits)
    have "case map_of sched ?k of None \<Rightarrow> sharing rs ?k = [] | Some (n, first) \<Rightarrow> n = length (sharing rs ?k) \<and> first \<in> set (sharing rs ?k)"
      using schedule_okD [OF assms(1), of ?k] False by (auto simp: acc replica_identity_def split: option.splits)
    then have new: "n = length (sharing rs ?k)" "first \<in> set (sharing (rs @ [r]) ?k)"
      using nf by (auto simp: sharing_snoc split: option.splits)
    show ?thesis unfolding schedule_ok_def
    proof (intro conjI allI)
      show "snd acc' = filter (\<lambda>r. rep_content_hash r = hash_empty (env_sha E)) (rs @ [r])"
        using assms(1) False by (simp add: a acc schedule_ok_def)
      fix k
      show "case map_of (fst acc') k of
        None \<Rightarrow> fst k = hash_empty (env_sha E) \<or> sharing (rs @ [r]) k = []
      | Some (n, first) \<Rightarrow> fst k \<noteq> hash_empty (env_sha E) \<and> n = length (sharing (rs @ [r]) k) \<and> first \<in> set (sharing (rs @ [r]) k)"
      proof (cases "k = ?k")
        case True
        then show ?thesis using new False by (simp add: a update_conv' sharing_snoc) (simp add: replica_identity_def)
      next
        case other: False
        then show ?thesis using schedule_okD [OF assms(1), of k] by (auto simp: a acc update_conv' sharing_snoc split: option.splits)
      qed
    qed
  qed
qed

lemma schedule_all_ok:
  "fold_r (schedule_replica E) acc rs = Inr acc' \<Longrightarrow> schedule_ok E qs acc \<Longrightarrow> schedule_ok E (qs @ rs) acc'"
proof (induction rs arbitrary: acc qs)
  case Nil
  then show ?case by simp
next
  case (Cons r rs)
  then obtain a1 where "schedule_replica E acc r = Inr a1" "fold_r (schedule_replica E) a1 rs = Inr acc'"
    by (auto simp: bindr_Inr_iff)
  then show ?case using Cons.IH [of a1 "qs @ [r]"] schedule_replica_ok [OF Cons.prems(2)] by simp
qed

lemma schedule_payloads_Inr:
  assumes "fold_r (schedule_payload s sched) phys ks = Inr prs"
  shows "set prs = set phys \<union> {first. \<exists>k\<in>set ks. \<exists>n d. map_of sched k = Some (n, first) \<and> get_dedup (fst k) (snd k) s = Some d \<and> n = ref_count d}"
  using assms
proof (induction ks arbitrary: phys)
  case Nil
  then show ?case by simp
next
  case (Cons k ks)
  then obtain p1 where 1: "schedule_payload s sched phys k = Inr p1" and 2: "fold_r (schedule_payload s sched) p1 ks = Inr prs"
    by (auto simp: bindr_Inr_iff)
  have "set p1 = set phys \<union> {first. \<exists>n d. map_of sched k = Some (n, first) \<and> get_dedup (fst k) (snd k) s = Some d \<and> n = ref_count d}"
    using 1 by (cases "map_of sched k") (auto simp: schedule_payload_def bindr_Inr_iff ok_or_Inr_iff split: if_splits)
  then show ?case using Cons.IH [OF 2] by auto
qed

lemma physical_plan_members:
  assumes "physical_plan E rs s = Inr prs" and "r \<in> set prs" and "rep_content_hash r \<noteq> hash_empty (env_sha E)"
  shows "\<exists>d. get_dedup (rep_content_hash r) (loc_backend (rep_location r)) s = Some d \<and>
    ref_count d = length (sharing rs (replica_identity r)) \<and> r \<in> set rs"
proof -
  from assms(1) obtain sched phys where 1: "fold_r (schedule_replica E) ([], []) rs = Inr (sched, phys)"
    and 2: "fold_r (schedule_payload s sched) phys (env_order E (map fst sched)) = Inr prs"
    by (auto simp: physical_plan_def bindr_Inr_iff)
  have "schedule_ok E [] ([], [])" by (simp add: schedule_ok_def sharing_def)
  from schedule_all_ok [OF 1 this] have ok: "schedule_ok E rs (sched, phys)" by simp
  then have "r \<notin> set phys" using assms(3) by (simp add: schedule_ok_def)
  then obtain k n d where k: "map_of sched k = Some (n, r)" "get_dedup (fst k) (snd k) s = Some d" "n = ref_count d"
    using schedule_payloads_Inr [OF 2] assms(2) by blast
  have m: "n = length (sharing rs k)" "r \<in> set (sharing rs k)" using schedule_okD [OF ok, of k] k(1) by simp_all
  then have "replica_identity r = k" "r \<in> set rs" by (simp_all add: sharing_def)
  then show ?thesis using k m by (auto simp: replica_identity_def)
qed

lemma loaded_replicas_for:
  assumes "replicas_for i s = Inr rs" and "store_wf s"
  shows "rs = sort_key replica_id (filter (\<lambda>r. rep_object_id r = i) (t_replicas s))"
proof -
  have "load_replica r = Inr r" if "r \<in> set (t_replicas s)" for r
    using that assms(2) by (auto simp: store_wf_def keyed_def replica_stored_def load_replica_def checked_replica_def)
  then show ?thesis
    using assms(1) collect_all [of "sort_key replica_id (filter (\<lambda>r. rep_object_id r = i) (t_replicas s))" load_replica]
    by (simp add: replicas_for_def)
qed

lemma all_if_filter_full: "length (filter P xs) = length xs \<Longrightarrow> x \<in> set xs \<Longrightarrow> P x"
  by (metis length_filter_less less_irrefl)

lemma plan_spares_shared:
  assumes "replicas_for i s = Inr rs" and "physical_plan E rs s = Inr prs" and "store_wf s"
    and "\<And>k. store_refs s k = Some (length (sharing (t_replicas s) k))"
    and "r \<in> set prs" and "rep_content_hash r \<noteq> hash_empty (env_sha E)"
    and "x \<in> set (t_replicas s)" and "replica_identity x = replica_identity r"
  shows "rep_object_id x = i"
proof -
  let ?k = "replica_identity r"
  from physical_plan_members [OF assms(2,5,6)] obtain d where
    d: "row_of dedup_id (t_dedup s) ?k = Some d" "ref_count d = length (sharing rs ?k)"
    by (auto simp: get_dedup_def replica_identity_def)
  have "length (sharing (t_replicas s) ?k) = length (sharing rs ?k)"
    using assms(4) [of ?k] d by (simp add: store_refs_def)
  also have "\<dots> = length (filter (\<lambda>r. rep_object_id r = i) (sharing (t_replicas s) ?k))"
    using mset_eq_length [OF sharing_mset, of rs "filter (\<lambda>r. rep_object_id r = i) (t_replicas s)" ?k]
      loaded_replicas_for [OF assms(1,3)] by (simp add: sharing_def conj_commute)
  finally have "length (filter (\<lambda>r. rep_object_id r = i) (sharing (t_replicas s) ?k)) = length (sharing (t_replicas s) ?k)" ..
  then show ?thesis by (rule all_if_filter_full) (use assms(7,8) in \<open>simp add: sharing_def\<close>)
qed

subsection \<open>A successful reclaim, step by step\<close>

lemma on_store_Inr: "on_store m c = (Inr a, c') \<longleftrightarrow> (\<exists>s'. m (co_store c) = (Inr a, s') \<and> c' = c\<lparr>co_store := s'\<rparr>)"
  by (auto simp: on_store_def split: prod.splits)

lemma read_clock_apply: "\<exists>t w. read_clock E c = (Inr t, c\<lparr>world := w\<rparr>)"
  by (cases "env_now E (world c)") (auto simp: read_clock_def on_world_def)

lemma with_inner_Inr:
  assumes "with_inner E f c = (Inr a, c')"
  obtains c1 where "beaten c c1" "f c1 = (Inr a, c')"
  using assms by (cases rule: with_inner_cases) auto

lemma asked_Inr:
  assumes "asked E g c = (Inr a, c')"
  shows "beaten c c' \<and> g (co_store c') = Inr a"
  using assms unfolding asked_def locked_def
  by (rule with_inner_Inr) (auto simp: on_store_Inr)

lemma beaten_store: "beaten c c1 \<Longrightarrow> \<exists>x. co_store c1 = (co_store c)\<lparr>t_coordinator := x\<rparr>"
  by (auto simp: beaten.simps)

lemma attempt_Inr: "attempt_op m c = (Inr r, c') \<longleftrightarrow> m c = (r, c')"
  by (auto simp: attempt_op_def split: prod.splits)

lemma aborting_Inr: "aborting E rep prior m c = (Inr a, c') \<longleftrightarrow> m c = (Inr a, c')"
  by (cases "m c"; cases "fst (m c)") (auto simp: aborting_def attempt_op_def bindS_apply split: sum.splits)

lemma indeterminate_lost:
  "authority_lost (snd (indeterminate_reclaim E rep reason kind c)) \<and>
   shutdown_requested (snd (indeterminate_reclaim E rep reason kind c))"
  by (auto simp: indeterminate_reclaim_def Let_def split: prod.splits)

lemma indeterminate_error: "fst (indeterminate_reclaim E rep reason kind c) \<noteq> Inr a"
  by (auto simp: indeterminate_reclaim_def Let_def split: prod.splits)

lemma indeterminate_on_error_Inr: "indeterminate_on_error E rep kind m c = (Inr a, c') \<longleftrightarrow> m c = (Inr a, c')"
  using indeterminate_error [of E rep _ kind _ a]
  by (cases "m c"; cases "fst (m c)") (auto simp: indeterminate_on_error_def attempt_op_def bindS_apply, metis fst_conv)

lemma with_payloads_Inr:
  assumes "with_payloads E rep prior ks body c = (Inr a, c')"
  obtains keys c2 where "body (c\<lparr>active_payloads := keys @ active_payloads c\<rparr>) = (Inr a, c2)" "co_store c' = co_store c2"
  using assms unfolding with_payloads_def
  by (auto simp: bindS_Inr aborting_Inr begin_payload_operations_def Let_def drop_payload_guard_def
      split: if_splits prod.splits)

lemma with_object_Inr:
  assumes "with_object E i body c = (Inr a, c')"
  obtains c1 c2 where "beaten c c1" "body (c1\<lparr>active_objects := i # active_objects c1\<rparr>) = (Inr a, c2)" "co_store c' = co_store c2"
proof -
  from assms obtain c1 where 1: "begin_object_operation E i c = (Inr (), c1)"
    and 2: "(case body c1 of (r, c') \<Rightarrow> (r, c'\<lparr>active_objects := removeAll i (active_objects c')\<rparr>)) = (Inr a, c')"
    by (auto simp: with_object_def bindS_Inr)
  obtain y c2 where "body c1 = (y, c2)" by fastforce
  with 1 2 have b: "begin_object_operation E i c = (Inr (), c1)" "body c1 = (Inr a, c2)" "co_store c' = co_store c2"
    by auto
  from b(1) obtain c0 where "beaten c c0" "c1 = c0\<lparr>active_objects := i # active_objects c0\<rparr>"
    unfolding begin_object_operation_def by (rule with_inner_Inr) (auto split: if_splits)
  then show thesis using that b(2,3) by blast
qed

text \<open>Committing: the statements one after the other.\<close>

lemma release_replica_Inr:
  assumes "release_replica E r s = (res, s')"
  shows "set (t_replicas s') \<subseteq> set (t_replicas s) \<and> t_objects s' = t_objects s \<and> t_archives s' = t_archives s \<and>
    t_reservations s' = t_reservations s \<and> replica_id r \<notin> replica_id ` set (t_replicas s')"
proof -
  let ?s = "s\<lparr>t_replicas := filter (\<lambda>q. replica_id q \<noteq> replica_id r) (t_replicas s)\<rparr>"
  have "keeps (\<lambda>s. beside_dedup s = beside_dedup ?s) (if rep_content_hash r \<noteq> hash_empty (env_sha E)
     then bindS (dedup_release (rep_content_hash r) (loc_backend (rep_location r))) (\<lambda>_. returnS ()) else returnS ())"
    by (intro keeps_intros beside_dedup_release)
  moreover have "(if rep_content_hash r \<noteq> hash_empty (env_sha E)
     then bindS (dedup_release (rep_content_hash r) (loc_backend (rep_location r))) (\<lambda>_. returnS ()) else returnS ()) ?s = (res, s')"
    using assms by (simp add: release_replica_def delete_replica_def bindS_apply)
  ultimately have "beside_dedup s' = beside_dedup ?s" by (rule keepsE) simp
  from beside_dedup_fields [OF this] show ?thesis by auto
qed

lemma release_replicas_Inr:
  assumes "forS rs (release_replica E) s = (Inr u, s')"
  shows "set (t_replicas s') \<subseteq> set (t_replicas s) \<and> t_objects s' = t_objects s \<and> t_archives s' = t_archives s \<and>
    t_reservations s' = t_reservations s \<and> (\<forall>r\<in>set rs. replica_id r \<notin> replica_id ` set (t_replicas s'))"
proof -
  have "keeps (\<lambda>s. set (t_replicas s) \<subseteq> X \<and> t_objects s = Y \<and> t_archives s = Z \<and> t_reservations s = W)
      (forS rs (release_replica E))" for X Y Z W
    by (intro keeps_forS keeps_by_result) (auto dest: release_replica_Inr)
  from keepsE [OF this [of "set (t_replicas s)" "t_objects s" "t_archives s" "t_reservations s"] assms]
  have "set (t_replicas s') \<subseteq> set (t_replicas s)" "t_objects s' = t_objects s"
    "t_archives s' = t_archives s" "t_reservations s' = t_reservations s" by simp_all
  moreover have "\<forall>r\<in>set rs. replica_id r \<notin> replica_id ` set (t_replicas s')"
    by (rule forS_establishes [OF assms]) (auto intro!: keeps_by_result dest!: release_replica_Inr)
  ultimately show ?thesis by blast
qed

lemma delete_archives_Inr:
  assumes "forS as (\<lambda>a. delete_archive (archive_id a)) s = (Inr u, s')"
  shows "s' = s\<lparr>t_archives := filter (\<lambda>x. archive_id x \<notin> archive_id ` set as) (t_archives s)\<rparr>"
  using assms
proof (induction as arbitrary: s)
  case Nil
  then show ?case by simp
next
  case (Cons a as)
  then obtain s1 where 1: "delete_archive (archive_id a) s = (Inr (), s1)"
    and 2: "forS as (\<lambda>a. delete_archive (archive_id a)) s1 = (Inr u, s')" by (auto simp: bindS_Inr)
  from 1 have s1: "s1 = s\<lparr>t_archives := filter (\<lambda>x. archive_id x \<noteq> archive_id a) (t_archives s)\<rparr>"
    by (simp add: delete_archive_def)
  have "filter (\<lambda>x. archive_id x \<notin> archive_id ` set as) (filter (\<lambda>x. archive_id x \<noteq> archive_id a) (t_archives s)) =
      filter (\<lambda>x. archive_id x \<notin> archive_id ` set (a # as)) (t_archives s)"
    by (auto simp: filter_filter intro: filter_cong)
  then show ?case using Cons.IH [OF 2] by (simp add: s1)
qed

lemma update_object_with_audit_Inr:
  assumes "update_object_with_audit obj au s = (Inr u, s')"
  shows "row_of id (t_objects s') = (row_of id (t_objects s))(id obj \<mapsto> obj) \<and>
    map id (t_objects s') = map id (t_objects s) \<and> payload_tables s' = payload_tables s \<and>
    t_reservations s' = t_reservations s"
proof -
  from assms obtain s1 where 1: "update_object_row obj s = (Inr (), s1)" and 2: "insert_audit_row au s1 = (Inr u, s')"
    by (auto simp: update_object_with_audit_def bindS_Inr tx_Inr)
  have n: "rows_count (\<lambda>r. id r = id obj) (t_objects s) = 1"
    and s1: "s1 = s\<lparr>t_objects := rows_update (\<lambda>r. id r = id obj) (\<lambda>_. obj) (t_objects s)\<rparr>"
    using update_object_row_Inr [OF 1] by simp_all
  from n have i: "id obj \<in> id ` set (t_objects s)"
    using rows_count_0_iff [of "\<lambda>r. id r = id obj" "t_objects s"] by (auto simp: image_iff intro: sym)
  have s': "s' = write_audit au s1" using 2 by (rule insert_audit_row_Inr)
  have "map id (rows_update (\<lambda>r. id r = id obj) (\<lambda>_. obj) t) = map id t" for t
    by (induction t) (simp_all add: rows_update_def)
  moreover have "row_of id (t_objects s1) = (row_of id (t_objects s))(id obj \<mapsto> obj)"
    using i by (simp add: s1 row_of_replace fun_eq_iff)
  ultimately show ?thesis by (simp add: s' s1 write_audit_def payload_tables_def)
qed

lemma update_reservation_Inr:
  assumes "update_reservation i x s = (Inr u, s')" and "store_wf s"
  shows "map_option r_status (row_of reservation_id (t_reservations s') i) = Some x \<and> payload_tables s' = payload_tables s \<and>
    t_objects s' = t_objects s"
proof -
  let ?q = "\<lambda>r. r_status r = ''OPEN''" and ?f = "\<lambda>r. r\<lparr>r_status := x\<rparr>"
  have n: "rows_count (\<lambda>r. reservation_id r = i \<and> ?q r) (t_reservations s) = 1"
    and s': "s' = s\<lparr>t_reservations := rows_update (\<lambda>r. reservation_id r = i \<and> ?q r) ?f (t_reservations s)\<rparr>"
    using assms(1) unfolding update_reservation_def Let_def by (auto simp: bindS_Inr split: if_splits)
  have "rows_count (\<lambda>r. reservation_id r = i \<and> ?q r) (t_reservations s) \<noteq> 0" using n by simp
  moreover have "distinct (map reservation_id (t_reservations s))" using assms(2) by (simp add: store_wf_def keyed_def)
  ultimately show ?thesis using updated_row [of reservation_id i ?q "t_reservations s" ?f] by (auto simp: s')
qed

lemma update_attempt_Inr:
  assumes "update_attempt i st now s = (Inr u, s')" and "store_wf s"
  shows "map_option a_status (get_attempt i s') = Some st \<and> payload_tables s' = payload_tables s \<and>
    t_objects s' = t_objects s \<and> t_reservations s' = t_reservations s"
proof -
  let ?q = "\<lambda>a. a_status a = AOpen" and ?f = "\<lambda>a. a\<lparr>a_status := st, a_updated_at_ms := now\<rparr>"
  have n: "rows_count (\<lambda>a. a_attempt_id a = i \<and> ?q a) (t_attempts s) = 1"
    and s': "s' = s\<lparr>t_attempts := rows_update (\<lambda>a. a_attempt_id a = i \<and> ?q a) ?f (t_attempts s)\<rparr>"
    using assms(1) unfolding update_attempt_def close_attempt_def Let_def by (auto simp: bindS_Inr split: if_splits)
  have "rows_count (\<lambda>a. a_attempt_id a = i \<and> ?q a) (t_attempts s) \<noteq> 0" using n by simp
  moreover have "distinct (map a_attempt_id (t_attempts s))" using assms(2) by (simp add: store_wf_def keyed_def)
  ultimately show ?thesis using updated_row [of a_attempt_id i ?q "t_attempts s" ?f] by (auto simp: s' get_attempt_def)
qed

end
