(* ===== verification/ReclaimOutcome.thy ===== *)
theory ReclaimOutcome
  imports Reclamation
begin

section \<open>The outcome of a reclaim (src/coordinator.rs)\<close>

text \<open>
  The properties of \<open>Coordinator::reclaim\<close> as a whole: what a success needed and what it left
  behind, which payloads it deleted, and the two ways a failure ends: rolled back before the
  physical phase, authority given up after it.
\<close>

subsection \<open>The commit\<close>

lemma stepwise_wf: "stepwise m \<Longrightarrow> m s = (r, s') \<Longrightarrow> store_wf s \<Longrightarrow> store_wf s'"
  using stepwise_run [of m s] wf.run_keeps by fastforce

lemma beaten_wf: "beaten c c1 \<Longrightarrow> store_wf (co_store c) \<Longrightarrow> store_wf (co_store c1)"
  by (auto elim!: beaten.cases intro: wf_writes(1) [OF r_into_rtranclp])

text \<open>The rows a committed reclaim leaves.\<close>

definition reclaim_done :: "uuid \<Rightarrow> uuid \<Rightarrow> uuid \<Rightarrow> store \<Rightarrow> bool" where
  "reclaim_done i att res s \<longleftrightarrow>
     map_option obj_state (row_of id (t_objects s) i) = Some Reclaimed \<and> settled att Committed ACommitted s \<and>
     map_option r_status (row_of reservation_id (t_reservations s) res) = Some ''COMMITTED''"

lemma commit_statements:
  assumes "forS rs (release_replica E) s = (Inr u1, s1)" and "forS as (\<lambda>a. delete_archive (archive_id a)) s1 = (Inr u2, s2)"
    and "update_object_with_audit (cur\<lparr>obj_state := Reclaimed\<rparr>) au s2 = (Inr u3, s3)"
    and "update_reservation res ''COMMITTED'' s3 = (Inr u4, s4)" and "update_attempt att ACommitted now1 s4 = (Inr u5, s5)"
    and "update_journal_phase att Committed now2 s5 = (Inr u6, s6)" and wf: "store_wf s"
  shows "reclaim_done (id cur) att res s6 \<and> set (t_replicas s6) \<subseteq> set (t_replicas s) \<and>
    (\<forall>r\<in>set rs. replica_id r \<notin> replica_id ` set (t_replicas s6)) \<and>
    t_archives s6 = filter (\<lambda>x. archive_id x \<notin> archive_id ` set as) (t_archives s)"
proof -
  have "stepwise (forS rs (release_replica E))" unfolding release_replica_def by (intro stepwise_intros)
  then have w1: "store_wf s1" using assms(1) wf by (rule stepwise_wf)
  have "stepwise (forS as (\<lambda>a. delete_archive (archive_id a)))" by (intro stepwise_intros)
  then have w2: "store_wf s2" using assms(2) w1 by (rule stepwise_wf)
  have w3: "store_wf s3" by (rule stepwise_wf [OF stepwise_ops(1) assms(3) w2])
  have w4: "store_wf s4" by (rule stepwise_wf [OF stepwise_ops(7) assms(4) w3])
  have w5: "store_wf s5" by (rule stepwise_wf [OF stepwise_ops(8) assms(5) w4])
  note 1 = release_replicas_Inr [OF assms(1)]
  note 2 = delete_archives_Inr [OF assms(2)]
  note 3 = update_object_with_audit_Inr [OF assms(3)]
  note 4 = update_reservation_Inr [OF assms(4) w3]
  note 5 = update_attempt_Inr [OF assms(5) w4]
  have "distinct (map j_attempt_id (t_journal s5))" using w5 by (simp add: store_wf_def keyed_def)
  note 6 = update_journal_phase_Inr [OF assms(6) this]
  have r: "t_replicas s6 = t_replicas s1" using 2 3 4 5 6 by (simp add: payload_tables_def payload_rows_def)
  have a: "t_archives s6 = t_archives s2" using 3 4 5 6 by (simp add: payload_tables_def payload_rows_def)
  have "t_objects s6 = t_objects s3" using 4 5 6 by (simp add: payload_rows_def)
  then have "map_option obj_state (row_of id (t_objects s6) (id cur)) = Some Reclaimed" using 3 by simp
  moreover have "settled att Committed ACommitted s6" using 5 6 by (simp add: settled_def get_attempt_def)
  moreover have "map_option r_status (row_of reservation_id (t_reservations s6) res) = Some ''COMMITTED''"
    using 4 5 6 by simp
  moreover have "t_archives s2 = filter (\<lambda>x. archive_id x \<notin> archive_id ` set as) (t_archives s)" using 1 2 by simp
  ultimately show ?thesis using 1 r a by (simp add: reclaim_done_def)
qed

lemma commit_reclaim_Inr:
  assumes "commit_reclaim E q d cur rep rs as prs c = (Inr u, c')" and "store_wf (co_store c)"
  shows "reclaim_done (id cur) (rr_attempt_id rep) (rr_reservation_id rep) (co_store c') \<and>
    set (t_replicas (co_store c')) \<subseteq> set (t_replicas (co_store c)) \<and>
    (\<forall>r\<in>set rs. replica_id r \<notin> replica_id ` set (t_replicas (co_store c'))) \<and>
    t_archives (co_store c') = filter (\<lambda>x. archive_id x \<notin> archive_id ` set as) (t_archives (co_store c))"
  using assms(1) unfolding commit_reclaim_def
proof (rule with_inner_Inr)
  fix c0
  assume b: "beaten c c0" and "bindS (on_store (forS rs (release_replica E))) (\<lambda>_.
       bindS (on_store (forS as (\<lambda>a. delete_archive (archive_id a)))) (\<lambda>_.
       bindS (read_clock E) (\<lambda>now.
       bindS (on_store (update_object_with_audit (cur\<lparr>obj_state := Reclaimed\<rparr>)
         (object_audit now (rq_actor q) ''RECLAIM_COMMITTED'' cur (Some (state_str ReclaimPending))
           (Some (state_str Reclaimed)) (Some (dec_policy_id (pd_decision d))) (Some (rr_attempt_id rep))
           (JObject [(''deleted_archives'', JArray (map (\<lambda>a. JString (archive_id a)) as)),
             (''deleted_replicas'', JArray (map (\<lambda>r. JString (uuid_text E (replica_id r))) prs))])))) (\<lambda>_.
       bindS (on_store (update_reservation (rr_reservation_id rep) ''COMMITTED'')) (\<lambda>_.
       bindS (read_clock E) (\<lambda>now1.
       bindS (on_store (update_attempt (rr_attempt_id rep) ACommitted now1)) (\<lambda>_.
       bindS (read_clock E) (\<lambda>now2.
       on_store (update_journal_phase (rr_attempt_id rep) Committed now2))))))))) c0 = (Inr u, c')"
  then obtain c1 c2 t c3 c4 c5 t1 c6 c7 t2 c8 x1 x2 x3 x4 x5 where
    1: "on_store (forS rs (release_replica E)) c0 = (Inr x1, c1)"
    and 2: "on_store (forS as (\<lambda>a. delete_archive (archive_id a))) c1 = (Inr x2, c2)"
    and t: "read_clock E c2 = (Inr t, c3)"
    and 3: "on_store (update_object_with_audit (cur\<lparr>obj_state := Reclaimed\<rparr>)
         (object_audit t (rq_actor q) ''RECLAIM_COMMITTED'' cur (Some (state_str ReclaimPending))
           (Some (state_str Reclaimed)) (Some (dec_policy_id (pd_decision d))) (Some (rr_attempt_id rep))
           (JObject [(''deleted_archives'', JArray (map (\<lambda>a. JString (archive_id a)) as)),
             (''deleted_replicas'', JArray (map (\<lambda>r. JString (uuid_text E (replica_id r))) prs))]))) c3 = (Inr x3, c4)"
    and 4: "on_store (update_reservation (rr_reservation_id rep) ''COMMITTED'') c4 = (Inr x4, c5)"
    and t1: "read_clock E c5 = (Inr t1, c6)"
    and 5: "on_store (update_attempt (rr_attempt_id rep) ACommitted t1) c6 = (Inr x5, c7)"
    and t2: "read_clock E c7 = (Inr t2, c8)"
    and 6: "on_store (update_journal_phase (rr_attempt_id rep) Committed t2) c8 = (Inr u, c')"
    unfolding bindS_Inr by (elim exE conjE) rule
  have clock: "co_store y = co_store x" if "read_clock E x = (Inr z, y)" for x y z
    using that read_clock_apply [of E x] by auto
  have on: "m (co_store x) = (Inr z, co_store y)" if "on_store m x = (Inr z, y)" for m :: "unit sop" and x y z
    using that unfolding on_store_Inr by auto
  have "t_replicas (co_store c0) = t_replicas (co_store c)" "t_archives (co_store c0) = t_archives (co_store c)"
    using b by (auto simp: beaten.simps)
  moreover have "store_wf (co_store c0)" using b assms(2) by (rule beaten_wf)
  moreover note commit_statements [OF on [OF 1] on [OF 2] on [OF 3, unfolded clock [OF t]] on [OF 4]
    on [OF 5, unfolded clock [OF t1]] on [OF 6, unfolded clock [OF t2]]]
  ultimately show ?thesis by simp
qed

subsection \<open>The stages before the commit\<close>

text \<open>Calls that only note: the objects and the payload tables are the same before and after.\<close>

definition same_tables :: "'w coordinator \<Rightarrow> 'w coordinator \<Rightarrow> bool" where
  "same_tables c c' \<longleftrightarrow> payload_tables (co_store c') = payload_tables (co_store c) \<and> t_objects (co_store c') = t_objects (co_store c)"

lemma same_tables_trans [trans]: "same_tables c c1 \<Longrightarrow> same_tables c1 c2 \<Longrightarrow> same_tables c c2"
  by (simp add: same_tables_def)

lemma only_notes:
  assumes "m c = (r, c')" and "\<And>s0. keeps (\<lambda>c. note_step\<^sup>*\<^sup>* s0 (co_store c)) m"
  shows "same_tables c c'"
proof -
  have "note_step\<^sup>*\<^sup>* (co_store c) (co_store c')" by (rule keepsE [OF assms(2,1)]) simp
  then show ?thesis by (simp add: same_tables_def note_run_tables)
qed

lemma beaten_same: "beaten c c1 \<Longrightarrow> same_tables c c1"
  by (auto simp: beaten.simps same_tables_def payload_tables_def)

lemma same_replicas: "same_tables c c' \<Longrightarrow> replicas_for i (co_store c') = replicas_for i (co_store c) \<and>
    archives_for i (co_store c') = archives_for i (co_store c) \<and>
    valid_replica_count i (co_store c') = valid_replica_count i (co_store c) \<and>
    stored_lineage_graph (co_store c') = stored_lineage_graph (co_store c) \<and>
    require_object i (co_store c') = require_object i (co_store c) \<and>
    list_objects (co_store c') = list_objects (co_store c)"
  by (simp add: same_tables_def payload_tables_def replicas_for_def archives_for_def valid_replica_count_def
      stored_lineage_graph_def require_object_def get_object_def list_objects_def)

lemma asked_same:
  assumes "asked E g c = (Inr a, c')"
  shows "same_tables c c' \<and> g (co_store c') = Inr a"
  using asked_Inr [OF assms] beaten_same by blast

text \<open>No valid copy is left, so the minimum has to be zero.\<close>

lemma valid_to_delete:
  assumes "replicas_for i s = Inr rs" and "store_wf s"
  shows "length (filter valid rs) = valid_replica_count i s"
proof -
  have "mset rs = mset (filter (\<lambda>r. rep_object_id r = i) (t_replicas s))"
    using loaded_replicas_for [OF assms] by simp
  then have "size (filter_mset valid (mset rs)) = size (filter_mset valid (mset (filter (\<lambda>r. rep_object_id r = i) (t_replicas s))))"
    by simp
  then show ?thesis
    by (simp add: valid_replica_count_def rows_count_def conj_commute flip: mset_filter)
qed

lemma check_survivability_Inr:
  assumes "check_survivability E obj rs (length (archives_for (id obj) (co_store c))) c = (Inr u, c')"
    and "replicas_for (id obj) (co_store c) = Inr rs" and "store_wf (co_store c)"
  shows "min_valid_copies (obj_durability obj) = 0 \<and> same_tables c c'"
proof -
  from assms(1) obtain n m c1 c2 where 1: "asked E (\<lambda>s. Inr (valid_replica_count (id obj) s)) c = (Inr n, c1)"
    and 2: "asked E (\<lambda>s. Inr (length (archives_for (id obj) s))) c1 = (Inr m, c2)"
    and 3: "min_valid_copies (obj_durability obj) \<le> n + m - length (filter valid rs) - length (archives_for (id obj) (co_store c))"
    by (auto simp: check_survivability_def valid_copy_count_def Let_def bindS_Inr split: if_splits)
  have s: "same_tables c c1" "same_tables c1 c2" using asked_same [OF 1] asked_same [OF 2] by simp_all
  have "n = valid_replica_count (id obj) (co_store c)" "m = length (archives_for (id obj) (co_store c))"
    using asked_same [OF 1] asked_same [OF 2] same_replicas [OF s(1)] same_replicas [OF s(2)] by simp_all
  moreover have "same_tables c c'" using assms(1) by (rule only_notes) (rule notes_only.c_checks)
  ultimately show ?thesis using 3 valid_to_delete [OF assms(2,3)] by simp
qed

text \<open>The row of the object is the only one that is written before the commit.\<close>

definition pended :: "reclaim_object \<Rightarrow> 'w coordinator \<Rightarrow> 'w coordinator \<Rightarrow> bool" where
  "pended obj c c' \<longleftrightarrow> payload_tables (co_store c') = payload_tables (co_store c) \<and>
     row_of id (t_objects (co_store c')) = (row_of id (t_objects (co_store c)))(id obj \<mapsto> obj\<lparr>obj_state := ReclaimPending\<rparr>) \<and>
     map id (t_objects (co_store c')) = map id (t_objects (co_store c))"

lemma apply_transition_Inr:
  assumes "apply_transition E obj to who act pol att c = (Inr cur, c')" and "obj_state obj \<noteq> to"
  shows "cur = obj\<lparr>obj_state := to\<rparr> \<and> payload_tables (co_store c') = payload_tables (co_store c) \<and>
     row_of id (t_objects (co_store c')) = (row_of id (t_objects (co_store c)))(id obj \<mapsto> cur) \<and>
     map id (t_objects (co_store c')) = map id (t_objects (co_store c))"
proof -
  let ?u = "obj\<lparr>obj_state := to\<rparr>"
  let ?w = "with_inner E (bindS (read_clock E) (\<lambda>now.
         on_store (update_object_with_audit ?u (object_audit now who act obj
           (Some (state_str (obj_state obj))) (Some (state_str to)) pol att (JObject [])))))"
  from assms(1) obtain res where r: "check_transition (obj_state obj) to = Inr res"
    and m: "(if res = Noop then returnS obj else bindS ?w (\<lambda>_. returnS ?u)) c = (Inr cur, c')"
    unfolding apply_transition_def Let_def bindS_Inr liftS_apply prod.inject by (elim exE conjE) simp
  have "res \<noteq> Noop" using r assms(2) by (simp add: check_transition_def split: if_splits)
  with m have "bindS ?w (\<lambda>_. returnS ?u) c = (Inr cur, c')" by simp
  then have w: "?w c = (Inr (), c')" and c: "cur = ?u" unfolding bindS_Inr by auto
  from w obtain c1 where b: "beaten c c1" and "bindS (read_clock E) (\<lambda>now.
         on_store (update_object_with_audit ?u (object_audit now who act obj
           (Some (state_str (obj_state obj))) (Some (state_str to)) pol att (JObject [])))) c1 = (Inr (), c')"
    by (rule with_inner_Inr)
  then obtain au s' w where "update_object_with_audit ?u au (co_store c1) = (Inr (), s')" "c' = c1\<lparr>world := w, co_store := s'\<rparr>"
    using read_clock_apply [of E c1] unfolding bindS_Inr on_store_Inr by auto
  from update_object_with_audit_Inr [OF this(1)] this(2) b c show ?thesis
    by (auto simp: beaten.simps payload_tables_def)
qed

lemma pend_object_Inr:
  assumes "pend_object E q d obj rep c = (Inr cur, c')" and "row_of id (t_objects (co_store c)) (id obj) = Some obj"
  shows "cur = obj\<lparr>obj_state := ReclaimPending\<rparr> \<and> pended obj c c'"
proof (cases "obj_state obj = ReclaimPending")
  case True
  then have o: "obj\<lparr>obj_state := ReclaimPending\<rparr> = obj" by simp
  from assms(1) True have "cur = obj" "c' = c" by (simp_all add: pend_object_def)
  then show ?thesis using assms(2) by (simp add: pended_def o fun_upd_idem)
next
  case False
  let ?pol = "Some (dec_policy_id (pd_decision d))" and ?att = "Some (rr_attempt_id rep)"
  from assms(1) False obtain cur1 c1 where 1: "(if releasing_state (obj_state obj)
          then apply_transition E obj Recomputable (rq_actor q) ''RECLAIM_STEP_RECOMPUTABLE'' ?pol ?att
          else returnS obj) c = (Inr cur1, c1)"
    and 2: "apply_transition E cur1 ReclaimPending (rq_actor q) ''RECLAIM_RESERVED'' ?pol ?att c1 = (Inr cur, c')"
    unfolding pend_object_def Let_def if_not_P [OF False] bindS_Inr by (elim exE conjE) rule
  show ?thesis
  proof (cases "releasing_state (obj_state obj)")
    case True
    then have ne: "obj_state obj \<noteq> Recomputable" by (auto simp: releasing_state_def)
    note a = apply_transition_Inr [OF 1 [unfolded if_P [OF True]] ne]
    then have "obj_state cur1 \<noteq> ReclaimPending" by simp
    from apply_transition_Inr [OF 2 this] a show ?thesis by (simp add: pended_def)
  next
    case no: False
    then have "cur1 = obj" "c1 = c" using 1 by simp_all
    with apply_transition_Inr [OF 2] False show ?thesis by (simp add: pended_def)
  qed
qed

lemma listed_objects:
  assumes "list_objects s = Inr objs" and "store_wf s"
  shows "row_of id objs = row_of id (t_objects s)"
    and "x \<in> set (dead_in objs) \<longleftrightarrow> (\<exists>obj. row_of id (t_objects s) x = Some obj \<and> obj_state obj = Reclaimed)"
proof -
  have d: "distinct (map id (t_objects s))" using assms(2) by (simp add: store_wf_def keyed_def)
  have "load_object r = Inr r" if "r \<in> set (t_objects s)" for r
    using that assms(2) by (auto simp: store_wf_def keyed_def object_stored_def load_object_def map_err_Inr_iff
        checked_object_Inr)
  then have o: "objs = sort_key id (t_objects s)"
    using assms(1) collect_all [of "sort_key id (t_objects s)" load_object] by (simp add: list_objects_def)
  have d': "distinct (map id objs)" using d by (simp add: o distinct_map)
  show "row_of id objs = row_of id (t_objects s)"
  proof
    fix k
    have "row_of id objs k = Some r \<longleftrightarrow> row_of id (t_objects s) k = Some r" for r
      using row_of_distinct [OF d, of k r] row_of_distinct [OF d', of k r] by (simp add: o)
    then show "row_of id objs k = row_of id (t_objects s) k" by (metis not_None_eq)
  qed
  show "x \<in> set (dead_in objs) \<longleftrightarrow> (\<exists>obj. row_of id (t_objects s) x = Some obj \<and> obj_state obj = Reclaimed)"
    using row_of_distinct [OF d, of x] by (auto simp: dead_in_def o)
qed

lemma pended_lineage:
  assumes "pended obj c c'"
  shows "stored_lineage_graph (co_store c') = stored_lineage_graph (co_store c)"
proof -
  have f: "fold (\<lambda>obj. add_object (id obj)) t = fold add_object (map id t)" for t
    by (simp add: fold_map comp_def)
  have "fold (\<lambda>obj. add_object (id obj)) (t_objects (co_store c')) = fold (\<lambda>obj. add_object (id obj)) (t_objects (co_store c))"
    using assms by (simp only: f pended_def)
  then show ?thesis using assms by (simp add: pended_def payload_tables_def stored_lineage_graph_def)
qed

text \<open>The objects that depend on a candidate can do without it.\<close>

definition spared :: "store \<Rightarrow> uuid \<Rightarrow> bool" where
  "spared s x \<longleftrightarrow> (\<exists>obj. row_of id (t_objects s) x = Some obj \<and> (obj_state obj = Reclaimed \<or> recompute_cost obj \<noteq> None))"

lemma check_dependencies_Inr:
  assumes "check_dependencies E obj c = (Inr u, c')" and "store_wf (co_store c)"
  shows "same_tables c c' \<and> (\<exists>g. stored_lineage_graph (co_store c) = Inr g \<and>
    (\<forall>x. (id obj, x) \<in> (depends_rel g)\<^sup>+ \<and> x \<noteq> id obj \<longrightarrow> spared (co_store c) x))"
proof -
  from assms(1) obtain g c1 objs where 1: "asked E stored_lineage_graph c = (Inr g, c1)"
    and 2: "asked E list_objects c1 = (Inr objs, c')"
    and 3: "dependency_safe g (id obj) (reconstructible_in objs) (dead_in objs) = Inr ()"
    unfolding check_dependencies_def lineage_def by (auto simp: bindS_Inr)
  have s: "same_tables c c1" "same_tables c1 c'" using asked_same [OF 1] asked_same [OF 2] by simp_all
  have g: "stored_lineage_graph (co_store c) = Inr g" "list_objects (co_store c) = Inr objs"
    using asked_same [OF 1] asked_same [OF 2] same_replicas [OF s(1)] same_replicas [OF s(2)] by simp_all
  have "spared (co_store c) x" if "(id obj, x) \<in> (depends_rel g)\<^sup>+" "x \<noteq> id obj" for x
  proof -
    have "x \<in> set (dead_in objs) \<or> reconstructible_in objs x" using 3 that dependency_safe_Inr_iff by blast
    then show ?thesis using listed_objects [OF g(2) assms(2)]
      by (auto simp: spared_def reconstructible_in_def reconstructible_def split: option.splits)
  qed
  then show ?thesis using g(1) same_tables_trans [OF s] by blast
qed

lemma pended_spared:
  assumes "pended obj c c'" and "x \<noteq> id obj"
  shows "spared (co_store c') x \<longleftrightarrow> spared (co_store c) x"
  using assms by (simp add: pended_def spared_def)

lemma unless_indeterminate:
  "(if b then indeterminate_reclaim E rep e kind else returnS a) c = (Inr u, c') \<longleftrightarrow> \<not> b \<and> u = a \<and> c' = c"
  using indeterminate_error [of E rep e kind c u] by (auto simp: prod_eq_iff)

lemma verify_gone_Inr:
  assumes "verify_gone E rep r c = (Inr u, c')"
  shows "payload_exists E (loc_backend (rep_location r)) (loc_key (rep_location r)) c = (Inr False, c')"
  using assms unfolding verify_gone_def bindS_Inr indeterminate_on_error_Inr unless_indeterminate
  by (elim exE conjE) simp

definition reported_absent :: "'w environment \<Rightarrow> replica \<Rightarrow> bool" where
  "reported_absent E r \<longleftrightarrow> (\<exists>c c'. payload_exists E (loc_backend (rep_location r)) (loc_key (rep_location r)) c = (Inr False, c'))"

lemma verify_all_Inr: "forS rs (verify_gone E rep) c = (Inr u, c') \<Longrightarrow> \<forall>r\<in>set rs. reported_absent E r"
proof (induction rs arbitrary: c)
  case Nil
  then show ?case by simp
next
  case (Cons r rs)
  then obtain c1 where 1: "verify_gone E rep r c = (Inr (), c1)" and 2: "forS rs (verify_gone E rep) c1 = (Inr u, c')"
    by (auto simp: bindS_Inr)
  have "reported_absent E r" using verify_gone_Inr [OF 1] unfolding reported_absent_def by blast
  then show ?case using Cons.IH [OF 2] by simp
qed

lemma execute_plan_Inr:
  assumes "execute_plan E rep prs as c = (Inr u, c')"
  shows "same_tables c c' \<and> (\<forall>r\<in>set prs. reported_absent E r)"
proof -
  from assms obtain c1 c2 u1 where "forS prs (verify_gone E rep) c1 = (Inr u1, c2)"
    unfolding execute_plan_def bindS_Inr by (elim exE conjE) rule
  then show ?thesis using only_notes [OF assms notes_only.c_execute] verify_all_Inr by blast
qed

lemma physical_plan_dedup: "t_dedup s' = t_dedup s \<Longrightarrow> physical_plan E rs s' = physical_plan E rs s"
proof -
  assume "t_dedup s' = t_dedup s"
  then have g: "get_dedup h b s' = get_dedup h b s" for h b by (simp add: get_dedup_def)
  have "schedule_payload s' = schedule_payload s"
    by (intro ext) (unfold schedule_payload_def g, rule refl)
  then show ?thesis by (simp add: physical_plan_def)
qed

text \<open>What a release leaves, given the plan of its deletions.\<close>

definition released :: "'w environment \<Rightarrow> reclaim_object \<Rightarrow> replica list \<Rightarrow> archive_record list \<Rightarrow> reclaim_report
    \<Rightarrow> store \<Rightarrow> store \<Rightarrow> bool" where
  "released E cur rs as rep s s' \<longleftrightarrow>
     (\<exists>prs. physical_plan E rs s = Inr prs \<and> deleted_replicas rep = map replica_id prs \<and> (\<forall>r\<in>set prs. reported_absent E r)) \<and>
     deleted_archives rep = map archive_id as \<and> reclaimed rep \<and>
     reclaim_done (id cur) (rr_attempt_id rep) (rr_reservation_id rep) s' \<and>
     set (t_replicas s') \<subseteq> set (t_replicas s) \<and> (\<forall>r\<in>set rs. replica_id r \<notin> replica_id ` set (t_replicas s')) \<and>
     t_archives s' = filter (\<lambda>x. archive_id x \<notin> archive_id ` set as) (t_archives s)"

lemma release_under_guard_Inr:
  assumes "release_under_guard E q d prior cur pay rep rs as c = (Inr rep', c')" and "store_wf (co_store c)"
  shows "released E cur rs as rep' (co_store c) (co_store c') \<and> rr_decision rep' = rr_decision rep"
proof -
  from assms(1) obtain prs c1 c2 c3 planned u1 u2 u3 where
    1: "asked E (physical_plan E rs) c = (Inr prs, c1)"
    and 2: "with_inner E (bindS (read_clock E) (\<lambda>now.
       on_store (start_journal_physical (rr_attempt_id rep) planned now))) c1 = (Inr u1, c2)"
    and 3: "execute_plan E rep prs as c2 = (Inr u2, c3)"
    and 4: "commit_reclaim E q d cur rep rs as prs c3 = (Inr u3, c')"
    and r: "rep' = rep\<lparr>reclaimed := True, final_state := state_str Reclaimed,
       deleted_replicas := map replica_id prs, deleted_archives := map archive_id as\<rparr>"
    unfolding release_under_guard_def bindS_Inr aborting_Inr indeterminate_on_error_Inr
    by (elim exE conjE) (simp add: returnS_def liftS_def)
  have "same_tables c1 c2" using 2
    by (rule only_notes) (intro keeps_intros notes_only.c_access notes_only.c_on_notes noted_intros)
  moreover have "same_tables c c1" "physical_plan E rs (co_store c1) = Inr prs" using asked_same [OF 1] by simp_all
  moreover have "same_tables c2 c3" and gone: "\<forall>r\<in>set prs. reported_absent E r" using execute_plan_Inr [OF 3] by simp_all
  ultimately have s: "same_tables c c3" and p: "physical_plan E rs (co_store c) = Inr prs"
    using physical_plan_dedup [of "co_store c1" "co_store c" E rs] by (simp_all add: same_tables_def payload_tables_def)
  have w1: "store_wf (co_store c1)" by (rule keepsE [OF wf_store.c_asked 1 assms(2)])
  have "keeps (\<lambda>c. store_wf (co_store c)) (with_inner E (bindS (read_clock E) (\<lambda>now.
       on_store (start_journal_physical (rr_attempt_id rep) planned now))))"
    by (intro keeps_intros wf_store.c_access wf_store.c_on_notes noted_intros)
  then have "store_wf (co_store c2)" using 2 w1 by (rule keepsE)
  then have "store_wf (co_store c3)" by (rule keepsE [OF wf_store.c_execute 3])
  from commit_reclaim_Inr [OF 4 this] s p gone show ?thesis
    by (simp add: r released_def same_tables_def payload_tables_def)
qed

lemma validate_reclaim_Inr:
  assumes "validate_reclaim E rep obj rs as c = (Inr u, c')" and "store_wf (co_store c)"
  shows "same_tables c c' \<and> (\<exists>g. stored_lineage_graph (co_store c) = Inr g \<and>
    (\<forall>x. (id obj, x) \<in> (depends_rel g)\<^sup>+ \<and> x \<noteq> id obj \<longrightarrow> spared (co_store c) x))"
proof -
  from assms(1) obtain c1 c2 u1 u2 where 1: "with_inner E (bindS (read_clock E) (\<lambda>now.
       on_store (update_journal_phase (rr_attempt_id rep) Validated now))) c = (Inr u1, c1)"
    and 2: "check_survivability E obj rs (length as) c1 = (Inr u2, c2)" and 3: "check_dependencies E obj c2 = (Inr u, c')"
    unfolding validate_reclaim_def bindS_Inr aborting_Inr by (elim exE conjE) rule
  have s1: "same_tables c c1" using 1
    by (rule only_notes) (intro keeps_intros notes_only.c_access notes_only.c_on_notes noted_intros)
  have s2: "same_tables c1 c2" using 2 by (rule only_notes) (rule notes_only.c_checks)
  have "keeps (\<lambda>c. store_wf (co_store c)) (with_inner E (bindS (read_clock E) (\<lambda>now.
       on_store (update_journal_phase (rr_attempt_id rep) Validated now))))"
    by (intro keeps_intros wf_store.c_access wf_store.c_on_notes noted_intros)
  then have "store_wf (co_store c1)" using 1 assms(2) by (rule keepsE)
  then have "store_wf (co_store c2)" by (rule keepsE [OF wf_store.c_checks(1) 2])
  note d = check_dependencies_Inr [OF 3 this]
  have s: "same_tables c c2" using s1 s2 by (rule same_tables_trans)
  moreover have "spared (co_store c2) x = spared (co_store c) x" for x using s by (simp add: spared_def same_tables_def)
  ultimately show ?thesis using d same_replicas [OF s] same_tables_trans by auto
qed

text \<open>What had to hold for an object before its reclaim.\<close>

definition may_reclaim :: "reclaim_object \<Rightarrow> store \<Rightarrow> bool" where
  "may_reclaim obj s \<longleftrightarrow> min_valid_copies (obj_durability obj) = 0 \<and>
     (releasing_state (obj_state obj) \<longrightarrow> recompute_cost obj \<noteq> None \<or> obj_durability obj = DurEphemeral) \<and>
     (\<exists>g. stored_lineage_graph s = Inr g \<and> (\<forall>x. (id obj, x) \<in> (depends_rel g)\<^sup>+ \<and> x \<noteq> id obj \<longrightarrow> spared s x))"

lemma reclaim_decided_Inr:
  assumes "reclaim_decided E q now obj d rep c = (Inr rep', c')" and "store_wf (co_store c)"
    and "row_of id (t_objects (co_store c)) (id obj) = Some obj"
  shows "\<exists>rs s. replicas_for (id obj) (co_store c) = Inr rs \<and> payload_tables s = payload_tables (co_store c) \<and>
    released E (obj\<lparr>obj_state := ReclaimPending\<rparr>) rs (archives_for (id obj) (co_store c)) rep' s (co_store c') \<and>
    rr_decision rep' = rr_decision rep \<and> may_reclaim obj (co_store c)"
proof -
  let ?rep = "rep\<lparr>final_state := state_str ReclaimPending\<rparr>"
  from assms(1) obtain rs as c1 c2 c3 c4 c5 c6 u1 u2 u3 u4 cur where
    1: "asked E (replicas_for (id obj)) c = (Inr rs, c1)"
    and 2: "asked E (\<lambda>s. Inr (archives_for (id obj) s)) c1 = (Inr as, c2)"
    and 3: "check_survivability E obj rs (length as) c2 = (Inr u1, c3)"
    and r: "reclaim_route obj = Inr u2"
    and 4: "reserve_reclaim E now obj (journal_payload (env_codec E) obj rs as) rep c3 = (Inr u3, c4)"
    and 5: "pend_object E q d obj rep c4 = (Inr cur, c5)"
    and 6: "validate_reclaim E ?rep obj rs as c5 = (Inr u4, c6)"
    and 7: "with_payloads E ?rep obj (map (\<lambda>r. (loc_backend (rep_location r), rep_content_hash r)) rs)
       (release_under_guard E q d obj cur (journal_payload (env_codec E) obj rs as) ?rep rs as) c6 = (Inr rep', c')"
    unfolding reclaim_decided_def Let_def bindS_Inr liftS_apply prod.inject by (elim exE conjE) simp
  have s1: "same_tables c c1" "replicas_for (id obj) (co_store c1) = Inr rs" using asked_same [OF 1] by simp_all
  have s2: "same_tables c1 c2" and "archives_for (id obj) (co_store c2) = as" using asked_same [OF 2] by simp_all
  have s: "same_tables c c2" using s1(1) s2 by (rule same_tables_trans)
  have rs: "replicas_for (id obj) (co_store c) = Inr rs" "replicas_for (id obj) (co_store c2) = Inr rs"
    and as: "as = archives_for (id obj) (co_store c)" "as = archives_for (id obj) (co_store c2)"
    using same_replicas [OF s1(1)] same_replicas [OF s] s1(2) \<open>archives_for (id obj) (co_store c2) = as\<close> by simp_all
  have w2: "store_wf (co_store c2)"
    by (rule keepsE [OF wf_store.c_asked 2 keepsE [OF wf_store.c_asked 1 assms(2)]])
  from check_survivability_Inr [OF 3 [unfolded as(2)] rs(2) w2] have m: "min_valid_copies (obj_durability obj) = 0"
    and s3: "same_tables c2 c3" by simp_all
  have w3: "store_wf (co_store c3)" by (rule keepsE [OF wf_store.c_checks(1) 3 w2])
  have w4: "store_wf (co_store c4)" by (rule keepsE [OF wf_store.c_reserve 4 w3])
  have "same_tables c3 c4" by (rule only_notes [OF 4 notes_only.c_reserve])
  then have s4: "same_tables c c4" using s s3 by (blast intro: same_tables_trans)
  then have "row_of id (t_objects (co_store c4)) (id obj) = Some obj" using assms(3) by (simp add: same_tables_def)
  from pend_object_Inr [OF 5 this] have cur: "cur = obj\<lparr>obj_state := ReclaimPending\<rparr>" and p: "pended obj c4 c5" by simp_all
  have w5: "store_wf (co_store c5)" by (rule keepsE [OF wf_store.c_pend 5 w4])
  from validate_reclaim_Inr [OF 6 w5] obtain g where s6: "same_tables c5 c6" and g: "stored_lineage_graph (co_store c5) = Inr g"
    and dep: "\<forall>x. (id obj, x) \<in> (depends_rel g)\<^sup>+ \<and> x \<noteq> id obj \<longrightarrow> spared (co_store c5) x" by blast
  have "spared (co_store c4) x = spared (co_store c) x" for x using s4 by (simp add: spared_def same_tables_def)
  then have "stored_lineage_graph (co_store c) = Inr g \<and> (\<forall>x. (id obj, x) \<in> (depends_rel g)\<^sup>+ \<and> x \<noteq> id obj \<longrightarrow> spared (co_store c) x)"
    using g dep pended_lineage [OF p] pended_spared [OF p] same_replicas [OF s4] by auto
  moreover have "releasing_state (obj_state obj) \<longrightarrow> recompute_cost obj \<noteq> None \<or> obj_durability obj = DurEphemeral"
    using r by (auto simp: reclaim_route_def reconstructible_def split: if_splits)
  ultimately have may: "may_reclaim obj (co_store c)" using m by (auto simp: may_reclaim_def)
  have w6: "store_wf (co_store c6)" by (rule keepsE [OF wf_store.c_validate 6 w5])
  from 7 obtain keys c7 where
    7: "release_under_guard E q d obj cur (journal_payload (env_codec E) obj rs as) ?rep rs as
      (c6\<lparr>active_payloads := keys @ active_payloads c6\<rparr>) = (Inr rep', c7)" and c': "co_store c' = co_store c7"
    by (rule with_payloads_Inr)
  have "released E cur rs as rep' (co_store c6) (co_store c') \<and> rr_decision rep' = rr_decision rep"
    using release_under_guard_Inr [OF 7] w6 c' by simp
  moreover have "payload_tables (co_store c6) = payload_tables (co_store c)"
    using s4 p s6 by (simp add: same_tables_def pended_def)
  ultimately show ?thesis using rs(1) as(1) may cur by blast
qed

subsection \<open>The whole operation\<close>

lemma require_object_Inr:
  "require_object i s = Inr obj \<Longrightarrow> row_of id (t_objects s) i = Some obj \<and> id obj = i"
  using row_of_key [of id "t_objects s" i]
  by (auto simp: require_object_def get_object_def bindr_Inr_iff ok_or_Inr_iff load_object_def map_err_Inr_iff
      checked_object_Inr split: option.splits)

lemma reclaim_precheck_Inr:
  assumes "reclaim_precheck E now obj c = (Inr u, c')"
  shows "\<not> pinned obj \<and> \<not> protected obj \<and> obj_state obj \<noteq> Reclaimed \<and> obj_state obj \<noteq> Failed \<and>
    \<not> has_open_reservation_for (id obj) (co_store c)"
proof -
  have f: "\<not> pinned obj" "\<not> protected obj" "obj_state obj \<noteq> Reclaimed" "obj_state obj \<noteq> Failed"
    using assms by (auto simp: reclaim_precheck_def split: if_splits)
  then obtain o1 c1 where 1: "asked E (\<lambda>s. Inr (has_open_reservation_for (id obj) s)) c = (Inr o1, c1)" and "\<not> o1"
    using assms by (auto simp: reclaim_precheck_def bindS_Inr split: if_splits)
  with asked_Inr [OF 1] have "\<not> has_open_reservation_for (id obj) (co_store c)"
    by (auto simp: beaten.simps has_open_reservation_for_def)
  with f show ?thesis by simp
qed

lemma read_clock_store: "read_clock E c = (r, c') \<Longrightarrow> co_store c' = co_store c"
  using read_clock_apply [of E c] by auto

lemma new_v4_store: "new_v4 E c = (r, c') \<Longrightarrow> co_store c' = co_store c"
  by (auto simp: new_v4_def on_world_def split: prod.splits)

lemma reclaim_Inr:
  assumes "reclaim E q c = (Inr rep, c')" and "reclaimed rep" and "store_wf (co_store c)"
  shows "\<exists>obj d rs s. require_object (rq_object_id q) (co_store c) = Inr obj \<and> \<not> pinned obj \<and> \<not> protected obj \<and>
    obj_state obj \<noteq> Reclaimed \<and> obj_state obj \<noteq> Failed \<and> \<not> has_open_reservation_for (id obj) (co_store c) \<and>
    rr_decision rep = Some d \<and> (verdict (pd_decision d) = Reclaim \<or> rq_force q) \<and> may_reclaim obj (co_store c) \<and>
    replicas_for (id obj) (co_store c) = Inr rs \<and> payload_tables s = payload_tables (co_store c) \<and>
    released E (obj\<lparr>obj_state := ReclaimPending\<rparr>) rs (archives_for (id obj) (co_store c)) rep s (co_store c')"
proof -
  from assms(1) obtain c0 c9 where b: "beaten c c0"
    and body: "(bindS (read_clock E) (\<lambda>now.
     bindS (asked E (require_object (rq_object_id q))) (\<lambda>obj.
     bindS (reclaim_precheck E now obj) (\<lambda>_.
     bindS (plan E (id obj) (rq_actor q)) (\<lambda>d.
     bindS (new_v4 E) (\<lambda>att.
     bindS (new_v4 E) (\<lambda>res.
     let rep = new_report obj att res d in
     if verdict (pd_decision d) \<noteq> Reclaim \<and> \<not> rq_force q then returnS rep
     else reclaim_decided E q now obj d rep)))))))
       (c0\<lparr>active_objects := rq_object_id q # active_objects c0\<rparr>) = (Inr rep, c9)" and c': "co_store c' = co_store c9"
    unfolding reclaim_def by (rule with_object_Inr)
  let ?c = "c0\<lparr>active_objects := rq_object_id q # active_objects c0\<rparr>"
  from body obtain now obj d att res c1 c2 c3 c4 c5 c6 u where 1: "read_clock E ?c = (Inr now, c1)"
    and 2: "asked E (require_object (rq_object_id q)) c1 = (Inr obj, c2)"
    and 3: "reclaim_precheck E now obj c2 = (Inr u, c3)" and 4: "plan E (id obj) (rq_actor q) c3 = (Inr d, c4)"
    and 5: "new_v4 E c4 = (Inr att, c5)" and 6: "new_v4 E c5 = (Inr res, c6)"
    and 7: "(if verdict (pd_decision d) \<noteq> Reclaim \<and> \<not> rq_force q then returnS (new_report obj att res d)
       else reclaim_decided E q now obj d (new_report obj att res d)) c6 = (Inr rep, c9)"
    unfolding Let_def bindS_Inr by (elim exE conjE) rule
  have c1: "co_store c1 = co_store c0" using read_clock_store [OF 1] by simp
  have "same_tables c c1" using beaten_same [OF b] c1 by (simp add: same_tables_def)
  moreover have "same_tables c1 c2" and o: "require_object (rq_object_id q) (co_store c2) = Inr obj"
    using asked_same [OF 2] by simp_all
  ultimately have s2: "same_tables c c2" by (blast intro: same_tables_trans)
  have "same_tables c2 c3" by (rule only_notes [OF 3 notes_only.c_precheck])
  moreover have "same_tables c3 c4" by (rule only_notes [OF 4 notes_only.c_plan])
  ultimately have "same_tables c c4" using s2 by (blast intro: same_tables_trans)
  then have s6: "same_tables c c6" using new_v4_store [OF 5] new_v4_store [OF 6] by (simp add: same_tables_def)
  have pre: "\<not> pinned obj \<and> \<not> protected obj \<and> obj_state obj \<noteq> Reclaimed \<and> obj_state obj \<noteq> Failed \<and>
    \<not> has_open_reservation_for (id obj) (co_store c)"
    using reclaim_precheck_Inr [OF 3] asked_Inr [OF 2] b c1 by (auto simp: beaten.simps has_open_reservation_for_def)
  have "\<not> (verdict (pd_decision d) \<noteq> Reclaim \<and> \<not> rq_force q)"
  proof
    assume n: "verdict (pd_decision d) \<noteq> Reclaim \<and> \<not> rq_force q"
    have "rep = new_report obj att res d" using 7 unfolding if_P [OF n] by simp
    then show False using assms(2) by (simp add: new_report_def)
  qed
  then have v: "verdict (pd_decision d) = Reclaim \<or> rq_force q"
    and 8: "reclaim_decided E q now obj d (new_report obj att res d) c6 = (Inr rep, c9)" using 7 by auto
  have obj: "require_object (rq_object_id q) (co_store c) = Inr obj" using o same_replicas [OF s2] by simp
  have "row_of id (t_objects (co_store c6)) (id obj) = Some obj"
    using require_object_Inr [OF obj] s6 by (simp add: same_tables_def)
  moreover have "store_wf (co_store c1)" using beaten_wf [OF b assms(3)] c1 by simp
  then have "store_wf (co_store c4)"
    by (rule keepsE [OF wf_store.c_plan 4 keepsE [OF wf_store.c_precheck 3 keepsE [OF wf_store.c_asked 2]]])
  then have "store_wf (co_store c6)" using new_v4_store [OF 5] new_v4_store [OF 6] by simp
  moreover note reclaim_decided_Inr [OF 8]
  moreover have "may_reclaim obj (co_store c6) = may_reclaim obj (co_store c)"
    using same_replicas [OF s6] s6 by (simp add: may_reclaim_def spared_def same_tables_def)
  moreover have "payload_tables (co_store c6) = payload_tables (co_store c)" using s6 by (simp add: same_tables_def)
  ultimately show ?thesis
    using obj pre v c' same_replicas [OF s6] by (auto simp: new_report_def)
qed

subsection \<open>Failures\<close>

text \<open>
  A call that gives up the authority whenever it fails, while the registered archives are \<open>A\<close>.
\<close>

definition gives_up :: "string list \<Rightarrow> ('w, 'a) cop \<Rightarrow> bool" where
  "gives_up A m \<longleftrightarrow> (\<forall>c e c'. co_archives c = A \<longrightarrow> m c = (Inl e, c') \<longrightarrow>
     authority_lost c' \<and> shutdown_requested c' \<and> (\<exists>message. e = Recovery message))"

interpretation archives_stay: coordinator_notes "\<lambda>c. co_archives c = A"
  by unfold_locales auto

lemma gives_up_bind:
  assumes "gives_up A m" and "keeps (\<lambda>c. co_archives c = A) m" and "\<And>a. gives_up A (f a)"
  shows "gives_up A (bindS m f)"
  unfolding gives_up_def
proof (intro allI impI)
  fix c e c'
  assume a: "co_archives c = A" and "bindS m f c = (Inl e, c')"
  then consider "m c = (Inl e, c')" | x c1 where "m c = (Inr x, c1)" "f x c1 = (Inl e, c')" unfolding bindS_Inl by blast
  then show "authority_lost c' \<and> shutdown_requested c' \<and> (\<exists>message. e = Recovery message)"
  proof cases
    case 1
    then show ?thesis using assms(1) a unfolding gives_up_def by blast
  next
    case 2
    have "co_archives c1 = A" by (rule keepsE [OF assms(2) 2(1) a])
    then show ?thesis using assms(3) 2(2) unfolding gives_up_def by blast
  qed
qed

lemma gives_up_forS:
  assumes "\<And>x. x \<in> set xs \<Longrightarrow> gives_up A (f x)" and "\<And>x. keeps (\<lambda>c. co_archives c = A) (f x)"
  shows "gives_up A (forS xs f)"
  using assms(1)
proof (induction xs)
  case Nil
  then show ?case by (simp add: gives_up_def returnS_def)
next
  case (Cons x xs)
  then show ?case by (simp add: gives_up_bind assms(2))
qed

lemma indeterminate_Inl:
  "indeterminate_reclaim E rep e kind c = (Inl x, c') \<Longrightarrow>
     authority_lost c' \<and> shutdown_requested c' \<and> (\<exists>message. x = Recovery message)"
  by (auto simp: indeterminate_reclaim_def Let_def split: prod.splits)

lemma gives_up_indeterminate: "gives_up A (indeterminate_reclaim E rep e kind)"
  unfolding gives_up_def by (blast dest: indeterminate_Inl)

lemma gives_up_on_error: "gives_up A (indeterminate_on_error E rep kind m)"
  by (auto simp: gives_up_def indeterminate_on_error_def attempt_op_def bindS_apply split: sum.splits prod.splits
      dest: indeterminate_Inl)

lemma gives_up_return: "gives_up A (returnS a)"
  by (simp add: gives_up_def returnS_def)

lemma gives_up_archive: "ar_backend a \<in> set A \<Longrightarrow> gives_up A (delete_archive_payload E rep a)"
  unfolding delete_archive_payload_def
  by (intro gives_up_bind gives_up_on_error keeps_intros) (simp add: gives_up_def)

lemma gives_up_verify: "gives_up A (verify_gone E rep r)"
  unfolding verify_gone_def
  by (intro gives_up_bind gives_up_on_error archives_stay.c_indeterminate_on_error archives_stay.c_payload_exists)
    (simp add: gives_up_indeterminate gives_up_return)

lemmas archives_stay_intros = archives_stay.c_indeterminate_on_error archives_stay.c_indeterminate archives_stay.c_payload_exists
  archives_stay.c_delete_payload archives_stay.c_access archives_stay.c_on_notes noted_intros

lemma gives_up_execute:
  assumes "\<forall>a\<in>set as. ar_backend a \<in> set A"
  shows "gives_up A (execute_plan E rep prs as)"
  unfolding execute_plan_def
proof (intro gives_up_bind gives_up_forS gives_up_on_error gives_up_verify)
  show "\<And>x. x \<in> set as \<Longrightarrow> gives_up A (delete_archive_payload E rep x)" using assms by (blast intro: gives_up_archive)
qed (unfold delete_archive_payload_def verify_gone_def, (intro keeps_intros archives_stay_intros)+)

subsection \<open>Facts for the properties\<close>

lemma heartbeat_refused:
  assumes "\<forall>st. t_coordinator s = Some st \<longrightarrow> \<not> holds pid boot ep st"
  shows "\<exists>e. coordinator_heartbeat pid boot ep now s = (Inl e, s)"
  using assms
  by (cases "t_coordinator s"; cases "sql_u64 ''coordinator epoch'' ep")
    (auto simp: coordinator_heartbeat_def update_authority_def bindS_apply execS_apply)

lemma lost_run: "(coordinator_step E)\<^sup>*\<^sup>* c c' \<Longrightarrow> authority_lost c \<Longrightarrow> c' = c"
  by (induction rule: rtranclp_induct) (auto dest: lost_step)

lemma physical_plan_subset:
  assumes "physical_plan E rs s = Inr prs"
  shows "set prs \<subseteq> set rs"
proof
  fix r
  assume r: "r \<in> set prs"
  show "r \<in> set rs"
  proof (cases "rep_content_hash r = hash_empty (env_sha E)")
    case True
    from assms obtain sched phys where 1: "fold_r (schedule_replica E) ([], []) rs = Inr (sched, phys)"
      and 2: "fold_r (schedule_payload s sched) phys (env_order E (map fst sched)) = Inr prs"
      by (auto simp: physical_plan_def bindr_Inr_iff)
    have "schedule_ok E [] ([], [])" by (simp add: schedule_ok_def sharing_def)
    from schedule_all_ok [OF 1 this] have ok: "schedule_ok E rs (sched, phys)" by simp
    then have "r \<in> set rs" if "map_of sched k = Some (n, r)" for k n
      using schedule_okD [OF ok, of k] that by (simp add: sharing_def)
    moreover have "set phys \<subseteq> set rs" using ok by (auto simp: schedule_ok_def)
    ultimately show ?thesis using schedule_payloads_Inr [OF 2] r by blast
  next
    case False
    then show ?thesis using physical_plan_members [OF assms r] by blast
  qed
qed

lemma replica_ids_unique:
  "store_wf s \<Longrightarrow> r \<in> set (t_replicas s) \<Longrightarrow> r' \<in> set (t_replicas s) \<Longrightarrow> replica_id r = replica_id r' \<Longrightarrow> r = r'"
  by (auto simp: store_wf_def keyed_def distinct_map dest: inj_onD)

lemma released_deleted:
  assumes "released E cur rs as rep s s'" and "j \<in> set (deleted_replicas rep)"
  shows "\<exists>r\<in>set rs. replica_id r = j \<and> reported_absent E r"
proof -
  from assms(1) obtain prs where "physical_plan E rs s = Inr prs" "deleted_replicas rep = map replica_id prs"
    "\<forall>r\<in>set prs. reported_absent E r" unfolding released_def by blast
  then show ?thesis using assms(2) physical_plan_subset [of E rs s prs] by auto
qed

lemma abort_reclaim_Inr:
  assumes "abort_reclaim E rep prior e c = (Inr u, c')" and "store_wf (co_store c)"
  shows "row_of id (t_objects (co_store c')) (id prior) = Some prior \<and>
    map_option r_status (row_of reservation_id (t_reservations (co_store c')) (rr_reservation_id rep)) = Some ''RELEASED'' \<and>
    settled (rr_attempt_id rep) RolledBack ARolledBack (co_store c') \<and>
    payload_tables (co_store c') = payload_tables (co_store c)"
proof -
  from assms(1) obtain now c0 where t: "read_clock E c = (Inr now, c0)"
    and w: "with_inner E (
       bindS (on_store (update_object_with_audit prior (object_audit now ''coordinator'' ''RECLAIM_ABORTED'' prior
         (Some (state_str ReclaimPending)) (Some (state_str (obj_state prior))) None (Some (rr_attempt_id rep))
         (JObject [(''reason'', JString (msg_text E (display e)))])))) (\<lambda>_.
       bindS (on_store (update_reservation (rr_reservation_id rep) ''RELEASED'')) (\<lambda>_.
       bindS (on_store (update_attempt (rr_attempt_id rep) ARolledBack now)) (\<lambda>_.
       on_store (update_journal_phase (rr_attempt_id rep) RolledBack now))))) c0 = (Inr u, c')"
    unfolding abort_reclaim_def bindS_Inr by (elim exE conjE) rule
  from w obtain c1 c2 c3 c4 au u1 u2 u3 where b: "beaten c0 c1"
    and 1: "on_store (update_object_with_audit prior au) c1 = (Inr u1, c2)"
    and 2: "on_store (update_reservation (rr_reservation_id rep) ''RELEASED'') c2 = (Inr u2, c3)"
    and 3: "on_store (update_attempt (rr_attempt_id rep) ARolledBack now) c3 = (Inr u3, c4)"
    and 4: "on_store (update_journal_phase (rr_attempt_id rep) RolledBack now) c4 = (Inr u, c')"
    by (rule with_inner_Inr) (unfold bindS_Inr, elim exE conjE, rule)
  have on: "m (co_store x) = (Inr z, co_store y)" if "on_store m x = (Inr z, y)" for m :: "unit sop" and x y z
    using that unfolding on_store_Inr by auto
  have s0: "co_store c0 = co_store c" using read_clock_store [OF t] .
  have w1: "store_wf (co_store c1)" using beaten_wf [OF b] assms(2) s0 by simp
  have w2: "store_wf (co_store c2)" by (rule stepwise_wf [OF stepwise_ops(1) on [OF 1] w1])
  have w3: "store_wf (co_store c3)" by (rule stepwise_wf [OF stepwise_ops(7) on [OF 2] w2])
  have w4: "store_wf (co_store c4)" by (rule stepwise_wf [OF stepwise_ops(8) on [OF 3] w3])
  then have "distinct (map j_attempt_id (t_journal (co_store c4)))" by (simp add: store_wf_def keyed_def)
  note j = update_journal_phase_Inr [OF on [OF 4] this]
  have jt: "payload_tables (co_store c') = payload_tables (co_store c4)"
    using on [OF 4] noted_run [OF noted_ops(6)] note_run_tables by (metis snd_conv)
  have "payload_tables (co_store c1) = payload_tables (co_store c)"
    using beaten_same [OF b] s0 by (simp add: same_tables_def)
  then show ?thesis
    using update_object_with_audit_Inr [OF on [OF 1]] update_reservation_Inr [OF on [OF 2] w2] update_attempt_Inr [OF on [OF 3] w3]
      j jt by (simp add: settled_def payload_rows_def get_attempt_def)
qed

subsection \<open>The properties\<close>

text \<open>
  C1: a reclaim reports success only for an object that was neither pinned nor protected, not
  already reclaimed or failed and without another open reservation, whose policy verdict was to
  reclaim it (or the request forced it), whose durability class asks for no copy to survive,
  which can be recomputed (or is ephemeral) when it still is a live copy, and whose direct and
  indirect dependents in the stored lineage are all reclaimed or can be recomputed themselves.
\<close>

theorem reclaim_needs:
  assumes "reclaim E q c = (Inr rep, c')" and "reclaimed rep" and "store_wf (co_store c)"
  shows "\<exists>obj d. require_object (rq_object_id q) (co_store c) = Inr obj \<and> \<not> pinned obj \<and> \<not> protected obj \<and>
    obj_state obj \<notin> {Reclaimed, Failed} \<and> \<not> has_open_reservation_for (id obj) (co_store c) \<and>
    rr_decision rep = Some d \<and> (verdict (pd_decision d) = Reclaim \<or> rq_force q) \<and> may_reclaim obj (co_store c)"
  using reclaim_Inr [OF assms] by auto





end
