(* ===== verification/Files.thy ===== *)
theory Files
  imports Integrity "HOL-Library.AList"
begin

section \<open>A directory and the calls of std::fs\<close>

text \<open>
  The part of the operating system that the file backend and the file archive use: one
  directory, as the list of its named nodes, and the calls of \<open>std::fs\<close> on it. Both
  components keep all their files directly in one directory, so a path is the name of an entry.

  What happens around a call is the list \<open>events\<close>: before a call takes effect other
  processes may change entries, and the call may fail, a write after some of its bytes. When
  the list is used up nothing fails and nobody else writes. A theorem about arbitrary events
  therefore covers every point at which a call can fail.
\<close>

datatype node = RegularFile bytes | Directory | Symlink "node option"

datatype io_error = IoNotFound | IoAlreadyExists | IoOther string

fun io_text :: "io_error \<Rightarrow> string" where
  "io_text IoNotFound = ''No such file or directory (os error 2)''"
| "io_text IoAlreadyExists = ''File exists (os error 17)''"
| "io_text (IoOther t) = t"

record os_event =
  ev_changes :: "(string \<times> node option) list"
  ev_error :: "(string \<times> nat) option"

record disk =
  entries :: "(string \<times> node) list"
  events :: "os_event list"

type_synonym 'a os = "(disk, io_error, 'a) op"

definition node_at :: "disk \<Rightarrow> string \<Rightarrow> node option" where
  "node_at d p = map_of (entries d) p"

fun apply_changes :: "(string \<times> node option) list \<Rightarrow> (string \<times> node) list \<Rightarrow> (string \<times> node) list" where
  "apply_changes [] e = e"
| "apply_changes ((p, None) # cs) e = apply_changes cs (AList.delete p e)"
| "apply_changes ((p, Some x) # cs) e = apply_changes cs (AList.update p x e)"

text \<open>
  A call: \<open>act\<close> is what it does to the entries, \<open>part\<close> what is left of it when it fails
  after some bytes.
\<close>

definition os_call ::
  "((string \<times> node) list \<Rightarrow> (io_error + 'a) \<times> (string \<times> node) list) \<Rightarrow>
   (nat \<Rightarrow> (string \<times> node) list \<Rightarrow> (string \<times> node) list) \<Rightarrow> 'a os" where
  "os_call act part = (\<lambda>d.
     case events d of
       [] \<Rightarrow> (case act (entries d) of (r, e) \<Rightarrow> (r, d\<lparr>entries := e\<rparr>))
     | ev # evs \<Rightarrow>
         let e0 = apply_changes (ev_changes ev) (entries d) in
         (case ev_error ev of
            Some (t, n) \<Rightarrow> (Inl (IoOther t), d\<lparr>entries := part n e0, events := evs\<rparr>)
          | None \<Rightarrow> (case act e0 of (r, e) \<Rightarrow> (r, d\<lparr>entries := e, events := evs\<rparr>))))"

text \<open>A call that only looks, and one that changes nothing when it fails.\<close>

definition os_look :: "((string \<times> node) list \<Rightarrow> io_error + 'a) \<Rightarrow> 'a os" where
  "os_look f = os_call (\<lambda>e. (f e, e)) (\<lambda>_ e. e)"

definition os_change ::
  "((string \<times> node) list \<Rightarrow> io_error + (string \<times> node) list) \<Rightarrow> unit os" where
  "os_change f = os_call (\<lambda>e. case f e of Inl x \<Rightarrow> (Inl x, e) | Inr e' \<Rightarrow> (Inr (), e')) (\<lambda>_ e. e)"

text \<open>\<open>u64::try_from\<close> of a length.\<close>

definition fits_u64 :: "nat \<Rightarrow> bool" where
  "fits_u64 n \<longleftrightarrow> n \<le> U64_MAX"

lemma fits_u64_code [code]: "fits_u64 n \<longleftrightarrow> int n \<le> 18446744073709551615"
  unfolding fits_u64_def U64_MAX_def by linarith

text \<open>\<open>u64::saturating_add\<close>, in which sizes are summed.\<close>

definition saturating_add_u64 :: "nat \<Rightarrow> nat \<Rightarrow> nat" where
  "saturating_add_u64 a b = min (a + b) U64_MAX"

subsection \<open>The calls\<close>

definition is_a_directory :: io_error where "is_a_directory = IoOther ''Is a directory (os error 21)''"

definition create_new :: "string \<Rightarrow> unit os" where
  "create_new p = os_change (\<lambda>e.
     if map_of e p \<noteq> None then Inl IoAlreadyExists else Inr (AList.update p (RegularFile []) e))"

definition add_bytes :: "string \<Rightarrow> bytes \<Rightarrow> (string \<times> node) list \<Rightarrow> (string \<times> node) list" where
  "add_bytes p data e =
     (case map_of e p of Some (RegularFile old) \<Rightarrow> AList.update p (RegularFile (old @ data)) e | _ \<Rightarrow> e)"

definition write_all :: "string \<Rightarrow> bytes \<Rightarrow> unit os" where
  "write_all p data = os_call (\<lambda>e. (Inr (), add_bytes p data e)) (\<lambda>n e. add_bytes p (take n data) e)"

definition sync_all :: "unit os" where
  "sync_all = os_look (\<lambda>_. Inr ())"

definition open_dir :: "unit os" where
  "open_dir = os_look (\<lambda>_. Inr ())"

definition rename_file :: "string \<Rightarrow> string \<Rightarrow> unit os" where
  "rename_file p q = os_change (\<lambda>e.
     case map_of e p of
       None \<Rightarrow> Inl IoNotFound
     | Some x \<Rightarrow>
         if map_of e q = Some Directory then Inl is_a_directory
         else Inr (AList.delete p (AList.update q x e)))"

definition hard_link :: "string \<Rightarrow> string \<Rightarrow> unit os" where
  "hard_link p q = os_change (\<lambda>e.
     case map_of e p of
       None \<Rightarrow> Inl IoNotFound
     | Some x \<Rightarrow> if map_of e q \<noteq> None then Inl IoAlreadyExists else Inr (AList.update q x e))"

definition remove_file :: "string \<Rightarrow> unit os" where
  "remove_file p = os_change (\<lambda>e.
     case map_of e p of
       None \<Rightarrow> Inl IoNotFound
     | Some Directory \<Rightarrow> Inl is_a_directory
     | Some _ \<Rightarrow> Inr (AList.delete p e))"

definition symlink_metadata :: "string \<Rightarrow> node os" where
  "symlink_metadata p = os_look (\<lambda>e. ok_or (map_of e p) IoNotFound)"

text \<open>Opening follows symbolic links.\<close>

fun resolved :: "node option \<Rightarrow> node option" where
  "resolved (Some (Symlink t)) = resolved t"
| "resolved x = x"

definition read_file :: "string \<Rightarrow> bytes os" where
  "read_file p = os_look (\<lambda>e.
     case resolved (map_of e p) of
       None \<Rightarrow> Inl IoNotFound
     | Some (RegularFile data) \<Rightarrow> Inr data
     | Some _ \<Rightarrow> Inl is_a_directory)"

text \<open>\<open>Path::exists\<close>: an error counts as absent.\<close>

definition path_exists :: "string \<Rightarrow> (disk, error, bool) op" where
  "path_exists p = (\<lambda>d.
     case os_look (\<lambda>e. ok_or (resolved (map_of e p)) IoNotFound) d of (r, d') \<Rightarrow> (Inr (is_ok r), d'))"

definition read_dir :: "string list os" where
  "read_dir = os_look (\<lambda>e. Inr (map fst e))"

text \<open>\<open>map_err(...)\<close> on a call, \<open>Result::is_ok\<close> and \<open>let _ =\<close>.\<close>

definition on_err :: "('s, 'e, 'a) op \<Rightarrow> ('e \<Rightarrow> 'f) \<Rightarrow> ('s, 'f, 'a) op" where
  "on_err m f = (\<lambda>s. case m s of (r, s') \<Rightarrow> (map_err f r, s'))"

definition outcome :: "('s, 'e, 'a) op \<Rightarrow> ('s, 'f, 'e + 'a) op" where
  "outcome m = (\<lambda>s. case m s of (r, s') \<Rightarrow> (Inr r, s'))"

definition regular :: "node \<Rightarrow> bool" where
  "regular x \<longleftrightarrow> (case x of RegularFile _ \<Rightarrow> True | _ \<Rightarrow> False)"

definition file_size :: "node \<Rightarrow> nat" where
  "file_size x = (case x of RegularFile data \<Rightarrow> length data | _ \<Rightarrow> 0)"

text \<open>
  A new file under a temporary name, written and synced. The three error texts differ between
  the two callers.
\<close>

definition write_new_file ::
  "(io_error \<Rightarrow> 'e) \<Rightarrow> (io_error \<Rightarrow> 'e) \<Rightarrow> (io_error \<Rightarrow> 'e) \<Rightarrow> string \<Rightarrow> bytes \<Rightarrow> (disk, 'e, unit) op" where
  "write_new_file e1 e2 e3 tmp data =
     bindS (on_err (create_new tmp) e1) (\<lambda>_.
     bindS (on_err (write_all tmp data) e2) (\<lambda>_.
     on_err sync_all e3))"

subsection \<open>What a call does to names nobody else changes\<close>

definition undisturbed :: "string set \<Rightarrow> disk \<Rightarrow> bool" where
  "undisturbed S d \<longleftrightarrow> (\<forall>ev\<in>set (events d). \<forall>c\<in>set (ev_changes ev). fst c \<notin> S)"

lemma map_of_apply_changes:
  "(\<forall>c\<in>set cs. fst c \<noteq> p) \<Longrightarrow> map_of (apply_changes cs e) p = map_of e p"
  by (induction cs e rule: apply_changes.induct) (auto simp: update_conv' delete_conv)

lemma os_call_cases:
  assumes "os_call act part d = (r, d')" and "undisturbed S d"
  obtains e0 where "undisturbed S d'" and "\<And>p. p \<in> S \<Longrightarrow> map_of e0 p = node_at d p"
    and "(\<exists>t n. r = Inl (IoOther t) \<and> entries d' = part n e0) \<or> act e0 = (r, entries d')"
proof (cases "events d")
  case Nil
  have "undisturbed S d'" using assms Nil by (auto simp: os_call_def undisturbed_def split: prod.splits)
  moreover have "act (entries d) = (r, entries d')" using assms Nil by (auto simp: os_call_def split: prod.splits)
  ultimately show thesis using that [of "entries d"] by (simp add: node_at_def)
next
  case (Cons ev evs)
  let ?e = "apply_changes (ev_changes ev) (entries d)"
  have a: "map_of ?e p = node_at d p" if "p \<in> S" for p
    unfolding node_at_def using assms(2) Cons that by (intro map_of_apply_changes) (auto simp: undisturbed_def)
  have b: "undisturbed S d'"
    using assms Cons by (auto simp: os_call_def undisturbed_def Let_def split: prod.splits option.splits)
  have c: "(\<exists>t n. r = Inl (IoOther t) \<and> entries d' = part n ?e) \<or> act ?e = (r, entries d')"
    using assms(1) Cons by (auto simp: os_call_def Let_def split: prod.splits option.splits)
  show thesis by (rule that [OF b a c])
qed

text \<open>The entries of \<open>S\<close> are the same before and after.\<close>

definition same_on :: "string set \<Rightarrow> disk \<Rightarrow> disk \<Rightarrow> bool" where
  "same_on S d d' \<longleftrightarrow> undisturbed S d' \<and> (\<forall>p\<in>S. node_at d' p = node_at d p)"

lemma same_on_refl: "undisturbed S d \<Longrightarrow> same_on S d d"
  by (simp add: same_on_def)

lemma same_on_trans: "same_on S d d' \<Longrightarrow> same_on S d' d'' \<Longrightarrow> same_on S d d''"
  by (simp add: same_on_def)

lemma same_on_at: "same_on S d d' \<Longrightarrow> p \<in> S \<Longrightarrow> node_at d' p = node_at d p"
  by (simp add: same_on_def)

lemma same_on_quiet: "same_on S d d' \<Longrightarrow> undisturbed S d'"
  by (simp add: same_on_def)

lemma undisturbed_subset: "undisturbed S d \<Longrightarrow> T \<subseteq> S \<Longrightarrow> undisturbed T d"
  by (fastforce simp: undisturbed_def)

lemma os_look_cases:
  assumes "os_look f d = (r, d')" and "undisturbed S d"
  obtains e0 where "same_on S d d'" and "\<And>p. p \<in> S \<Longrightarrow> map_of e0 p = node_at d p"
    and "(\<exists>t. r = Inl (IoOther t)) \<or> r = f e0"
proof -
  obtain e0 where "undisturbed S d'"
    and e: "\<And>p. p \<in> S \<Longrightarrow> map_of e0 p = node_at d p"
    and c: "(\<exists>t (n::nat). r = Inl (IoOther t) \<and> entries d' = e0) \<or> (f e0, e0) = (r, entries d')"
    by (rule os_call_cases [OF assms(1)[unfolded os_look_def] assms(2)]) (rule that)
  moreover have "entries d' = e0" using c by auto
  ultimately show thesis using that [of e0] by (auto simp: same_on_def node_at_def)
qed

lemma os_change_cases:
  assumes "os_change f d = (r, d')" and "undisturbed S d"
  obtains e0 where "undisturbed S d'" and "\<And>p. p \<in> S \<Longrightarrow> map_of e0 p = node_at d p"
    and "(\<exists>x. r = Inl x \<and> same_on S d d' \<and> ((\<exists>t. x = IoOther t) \<or> f e0 = Inl x)) \<or>
      (\<exists>e. r = Inr () \<and> f e0 = Inr e \<and> node_at d' = map_of e)"
proof -
  obtain e0 where u: "undisturbed S d'"
    and e: "\<And>p. p \<in> S \<Longrightarrow> map_of e0 p = node_at d p"
    and c: "(\<exists>t (n::nat). r = Inl (IoOther t) \<and> entries d' = e0) \<or>
      (case f e0 of Inl x \<Rightarrow> (Inl x, e0) | Inr e' \<Rightarrow> (Inr (), e')) = (r, entries d')"
    by (rule os_call_cases [OF assms(1)[unfolded os_change_def] assms(2)]) (rule that)
  from c show thesis
  proof
    assume "\<exists>t (n::nat). r = Inl (IoOther t) \<and> entries d' = e0"
    then show thesis using that [OF u e] u e by (auto simp: same_on_def node_at_def)
  next
    assume "(case f e0 of Inl x \<Rightarrow> (Inl x, e0) | Inr e' \<Rightarrow> (Inr (), e')) = (r, entries d')"
    then show thesis using that [OF u e] u e
      by (auto simp: same_on_def node_at_def fun_eq_iff split: sum.splits)
  qed
qed

subsection \<open>The calls, one by one\<close>

lemma on_err_eq: "on_err m f s = (r, s') \<longleftrightarrow> (\<exists>r0. m s = (r0, s') \<and> r = map_err f r0)"
  by (auto simp: on_err_def split: prod.splits)

lemma on_err_Inr: "on_err m f s = (Inr a, s') \<longleftrightarrow> m s = (Inr a, s')"
  by (auto simp: on_err_eq map_err_Inr_iff dest: sym)

lemma outcome_eq: "outcome m s = (r, s') \<longleftrightarrow> (\<exists>r0. m s = (r0, s') \<and> r = Inr r0)"
  by (auto simp: outcome_def split: prod.splits)

lemma create_new_step:
  assumes "create_new p d = (r, d')" and "undisturbed S d" and "p \<in> S"
  shows "undisturbed S d'" and "same_on (S - {p}) d d'"
    and "r = Inr () \<Longrightarrow> node_at d p = None \<and> node_at d' p = Some (RegularFile [])"
    and "r = Inl x \<Longrightarrow> same_on S d d'"
proof -
  let ?f = "\<lambda>e. if map_of e p \<noteq> None then Inl IoAlreadyExists else Inr (AList.update p (RegularFile []) e)"
  obtain e0 where "undisturbed S d'" and "\<And>p. p \<in> S \<Longrightarrow> map_of e0 p = node_at d p"
    and "(\<exists>x. r = Inl x \<and> same_on S d d' \<and> ((\<exists>t. x = IoOther t) \<or> ?f e0 = Inl x)) \<or>
      (\<exists>e. r = Inr () \<and> ?f e0 = Inr e \<and> node_at d' = map_of e)"
    by (rule os_change_cases [OF assms(1)[unfolded create_new_def] assms(2)]) (rule that)
  then show "undisturbed S d'" and "same_on (S - {p}) d d'"
    and "r = Inr () \<Longrightarrow> node_at d p = None \<and> node_at d' p = Some (RegularFile [])"
    and "r = Inl x \<Longrightarrow> same_on S d d'"
    using assms(3) by (auto simp: same_on_def update_conv' split: if_splits elim: undisturbed_subset)
qed

lemma rename_step:
  assumes "rename_file p q d = (r, d')" and "undisturbed S d" and "p \<in> S" and "q \<in> S" and "p \<noteq> q"
  shows "undisturbed S d'" and "same_on (S - {p, q}) d d'"
    and "r = Inr () \<Longrightarrow> node_at d' q = node_at d p \<and> node_at d' p = None"
    and "r = Inl x \<Longrightarrow> same_on S d d'"
proof -
  let ?f = "\<lambda>e. case map_of e p of None \<Rightarrow> Inl IoNotFound
     | Some x \<Rightarrow> if map_of e q = Some Directory then Inl is_a_directory else Inr (AList.delete p (AList.update q x e))"
  obtain e0 where "undisturbed S d'" and "\<And>p. p \<in> S \<Longrightarrow> map_of e0 p = node_at d p"
    and "(\<exists>x. r = Inl x \<and> same_on S d d' \<and> ((\<exists>t. x = IoOther t) \<or> ?f e0 = Inl x)) \<or>
      (\<exists>e. r = Inr () \<and> ?f e0 = Inr e \<and> node_at d' = map_of e)"
    by (rule os_change_cases [OF assms(1)[unfolded rename_file_def] assms(2)]) (rule that)
  then show "undisturbed S d'" and "same_on (S - {p, q}) d d'"
    and "r = Inr () \<Longrightarrow> node_at d' q = node_at d p \<and> node_at d' p = None"
    and "r = Inl x \<Longrightarrow> same_on S d d'"
    using assms(3-5)
    by (auto simp: same_on_def update_conv' delete_conv split: if_splits option.splits elim: undisturbed_subset)
qed

lemma hard_link_step:
  assumes "hard_link p q d = (r, d')" and "undisturbed S d" and "p \<in> S" and "q \<in> S"
  shows "undisturbed S d'" and "same_on (S - {q}) d d'"
    and "r = Inr () \<Longrightarrow> node_at d q = None \<and> node_at d' q = node_at d p"
    and "r = Inl x \<Longrightarrow> same_on S d d'"
proof -
  let ?f = "\<lambda>e. case map_of e p of None \<Rightarrow> Inl IoNotFound
     | Some x \<Rightarrow> if map_of e q \<noteq> None then Inl IoAlreadyExists else Inr (AList.update q x e)"
  obtain e0 where "undisturbed S d'" and "\<And>p. p \<in> S \<Longrightarrow> map_of e0 p = node_at d p"
    and "(\<exists>x. r = Inl x \<and> same_on S d d' \<and> ((\<exists>t. x = IoOther t) \<or> ?f e0 = Inl x)) \<or>
      (\<exists>e. r = Inr () \<and> ?f e0 = Inr e \<and> node_at d' = map_of e)"
    by (rule os_change_cases [OF assms(1)[unfolded hard_link_def] assms(2)]) (rule that)
  then show "undisturbed S d'" and "same_on (S - {q}) d d'"
    and "r = Inr () \<Longrightarrow> node_at d q = None \<and> node_at d' q = node_at d p"
    and "r = Inl x \<Longrightarrow> same_on S d d'"
    using assms(3,4)
    by (auto simp: same_on_def update_conv' split: if_splits option.splits elim: undisturbed_subset)
qed

lemma remove_file_step:
  assumes "remove_file p d = (r, d')" and "undisturbed S d"
  shows "undisturbed S d'" and "same_on (S - {p}) d d'"
    and "p \<in> S \<Longrightarrow> r = Inr () \<Longrightarrow> node_at d' p = None"
    and "r = Inl x \<Longrightarrow> same_on S d d'"
    and "p \<in> S \<Longrightarrow> r = Inl IoNotFound \<Longrightarrow> node_at d' p = None"
proof -
  let ?f = "\<lambda>e. case map_of e p of None \<Rightarrow> Inl IoNotFound
     | Some Directory \<Rightarrow> Inl is_a_directory | Some _ \<Rightarrow> Inr (AList.delete p e)"
  obtain e0 where "undisturbed S d'" and "\<And>p. p \<in> S \<Longrightarrow> map_of e0 p = node_at d p"
    and "(\<exists>x. r = Inl x \<and> same_on S d d' \<and> ((\<exists>t. x = IoOther t) \<or> ?f e0 = Inl x)) \<or>
      (\<exists>e. r = Inr () \<and> ?f e0 = Inr e \<and> node_at d' = map_of e)"
    by (rule os_change_cases [OF assms(1)[unfolded remove_file_def] assms(2)]) (rule that)
  then show "undisturbed S d'" and "same_on (S - {p}) d d'"
    and "p \<in> S \<Longrightarrow> r = Inr () \<Longrightarrow> node_at d' p = None"
    and "r = Inl x \<Longrightarrow> same_on S d d'"
    and "p \<in> S \<Longrightarrow> r = Inl IoNotFound \<Longrightarrow> node_at d' p = None"
    by (auto simp: same_on_def delete_conv is_a_directory_def split: if_splits option.splits node.splits elim: undisturbed_subset)
qed

lemma write_all_step:
  assumes "write_all p data d = (r, d')" and "undisturbed S d" and "p \<in> S"
  shows "undisturbed S d'" and "same_on (S - {p}) d d'"
    and "r = Inr () \<Longrightarrow> node_at d p = Some (RegularFile old) \<Longrightarrow> node_at d' p = Some (RegularFile (old @ data))"
proof -
  obtain e0 where u: "undisturbed S d'" and e: "\<And>p. p \<in> S \<Longrightarrow> map_of e0 p = node_at d p"
    and c: "(\<exists>t n. r = Inl (IoOther t) \<and> entries d' = add_bytes p (take n data) e0) \<or>
      (Inr (), add_bytes p data e0) = (r, entries d')"
    by (rule os_call_cases [OF assms(1)[unfolded write_all_def] assms(2)]) (rule that)
  have add: "map_of (add_bytes p x e0) q = map_of e0 q" if "q \<noteq> p" for x q
    using that by (auto simp: add_bytes_def update_conv' split: option.splits node.splits)
  have own: "map_of (add_bytes p data e0) p = Some (RegularFile (old @ data))" if "node_at d p = Some (RegularFile old)"
    using that e [OF assms(3)] by (simp add: add_bytes_def update_conv')
  show "undisturbed S d'" by (rule u)
  from c obtain x where x: "entries d' = add_bytes p x e0" by (metis prod.inject)
  have "node_at d' q = node_at d q" if "q \<in> S" and "q \<noteq> p" for q
    using add [OF that(2), of x] e [OF that(1)] x by (simp add: node_at_def)
  then show "same_on (S - {p}) d d'"
    using u by (auto simp: same_on_def elim: undisturbed_subset)
  show "node_at d' p = Some (RegularFile (old @ data))"
    if "r = Inr ()" and "node_at d p = Some (RegularFile old)"
    using c own [OF that(2)] that(1) by (auto simp: node_at_def)
qed

lemma os_look_step: "os_look f d = (r, d') \<Longrightarrow> undisturbed S d \<Longrightarrow> same_on S d d'"
  by (erule os_look_cases)

lemma symlink_metadata_step:
  assumes "symlink_metadata p d = (r, d')" and "undisturbed S d" and "p \<in> S"
  shows "same_on S d d'" and "r = Inr x \<Longrightarrow> node_at d p = Some x" and "r = Inl IoNotFound \<Longrightarrow> node_at d p = None"
  by (rule os_look_cases [OF assms(1)[unfolded symlink_metadata_def] assms(2)],
      use assms(3) in \<open>auto simp: ok_or_Inr_iff ok_or_Inl_iff dest: sym\<close>)+

lemma read_file_step:
  assumes "read_file p d = (r, d')" and "undisturbed S d" and "p \<in> S"
  shows "same_on S d d'" and "r = Inr data \<Longrightarrow> resolved (node_at d p) = Some (RegularFile data)"
  by (rule os_look_cases [OF assms(1)[unfolded read_file_def] assms(2)],
      use assms(3) in \<open>auto split: option.splits node.splits\<close>)+

lemma path_exists_step:
  assumes "path_exists p d = (r, d')" and "undisturbed S d"
  shows "same_on S d d'"
  using assms(1) by (auto simp: path_exists_def split: prod.splits intro: os_look_step [OF _ assms(2)])

lemma path_exists_total: "\<exists>b d'. path_exists p d = (Inr b, d')"
  by (simp add: path_exists_def split: prod.split)

lemma write_new_file_step:
  assumes "write_new_file e1 e2 e3 p data d = (r, d')" and "undisturbed S d" and "p \<in> S"
  shows "undisturbed S d'" and "same_on (S - {p}) d d'" and "r = Inr () \<Longrightarrow> node_at d' p = Some (RegularFile data)"
proof -
  obtain r1 d1 where 1: "create_new p d = (r1, d1)" by fastforce
  obtain r2 d2 where 2: "write_all p data d1 = (r2, d2)" by fastforce
  obtain r3 d3 where 3: "sync_all d2 = (r3, d3)" by fastforce
  note s1 = create_new_step [OF 1 assms(2,3)]
  note s2 = write_all_step [OF 2 s1(1) assms(3)]
  have s3: "same_on S d2 d3" by (rule os_look_step [OF 3[unfolded sync_all_def] s2(1)])
  have s: "same_on (S - {p}) d1 d2" "same_on (S - {p}) d1 d3"
    using s2(2) same_on_trans [OF s2(2), of d3] s3 by (auto simp: same_on_def elim: undisturbed_subset)
  have t: "same_on (S - {p}) d d2" "same_on (S - {p}) d d3"
    by (rule same_on_trans [OF s1(2)], rule s)+
  have cases: "(d' = d1 \<and> is_ok r = False) \<or> (d' = d2 \<and> is_ok r = False) \<or> (d' = d3 \<and> r1 = Inr () \<and> r2 = Inr ())"
    using assms(1) 1 2 3
    by (cases r1; cases r2; cases r3) (auto simp: write_new_file_def bindS_def on_err_def)
  show "undisturbed S d'" using cases s1(1) s2(1) same_on_quiet [OF s3] by auto
  show "same_on (S - {p}) d d'" using cases s1(2) t by auto
  show "node_at d' p = Some (RegularFile data)" if "r = Inr ()"
  proof -
    from cases that have "d' = d3" "r1 = Inr ()" "r2 = Inr ()" by auto
    then show ?thesis using s1(3) s2(3) [of "[]"] same_on_at [OF s3 assms(3)] by simp
  qed
qed

end
