(* ===== verification/Compression.thy ===== *)
theory Compression
  imports Files
begin

section \<open>Compression codecs (src/compression.rs)\<close>

text \<open>
  The codec interface as a record of functions, the default of its bounded decompression, the
  no-op codec and the Zstandard codec over the library's encoder and decoder, and the verified
  compression the coordinator uses. CRC32C is a parameter, as SHA-256 is. The results hold for
  every codec, correct or not: a verified compression decompresses to the payload, and no
  bounded decompression returns more than its bound.
\<close>

subsection \<open>Codecs\<close>

record codec =
  codec_name :: string
  codec_compress :: "bytes \<Rightarrow> bytes result"
  codec_decompress :: "bytes \<Rightarrow> bytes result"
  codec_decompress_bounded :: "bytes \<Rightarrow> nat \<Rightarrow> bytes result"

text \<open>The default implementation of the bounded operation in the trait.\<close>

definition default_decompress_bounded :: "(bytes \<Rightarrow> bytes result) \<Rightarrow> bytes \<Rightarrow> nat \<Rightarrow> bytes result" where
  "default_decompress_bounded decompress data max_output =
     bindr (decompress data) (\<lambda>output.
     if length output > max_output
     then Inl (DecompressionFailure [Lit ''decompressed payload exceeds '', Num (int max_output), Lit '' byte limit''])
     else Inr output)"

definition NoopCodec :: codec where
  "NoopCodec = \<lparr>codec_name = ''none'', codec_compress = Inr, codec_decompress = Inr,
     codec_decompress_bounded = (\<lambda>data max_output.
       if length data > max_output
       then Inl (DecompressionFailure [Lit ''uncompressed payload exceeds '', Num (int max_output), Lit '' byte limit''])
       else Inr data)\<rparr>"

text \<open>
  What the library offers: \<open>encode_all\<close> and \<open>decode_all\<close>, the check of the header when a
  streaming decoder is made, and what reading at most \<open>n\<close> bytes from that decoder yields. An
  error is its text.
\<close>

record zstd_library =
  encode_all :: "bytes \<Rightarrow> int \<Rightarrow> string + bytes"
  decode_all :: "bytes \<Rightarrow> string + bytes"
  decoder_new :: "bytes \<Rightarrow> string + unit"
  read_at_most :: "bytes \<Rightarrow> nat \<Rightarrow> string + bytes"

definition zstd_decompress_bounded :: "zstd_library \<Rightarrow> bytes \<Rightarrow> nat \<Rightarrow> bytes result" where
  "zstd_decompress_bounded Z data max_output =
     bindr (map_err (\<lambda>e. DecompressionFailure [Lit ''zstd decompress: '', Str e]) (decoder_new Z data)) (\<lambda>_.
     if \<not> fits_u64 max_output then Inl (InvalidArgument [Lit ''decompression limit exceeds u64''])
     else
       bindr (map_err (\<lambda>e. DecompressionFailure [Lit ''zstd decompress: '', Str e])
         (read_at_most Z data (saturating_add_u64 max_output 1))) (\<lambda>output.
       if length output > max_output
       then Inl (DecompressionFailure [Lit ''zstd decompressed payload exceeds '', Num (int max_output),
         Lit '' byte limit''])
       else Inr output))"

definition ZstdCodec :: "zstd_library \<Rightarrow> int \<Rightarrow> codec" where
  "ZstdCodec Z level = \<lparr>codec_name = ''zstd'',
     codec_compress = (\<lambda>data. map_err (\<lambda>e. CompressionFailure [Lit ''zstd compress: '', Str e]) (encode_all Z data level)),
     codec_decompress = (\<lambda>data. map_err (\<lambda>e. DecompressionFailure [Lit ''zstd decompress: '', Str e]) (decode_all Z data)),
     codec_decompress_bounded = zstd_decompress_bounded Z\<rparr>"

definition default_zstd :: "zstd_library \<Rightarrow> codec" where
  "default_zstd Z = ZstdCodec Z 3"

subsection \<open>Verified compression\<close>

record compression_result =
  cr_codec :: string
  original_size :: nat
  cr_compressed_size :: nat
  ratio :: f64
  original_hash :: content_hash
  compressed_hash :: content_hash
  original_crc32c :: nat
  compressed_crc32c :: nat

definition accounting :: "sha_fun \<Rightarrow> (bytes \<Rightarrow> nat) \<Rightarrow> codec \<Rightarrow> bytes \<Rightarrow> bytes \<Rightarrow> compression_result" where
  "accounting sha crc32c C data compressed =
     \<lparr>cr_codec = codec_name C, original_size = length data, cr_compressed_size = length compressed,
      ratio = (if data = [] then Fin 1 else fdiv (fof_nat (length compressed)) (fof_nat (length data))),
      original_hash = hash_of sha data, compressed_hash = hash_of sha compressed,
      original_crc32c = crc32c data, compressed_crc32c = crc32c compressed\<rparr>"

definition compress_verified_with_bytes ::
  "sha_fun \<Rightarrow> (bytes \<Rightarrow> nat) \<Rightarrow> codec \<Rightarrow> bytes \<Rightarrow> (bytes \<times> compression_result) result" where
  "compress_verified_with_bytes sha crc32c C data =
     bindr (codec_compress C data) (\<lambda>compressed.
     bindr (codec_decompress_bounded C compressed (length data)) (\<lambda>roundtrip.
     if roundtrip \<noteq> data
     then Inl (CompressionFailure [Lit ''compression round-trip produced different payload''])
     else Inr (compressed, accounting sha crc32c C data compressed)))"

definition compress_verified ::
  "sha_fun \<Rightarrow> (bytes \<Rightarrow> nat) \<Rightarrow> codec \<Rightarrow> bytes \<Rightarrow> compression_result result" where
  "compress_verified sha crc32c C data =
     bindr (compress_verified_with_bytes sha crc32c C data) (\<lambda>(_, res). Inr res)"

definition benefit_estimate :: "codec \<Rightarrow> bytes \<Rightarrow> f64 option result" where
  "benefit_estimate C data =
     (if length data < 64 then Inr None
      else
        let sample = take 4096 data in
        bindr (codec_compress C sample) (\<lambda>compressed.
        let r = fdiv (fof_nat (length compressed)) (fof_nat (length sample)) in
        Inr (if flt r (round64 (95 / 100)) then Some r else None)))"

subsection \<open>Bounds and round trips\<close>

lemma compress_verified_Inr:
  assumes "compress_verified_with_bytes sha crc C data = Inr (compressed, res)"
  shows "codec_compress C data = Inr compressed \<and> codec_decompress_bounded C compressed (length data) = Inr data \<and>
    original_size res = length data \<and> cr_compressed_size res = length compressed \<and>
    original_hash res = hash_of sha data \<and> compressed_hash res = hash_of sha compressed"
proof -
  from assms obtain rt where 1: "codec_compress C data = Inr compressed"
    and 2: "codec_decompress_bounded C compressed (length data) = Inr rt" and 3: "rt = data"
    and 4: "res = accounting sha crc C data compressed"
    unfolding compress_verified_with_bytes_def bindr_Inr_iff by (elim exE conjE) (simp split: if_splits)
  from 4 show ?thesis using 1 2 unfolding 3 by (simp add: accounting_def)
qed

text \<open>What a codec promises about its bounded decompression.\<close>

locale bounded_codec =
  fixes C :: codec
  assumes bounded: "codec_decompress_bounded C data n = Inr output \<Longrightarrow> length output \<le> n"
begin

lemma no_expansion:
  assumes "compress_verified_with_bytes sha crc C data = Inr (compressed, res)"
    and "codec_decompress_bounded C x (original_size res) = Inr y"
  shows "length y \<le> length data"
  using assms(2) bounded compress_verified_Inr [OF assms(1)] by simp

end

interpretation noop: bounded_codec NoopCodec
  by unfold_locales (auto simp: NoopCodec_def split: if_splits)

interpretation zstd: bounded_codec "ZstdCodec Z level"
  by unfold_locales (auto simp: ZstdCodec_def zstd_decompress_bounded_def bindr_Inr_iff split: if_splits)

interpretation external: bounded_codec "C\<lparr>codec_decompress_bounded := default_decompress_bounded (codec_decompress C)\<rparr>"
  by unfold_locales (auto simp: default_decompress_bounded_def bindr_Inr_iff split: if_splits)

text \<open>
  C39: A verified compression of any codec, correct or not, decompresses within the recorded
  size to the payload it came from, and records the sizes and hashes of both; the Zstandard
  codec never returns more bytes than the recorded size, whatever it is given.
\<close>

theorem compression_roundtrip:
  assumes "compress_verified_with_bytes sha crc C data = Inr (compressed, res)"
  shows "codec_decompress_bounded C compressed (original_size res) = Inr data \<and>
    original_size res = length data \<and> cr_compressed_size res = length compressed \<and>
    verify_sha256 sha data (original_hash res) = Inr () \<and>
    verify_sha256 sha compressed (compressed_hash res) = Inr () \<and>
    (\<forall>Z level x y. C = ZstdCodec Z level \<longrightarrow>
       codec_decompress_bounded C x (original_size res) = Inr y \<longrightarrow> length y \<le> length data)"
  using compress_verified_Inr [OF assms] zstd.no_expansion assms
  by (auto simp: verify_sha256_def hash_of_def)

theorem compression_roundtrip_witness:
  "compress_verified_with_bytes (\<lambda>_. []) length NoopCodec [1, 2, 3] =
     Inr ([1, 2, 3], accounting (\<lambda>_. []) length NoopCodec [1, 2, 3] [1, 2, 3]) \<and>
   codec_decompress_bounded NoopCodec [1, 2, 3] 3 = Inr [1, 2, 3]"
proof -
  have run: "compress_verified_with_bytes (\<lambda>_. []) length NoopCodec [1, 2, 3] =
     Inr ([1, 2, 3], accounting (\<lambda>_. []) length NoopCodec [1, 2, 3] [1, 2, 3])"
    by (simp add: compress_verified_with_bytes_def NoopCodec_def)
  from compression_roundtrip [OF run, THEN conjunct1] show ?thesis using run by (simp add: accounting_def numeral_3_eq_3)
qed

end
