(* ===== verification/Payloads.thy ===== *)
theory Payloads
  imports ReclaimOutcome Compression
begin

section \<open>Payload operations of the coordinator (src/coordinator.rs)\<close>

text \<open>
  Registration of objects with their payloads, compression, archiving, restoration and
  verification. What these operations call beyond the environment \<open>E\<close> is the parameter
  \<open>X\<close>: reading and writing of archives, the kind of a backend, the Zstandard library and
  CRC32C.
\<close>

record 'w services =
  archive_put :: "string \<Rightarrow> string \<Rightarrow> bytes \<Rightarrow> content_hash \<Rightarrow> 'w \<Rightarrow> nat result \<times> 'w"
  archive_get :: "string \<Rightarrow> string \<Rightarrow> 'w \<Rightarrow> bytes result \<times> 'w"
  backend_kind :: "'w \<Rightarrow> string \<Rightarrow> string"
  zstd_lib :: zstd_library
  crc_fun :: "bytes \<Rightarrow> nat"

subsection \<open>Shared steps\<close>

text \<open>\<open>cleanup.map_err(...)?; return Err(e)\<close>.\<close>

definition fail_after :: "string \<Rightarrow> string \<Rightarrow> ('w, unit) cop \<Rightarrow> error \<Rightarrow> ('w, 'a) cop" where
  "fail_after what also cleanup e =
     bindS (attempt_op cleanup) (\<lambda>r. case r of
       Inr _ \<Rightarrow> failS e
     | Inl x \<Rightarrow> failS (Internal ([Lit what] @ display e @ [Lit also] @ display x @ [Lit '')''])))"

definition with_payload_guard :: "(string \<times> content_hash) list \<Rightarrow> ('w, 'a) cop \<Rightarrow> ('w, 'a) cop" where
  "with_payload_guard ks body =
     bindS (begin_payload_operations ks) (\<lambda>keys c. case body c of (r, c') \<Rightarrow> (r, drop_payload_guard keys c'))"

definition zero_reference :: "content_hash \<Rightarrow> string \<Rightarrow> error" where
  "zero_reference h b = Dedup [Lit ''zero-reference dedup row for '', Hsh h, Lit '' on '', Str b]"

text \<open>The payload a dedup row stands for, read and verified.\<close>

definition verified_canonical :: "'w environment \<Rightarrow> content_hash \<Rightarrow> string \<Rightarrow> dedup_entry \<Rightarrow> ('w, unit) cop" where
  "verified_canonical E h b en =
     (if ref_count en = 0 then failS (zero_reference h b)
      else bindS (read_payload E b (de_key en)) (\<lambda>canonical. liftS (verify_sha256 (env_sha E) canonical h)))"

subsection \<open>Registration\<close>

record create_object_request =
  cr_object :: reclaim_object
  cr_payload_b64 :: "string option"
  cr_target_backend :: "string option"
  cr_replicate_to :: "string list"

text \<open>\<open>retain(|id| seen.insert(id))\<close>: the first of equal ids stays.\<close>

definition distinct_targets :: "string \<Rightarrow> string list \<Rightarrow> string list" where
  "distinct_targets target extra = rev (remdups (rev (target # extra)))"

definition prepare_payload ::
  "'w environment \<Rightarrow> create_object_request \<Rightarrow> reclaim_object \<Rightarrow> (bytes \<times> content_hash \<times> string) option result" where
  "prepare_payload E q obj =
     (let m = min_valid_copies (obj_durability obj) in
      case cr_payload_b64 q of
        Some b64 \<Rightarrow>
          bindr (ok_or (cr_target_backend q)
            (InvalidArgument [Lit ''target_backend is required when payload_b64 is present''])) (\<lambda>target.
          if blank target then Inl (InvalidArgument [Lit ''target_backend must not be empty''])
          else if \<exists>i\<in>set (cr_replicate_to q). blank i
          then Inl (InvalidArgument [Lit ''replicate_to backend ids must not be empty''])
          else
            bindr (from_base64 E b64) (\<lambda>data.
            if data = [] then Inl (InvalidArgument [Lit ''empty payloads are not supported''])
            else
              let h = hash_of (env_sha E) data; targets = distinct_targets target (cr_replicate_to q) in
              if (case obj_content_hash obj of Some x \<Rightarrow> x \<noteq> h | None \<Rightarrow> False)
              then Inl (IntegrityFailure [Lit ''payload does not match declared content hash: declared '',
                Hsh (the (obj_content_hash obj)), Lit '', actual '', Hsh h])
              else if physical_size obj \<noteq> 0 \<and> physical_size obj \<noteq> length data
              then Inl (InvalidArgument [Lit ''declared physical size '', Num (int (physical_size obj)),
                Lit '' does not match payload size '', Num (int (length data))])
              else if length targets < m
              then Inl (SurvivabilityViolation [Lit ''registration of '', Str (durability_dbg (obj_durability obj)),
                Lit '' object requires at least '', Num (int m), Lit '' distinct backend copies, got '',
                Num (int (length targets))])
              else Inr (Some (data, h, target))))
      | None \<Rightarrow>
          if cr_target_backend q \<noteq> None \<or> cr_replicate_to q \<noteq> []
          then Inl (InvalidArgument [Lit ''target_backend/replicate_to require payload_b64''])
          else if m > 0
          then Inl (SurvivabilityViolation [Lit ''registration of '', Str (durability_dbg (obj_durability obj)),
            Lit '' object requires at least '', Num (int m), Lit '' valid payload copies''])
          else Inr None)"

definition new_replica ::
  "reclaim_object \<Rightarrow> uuid \<Rightarrow> string \<Rightarrow> string \<Rightarrow> physical_kind \<Rightarrow> nat \<Rightarrow> content_hash \<Rightarrow> int \<Rightarrow> int \<Rightarrow> string option \<Rightarrow> replica" where
  "new_replica obj rid b key kind sz h created verified own =
     \<lparr>replica_id = rid, rep_object_id = id obj, rep_generation = generation obj,
      rep_location = \<lparr>loc_backend = b, loc_key = key, loc_kind = kind\<rparr>, rep_size = sz, rep_content_hash = h,
      rep_created_at_ms = created, verified_at_ms = Some verified, valid = True, owner_node = own\<rparr>"

definition new_dedup :: "content_hash \<Rightarrow> string \<Rightarrow> string \<Rightarrow> nat \<Rightarrow> dedup_entry" where
  "new_dedup h b key sz =
     \<lparr>de_content_hash = h, de_backend = b, de_key = key, ref_count = 1, payload_size = sz\<rparr>"

text \<open>The reference of the new replica: one extra on the stored payload, or a new payload.\<close>

definition acquire_payload ::
  "'w environment \<Rightarrow> string \<Rightarrow> bytes \<Rightarrow> content_hash \<Rightarrow> nat \<Rightarrow> dedup_entry option \<Rightarrow> ('w, string) cop" where
  "acquire_payload E b data h idx existing =
     (case existing of
        Some en \<Rightarrow>
          bindS (verified_canonical E h b en) (\<lambda>_.
          bindS (locked E (dedup_acquire h b)) (\<lambda>_. returnS (de_key en)))
      | None \<Rightarrow>
          let key = (if idx = 0 then dedup_key h else dedup_key h @ ''-r'' @ show_nat idx) in
          bindS (write_payload_to E b key data) (\<lambda>_.
          bindS (attempt_op (locked E (insert_dedup (new_dedup h b key (length data))))) (\<lambda>r. case r of
            Inr _ \<Rightarrow> returnS key
          | Inl e \<Rightarrow> fail_after ''dedup insert failed ('' ''); payload cleanup also failed ('' (delete_payload E b key) e)))"

definition store_payload_on_backend ::
  "'w environment \<Rightarrow> reclaim_object \<Rightarrow> string \<Rightarrow> bytes \<Rightarrow> content_hash \<Rightarrow> int \<Rightarrow> nat \<Rightarrow> ('w, replica) cop" where
  "store_payload_on_backend E obj b data h now idx =
     bindS (with_inner E (
       bindS (on_store (askS (\<lambda>s. Inr (get_dedup h b s)))) (\<lambda>existing.
       bindS (node_for_backend_locked b) (\<lambda>own. returnS (existing, own))))) (\<lambda>(existing, own).
     bindS (acquire_payload E b data h idx existing) (\<lambda>key.
     bindS (new_v4 E) (\<lambda>rid.
     let r = new_replica obj rid b key HotKind (length data) h now now own in
     bindS (attempt_op (locked E (add_replica r))) (\<lambda>x. case x of
       Inr _ \<Rightarrow> returnS r
     | Inl e \<Rightarrow>
         bindS (locked E (dedup_release h b)) (\<lambda>gone.
         if gone
         then fail_after ''replica insert failed ('' ''); payload cleanup also failed ('' (delete_payload E b key) e
         else failS e)))))"

fun rollback_rows :: "replica list \<Rightarrow> (string \<times> string) list \<Rightarrow> (string \<times> string) list sop" where
  "rollback_rows [] physical = returnS physical"
| "rollback_rows (r # rs) physical =
     bindS (delete_replica (replica_id r)) (\<lambda>_.
     bindS (dedup_release (rep_content_hash r) (loc_backend (rep_location r))) (\<lambda>gone.
     rollback_rows rs (if gone then physical @ [(loc_backend (rep_location r), loc_key (rep_location r))] else physical)))"

definition rollback_replicas_under_guard :: "'w environment \<Rightarrow> replica list \<Rightarrow> ('w, unit) cop" where
  "rollback_replicas_under_guard E rs =
     bindS (locked E (rollback_rows rs [])) (\<lambda>physical.
     forS physical (\<lambda>(b, key). delete_payload E b key))"

definition rollback_replicas :: "'w environment \<Rightarrow> replica list \<Rightarrow> ('w, unit) cop" where
  "rollback_replicas E rs =
     with_payload_guard (map (\<lambda>r. (loc_backend (rep_location r), rep_content_hash r)) rs)
       (rollback_replicas_under_guard E rs)"

fun store_on_all ::
  "'w environment \<Rightarrow> reclaim_object \<Rightarrow> bytes \<Rightarrow> content_hash \<Rightarrow> int \<Rightarrow> (nat \<times> string) list \<Rightarrow> replica list
   \<Rightarrow> ('w, replica list) cop" where
  "store_on_all E obj data h now [] out = returnS out"
| "store_on_all E obj data h now ((idx, t) # ts) out =
     bindS (attempt_op (store_payload_on_backend E obj t data h now idx)) (\<lambda>x. case x of
       Inr r \<Rightarrow> store_on_all E obj data h now ts (out @ [r])
     | Inl e \<Rightarrow> bindS (rollback_replicas_under_guard E out) (\<lambda>_. failS e))"

definition store_payload ::
  "'w environment \<Rightarrow> reclaim_object \<Rightarrow> string \<Rightarrow> bytes \<Rightarrow> string list \<Rightarrow> ('w, replica list) cop" where
  "store_payload E obj target data extra =
     bindS (read_clock E) (\<lambda>now.
     let h = hash_of (env_sha E) data; targets = distinct_targets target extra in
     with_payload_guard (map (\<lambda>t. (t, h)) targets) (store_on_all E obj data h now (enumerate 0 targets) []))"

definition creation_audits :: "int \<Rightarrow> bool \<Rightarrow> reclaim_object \<Rightarrow> audit_entry list" where
  "creation_audits now has_payload obj =
     object_audit now ''coordinator'' ''OBJECT_CREATED'' obj None
       (if has_payload then None else Some (state_str Created)) None None
       (JObject [(''class'', JString (obj_class obj)), (''logical_size'', JInt (int (logical_size obj))),
         (''registered_state'', JString (state_str Created))]) #
     (if has_payload
      then [object_audit now ''coordinator'' ''OBJECT_PROMOTED_HOT'' obj (Some (state_str Created))
        (Some (state_str Hot)) None None (JObject [])]
      else [])"

text \<open>The object as it is published, with its replicas.\<close>

definition place_payload ::
  "'w environment \<Rightarrow> create_object_request \<Rightarrow> reclaim_object \<Rightarrow> (bytes \<times> content_hash \<times> string) option
   \<Rightarrow> ('w, reclaim_object \<times> replica list) cop" where
  "place_payload E q obj prep =
     (case prep of
        None \<Rightarrow> returnS (obj, [])
      | Some (data, h, target) \<Rightarrow>
          let obj' = obj\<lparr>obj_content_hash := Some h, physical_size := length data\<rparr> in
          bindS (store_payload E obj' target data (cr_replicate_to q)) (\<lambda>rs.
          if length rs > U32_MAX then failS (InvalidArgument [Lit ''replica count exceeds u32''])
          else returnS (obj'\<lparr>replication_count := length rs, obj_state := Hot\<rparr>, rs)))"

definition create_object_op :: "'w environment \<Rightarrow> create_object_request \<Rightarrow> ('w, reclaim_object) cop" where
  "create_object_op E q =
     bindS (liftS (validate_object (cr_object q))) (\<lambda>_.
     with_object E (id (cr_object q)) (
       bindS (liftS (prepare_payload E q (cr_object q))) (\<lambda>prep.
       bindS (asked E (get_object (id (cr_object q)))) (\<lambda>old.
       if old \<noteq> None
       then failS (InvalidArgument [Lit ''object '', Uid (id (cr_object q)), Lit '' already exists''])
       else
         bindS (read_clock E) (\<lambda>now.
         let obj0 = (cr_object q)\<lparr>obj_state := Created\<rparr>;
             obj1 = (if created_at_ms obj0 = 0 then obj0\<lparr>created_at_ms := now, last_access_ms := now\<rparr> else obj0) in
         bindS (place_payload E q obj1 prep) (\<lambda>(obj, rs).
         bindS (attempt_op (locked E (create_object_with_audits obj (creation_audits now (prep \<noteq> None) obj)))) (\<lambda>r. case r of
           Inr _ \<Rightarrow> returnS obj
         | Inl e \<Rightarrow>
             if rs \<noteq> []
             then fail_after ''object registration failed ('' ''); replica cleanup also failed ('' (rollback_replicas E rs) e
             else failS e)))))))"

subsection \<open>Progress of a metadata change\<close>

text \<open>
  A closure under the lock that records in flags how far it came, so that the error path can
  undo exactly that. Its state is the coordinator with the flags.
\<close>

definition step :: "('w, 'a) cop \<Rightarrow> ('f \<times> 'w coordinator, error, 'a) op" where
  "step m = (\<lambda>(f, c). case m c of (r, c') \<Rightarrow> (r, (f, c')))"

definition mark :: "('f \<Rightarrow> 'f) \<Rightarrow> ('f \<times> 'w coordinator, error, unit) op" where
  "mark g = (\<lambda>(f, c). (Inr (), (g f, c)))"

definition with_progress ::
  "'w environment \<Rightarrow> 'f \<Rightarrow> ('f \<times> 'w coordinator, error, 'a) op \<Rightarrow> ('w, 'a result \<times> 'f) cop" where
  "with_progress E f0 m =
     bindS (attempt_op (with_inner E (\<lambda>c. case m (f0, c) of (r, (f, c')) \<Rightarrow> (Inr (r, f), c')))) (\<lambda>x.
     returnS (case x of Inl e \<Rightarrow> (Inl e, f0) | Inr y \<Rightarrow> y))"

subsection \<open>Compression\<close>

definition COMPRESSION_ORIGINAL_SIZE_KEY :: string where
  "COMPRESSION_ORIGINAL_SIZE_KEY = ''reclaim_fabric.internal.compression_original_size''"

record compress_flags =
  new_ref_recorded :: bool
  old_ref_released :: bool
  old_replica_deleted :: bool
  new_replica_added :: bool

text \<open>What the metadata change of a compression needs to know.\<close>

record compress_plan =
  cp_primary :: replica
  cp_replica :: replica
  cp_existing :: "dedup_entry option"
  cp_old_dedup :: "dedup_entry option"
  cp_updated :: reclaim_object
  cp_audit :: audit_entry

definition compress_metadata :: "compress_plan \<Rightarrow> (compress_flags \<times> 'w coordinator, error, unit) op" where
  "compress_metadata p =
     (let old_h = rep_content_hash (cp_primary p); new_h = rep_content_hash (cp_replica p);
          b = loc_backend (rep_location (cp_primary p)) in
      bindS (if old_h \<noteq> new_h
        then
          bindS (step (on_store (if cp_existing p \<noteq> None then dedup_acquire new_h b
            else insert_dedup (new_dedup new_h b (loc_key (rep_location (cp_replica p))) (rep_size (cp_replica p)))))) (\<lambda>_.
          bindS (mark (\<lambda>f. f\<lparr>new_ref_recorded := True\<rparr>)) (\<lambda>_.
          if cp_old_dedup p \<noteq> None
          then bindS (step (on_store (dedup_release old_h b))) (\<lambda>_. mark (\<lambda>f. f\<lparr>old_ref_released := True\<rparr>))
          else returnS ()))
        else returnS ()) (\<lambda>_.
      bindS (step (on_store (delete_replica (replica_id (cp_primary p))))) (\<lambda>_.
      bindS (mark (\<lambda>f. f\<lparr>old_replica_deleted := True\<rparr>)) (\<lambda>_.
      bindS (step (on_store (add_replica (cp_replica p)))) (\<lambda>_.
      bindS (mark (\<lambda>f. f\<lparr>new_replica_added := True\<rparr>)) (\<lambda>_.
      step (on_store (update_object_with_audit (cp_updated p) (cp_audit p)))))))))"

definition undo_compress :: "'w environment \<Rightarrow> compress_plan \<Rightarrow> compress_flags \<Rightarrow> ('w, unit) cop" where
  "undo_compress E p f =
     with_inner E (on_store (
       bindS (if new_replica_added f then delete_replica (replica_id (cp_replica p)) else returnS ()) (\<lambda>_.
       bindS (if old_replica_deleted f then add_replica (cp_primary p) else returnS ()) (\<lambda>_.
       bindS (if old_ref_released f
         then
           bindS (liftS (ok_or (cp_old_dedup p) (Dedup [Lit ''missing source dedup rollback snapshot'']))) (\<lambda>old.
           bindS (askS (\<lambda>s. Inr (get_dedup (de_content_hash old) (de_backend old) s))) (\<lambda>there.
           if there \<noteq> None then dedup_acquire (de_content_hash old) (de_backend old) else insert_dedup old))
         else returnS ()) (\<lambda>_.
       if new_ref_recorded f
       then bindS (dedup_release (rep_content_hash (cp_replica p)) (loc_backend (rep_location (cp_primary p)))) (\<lambda>_. returnS ())
       else returnS ())))))"

text \<open>The canonical key of the compressed payload, written when it is new.\<close>

definition place_compressed ::
  "'w environment \<Rightarrow> string \<Rightarrow> replica \<Rightarrow> bytes \<Rightarrow> content_hash \<Rightarrow> ('w, dedup_entry option \<times> string \<times> bool \<times> string option) cop" where
  "place_compressed E b primary bytes h =
     bindS (asked E (\<lambda>s. Inr (get_dedup h b s))) (\<lambda>existing.
     bindS (case existing of
         Some en \<Rightarrow> bindS (verified_canonical E h b en) (\<lambda>_. returnS (de_key en, False))
       | None \<Rightarrow> returnS (loc_key (rep_location primary) @ ''-zstd'', True)) (\<lambda>(key, fresh).
     bindS (node_for_backend E b) (\<lambda>own.
     if \<not> fresh then returnS (existing, key, fresh, own)
     else
       bindS (attempt_op (write_payload_to E b key bytes)) (\<lambda>r. case r of
         Inr _ \<Rightarrow> returnS (existing, key, fresh, own)
       | Inl e \<Rightarrow> fail_after ''compressed payload write failed ('' ''); partial payload cleanup also failed (''
           (delete_payload E b key) e))))"

text \<open>The reference of the source, which the change releases.\<close>

definition source_dedup ::
  "'w environment \<Rightarrow> string \<Rightarrow> replica \<Rightarrow> string \<Rightarrow> bool \<Rightarrow> ('w, dedup_entry option) cop" where
  "source_dedup E b primary key fresh =
     (if rep_content_hash primary = hash_empty (env_sha E) then returnS None
      else
        bindS (asked E (\<lambda>s. Inr (get_dedup (rep_content_hash primary) b s))) (\<lambda>x.
        bindS (liftS (ok_or x (Dedup [Lit ''missing source dedup row for '', Hsh (rep_content_hash primary),
          Lit '' on '', Str b]))) (\<lambda>en.
        if de_key en \<noteq> loc_key (rep_location primary)
        then
          bindS (if fresh then bindS (attempt_op (delete_payload E b key)) (\<lambda>_. returnS ()) else returnS ()) (\<lambda>_.
          failS (Dedup [Lit ''source dedup key '', Str (de_key en), Lit '' disagrees with replica key '',
            Str (loc_key (rep_location primary))]))
        else returnS (Some en))))"

definition compress_detail :: "compression_result \<Rightarrow> content_hash \<Rightarrow> string \<Rightarrow> json" where
  "compress_detail res h key =
     JObject [(''codec'', JString (cr_codec res)), (''compressed_hash'', JString (hash_str h)),
       (''compressed_size'', JInt (int (cr_compressed_size res))), (''key'', JString key),
       (''original_size'', JInt (int (original_size res)))]"

text \<open>The commit of the metadata, its rollback, and the removal of the obsolete source.\<close>

definition commit_compress ::
  "'w environment \<Rightarrow> compress_plan \<Rightarrow> bool \<Rightarrow> ('w, unit) cop" where
  "commit_compress E p fresh =
     (let b = loc_backend (rep_location (cp_primary p)) in
      bindS (with_progress E \<lparr>new_ref_recorded = False, old_ref_released = False, old_replica_deleted = False,
          new_replica_added = False\<rparr> (compress_metadata p)) (\<lambda>(res, f). case res of
        Inl e \<Rightarrow>
          bindS (attempt_op (undo_compress E p f)) (\<lambda>undone.
          bindS (if fresh then bindS (attempt_op (delete_payload E b (loc_key (rep_location (cp_replica p))))) (\<lambda>_. returnS ())
            else returnS ()) (\<lambda>_.
          case undone of
            Inr _ \<Rightarrow> failS e
          | Inl x \<Rightarrow> failS (Internal ([Lit ''compression metadata failed (''] @ display e @
              [Lit ''); rollback also failed (''] @ display x @ [Lit '')'']))))
      | Inr _ \<Rightarrow>
          if (case cp_old_dedup p of Some en \<Rightarrow> ref_count en = 1 | None \<Rightarrow> False) \<and>
            rep_content_hash (cp_primary p) \<noteq> rep_content_hash (cp_replica p)
          then
            bindS (attempt_op (delete_payload E b (loc_key (rep_location (cp_primary p))))) (\<lambda>r. case r of
              Inr _ \<Rightarrow> returnS ()
            | Inl e \<Rightarrow> with_inner E (bindS (read_clock E) (\<lambda>now. on_store (insert_failure \<lparr>f_id = 0, f_ts_ms = now,
                f_object_id = Some (id (cp_updated p)), f_attempt_id = None,
                f_kind = ''COMPRESSION_SOURCE_CLEANUP_FAILED'', f_message = display e, recovered = False\<rparr>))))
          else returnS ()))"

definition live_payload :: "(replica \<Rightarrow> bool) \<Rightarrow> uuid \<Rightarrow> replica list \<Rightarrow> replica result" where
  "live_payload P i rs =
     ok_or (find (\<lambda>r. valid r \<and> loc_kind (rep_location r) \<noteq> ArchivedKind \<and> P r) rs)
       (NotFound [Lit ''no live payload for '', Uid i])"

definition compress_under_guard ::
  "'w environment \<Rightarrow> string \<Rightarrow> reclaim_object \<Rightarrow> replica \<Rightarrow> bytes \<Rightarrow> compression_result \<Rightarrow> content_hash
   \<Rightarrow> ('w, compression_result) cop" where
  "compress_under_guard E who obj primary bytes res h =
     (let b = loc_backend (rep_location primary) in
      bindS (place_compressed E b primary bytes h) (\<lambda>(existing, key, fresh, own).
      bindS (source_dedup E b primary key fresh) (\<lambda>old_dedup.
      let updated = obj\<lparr>compressed_size := Some (cr_compressed_size res), obj_state := Compressed,
            physical_size := cr_compressed_size res,
            app_metadata := bt_insert COMPRESSION_ORIGINAL_SIZE_KEY (JInt (int (original_size res))) (app_metadata obj)\<rparr> in
      bindS (new_v4 E) (\<lambda>rid.
      bindS (read_clock E) (\<lambda>created.
      bindS (read_clock E) (\<lambda>verified.
      bindS (read_clock E) (\<lambda>now.
      bindS (commit_compress E
        \<lparr>cp_primary = primary,
         cp_replica = new_replica obj rid b key (loc_kind (rep_location primary)) (cr_compressed_size res) h created verified own,
         cp_existing = existing, cp_old_dedup = old_dedup, cp_updated = updated,
         cp_audit = object_audit now who ''OBJECT_COMPRESSED'' obj (Some (state_str (obj_state obj)))
           (Some (state_str Compressed)) None None (compress_detail res h key)\<rparr> fresh) (\<lambda>_.
      returnS res))))))))"

definition compress_op :: "'w environment \<Rightarrow> 'w services \<Rightarrow> uuid \<Rightarrow> string \<Rightarrow> ('w, compression_result) cop" where
  "compress_op E X i who = with_object E i (
     bindS (asked E (require_object i)) (\<lambda>obj.
     if obj_state obj = Compressed then failS (InvalidArgument [Lit ''object is already COMPRESSED''])
     else if COMPRESSION_ORIGINAL_SIZE_KEY \<in> fst ` set (app_metadata obj)
     then failS (InvalidArgument [Lit ''application metadata key '', Dbg COMPRESSION_ORIGINAL_SIZE_KEY, Lit '' is reserved''])
     else
       bindS (liftS (check_transition (obj_state obj) Compressed)) (\<lambda>_.
       bindS (asked E (replicas_for i)) (\<lambda>rs.
       bindS (liftS (live_payload (\<lambda>r. case obj_content_hash obj of Some h \<Rightarrow> rep_content_hash r = h | None \<Rightarrow> True) i rs)) (\<lambda>primary.
       bindS (read_payload E (loc_backend (rep_location primary)) (loc_key (rep_location primary))) (\<lambda>data.
       bindS (liftS (verify_sha256 (env_sha E) data (rep_content_hash primary))) (\<lambda>_.
       bindS (liftS (compress_verified_with_bytes (env_sha E) (crc_fun X) (default_zstd (zstd_lib X)) data)) (\<lambda>(bytes, res).
       if (case obj_content_hash obj of Some h \<Rightarrow> h \<noteq> original_hash res | None \<Rightarrow> False)
       then failS (IntegrityFailure [Lit ''object content hash '', Hsh (the (obj_content_hash obj)),
         Lit '' does not match source replica '', Hsh (original_hash res)])
       else
         let h = hash_of (env_sha E) bytes; b = loc_backend (rep_location primary) in
         with_payload_guard [(b, rep_content_hash primary), (b, h)]
           (compress_under_guard E who obj primary bytes res h)))))))))"

subsection \<open>Archiving\<close>

text \<open>\<open>serde_json::Value::as_u64\<close>.\<close>

definition as_u64 :: "json \<Rightarrow> nat option" where
  "as_u64 j = (case j of JInt n \<Rightarrow> if 0 \<le> n \<and> n \<le> 18446744073709551615 then Some (nat n) else None | _ \<Rightarrow> None)"

definition recorded_size :: "reclaim_object \<Rightarrow> nat option" where
  "recorded_size obj = Option.bind (map_of (app_metadata obj) COMPRESSION_ORIGINAL_SIZE_KEY) as_u64"

definition no_recorded_size :: "uuid \<Rightarrow> error" where
  "no_recorded_size i = IntegrityFailure [Lit ''compressed object '', Uid i,
     Lit '' has no valid persisted original byte length'']"

text \<open>The commit of a written archive: its record, then the object, each undone on an error.\<close>

definition commit_archive ::
  "'w environment \<Rightarrow> string \<Rightarrow> reclaim_object \<Rightarrow> archive_record \<Rightarrow> ('w, archive_record) cop" where
  "commit_archive E who obj a =
     bindS (attempt_op (locked E (insert_archive a))) (\<lambda>r. case r of
       Inl e \<Rightarrow> fail_after ''archive metadata insert failed ('' ''); archive payload cleanup also failed (''
         (on_world (archive_drop E (ar_backend a) (ar_key a))) e
     | Inr _ \<Rightarrow>
         bindS (attempt_op (with_inner E (bindS (read_clock E) (\<lambda>now.
           on_store (update_object_with_audit (obj\<lparr>obj_state := Archived\<rparr>) (object_audit now who ''OBJECT_ARCHIVED'' obj
             (Some (state_str (obj_state obj))) (Some (state_str Archived)) None None
             (JObject [(''archive_id'', JString (archive_id a)), (''archive_key'', JString (ar_key a)),
               (''size'', JInt (int (ar_size a)))]))))))) (\<lambda>r. case r of
           Inr _ \<Rightarrow> returnS a
         | Inl e \<Rightarrow>
             bindS (attempt_op (locked E (delete_archive (archive_id a)))) (\<lambda>x. case x of
               Inl cleanup \<Rightarrow> failS (Internal ([Lit ''archive object commit failed (''] @ display e @
                 [Lit ''); archive-row cleanup also failed (''] @ display cleanup @ [Lit '')'']))
             | Inr _ \<Rightarrow> fail_after ''archive object commit failed ('' ''); archive payload cleanup also failed (''
                 (on_world (archive_drop E (ar_backend a) (ar_key a))) e)))"

definition archive_op :: "'w environment \<Rightarrow> 'w services \<Rightarrow> uuid \<Rightarrow> string \<Rightarrow> ('w, archive_record) cop" where
  "archive_op E X i who = with_object E i (
     bindS (asked E (require_object i)) (\<lambda>obj.
     if obj_state obj = Archived
     then
       bindS (asked E (\<lambda>s. Inr (archives_for i s))) (\<lambda>as.
       if as = [] then failS (IntegrityFailure [Lit ''object '', Uid i, Lit '' is ARCHIVED without an archive record''])
       else returnS (last as))
     else
       bindS (liftS (check_transition (obj_state obj) Archived)) (\<lambda>_.
       bindS (asked E (replicas_for i)) (\<lambda>rs.
       bindS (liftS (live_payload (\<lambda>r. if compressed_size obj \<noteq> None then obj_content_hash obj \<noteq> Some (rep_content_hash r)
         else obj_content_hash obj = Some (rep_content_hash r)) i rs)) (\<lambda>primary.
       if compressed_size obj \<noteq> None \<and> recorded_size obj = None then failS (no_recorded_size i)
       else
         bindS (read_payload E (loc_backend (rep_location primary)) (loc_key (rep_location primary))) (\<lambda>data.
         bindS (liftS (verify_sha256 (env_sha E) data (rep_content_hash primary))) (\<lambda>_.
         let h = hash_of (env_sha E) data in
         bindS (askS (\<lambda>c. case co_archives c of
             [] \<Rightarrow> Inl (ArchiveFailure [Lit ''no archive backend configured'']) | a # _ \<Rightarrow> Inr a)) (\<lambda>a.
         let key = uuid_text E (id obj) @ ''/'' @ show_nat (generation obj) @ ''/gen'' @ uuid_text E (replica_id primary) in
         bindS (on_world (archive_put X a key data h)) (\<lambda>sz.
         bindS (new_v4 E) (\<lambda>aid.
         bindS (read_clock E) (\<lambda>now.
         commit_archive E who obj \<lparr>archive_id = uuid_text E aid, ar_object_id = id obj, ar_generation = generation obj,
           ar_backend = a, ar_key = key, ar_size = sz, ar_content_hash = h, ar_created_at_ms = now\<rparr>)))))))))))"

subsection \<open>Restoration\<close>

text \<open>The payload of the object from the archived bytes, verified against every recorded hash.\<close>

definition restored_bytes ::
  "'w environment \<Rightarrow> 'w services \<Rightarrow> reclaim_object \<Rightarrow> archive_record \<Rightarrow> bytes \<Rightarrow> bytes result" where
  "restored_bytes E X obj a bytes =
     (if compressed_size obj \<noteq> None \<and> obj_content_hash obj \<noteq> None \<and> obj_content_hash obj \<noteq> Some (ar_content_hash a)
      then
        bindr (ok_or (recorded_size obj) (no_recorded_size (id obj))) (\<lambda>n.
        bindr (codec_decompress_bounded (default_zstd (zstd_lib X)) bytes n) (\<lambda>restored.
        if length restored \<noteq> n
        then Inl (IntegrityFailure [Lit ''restored byte length '', Num (int (length restored)),
          Lit '' does not match persisted original length '', Num (int n)])
        else
          bindr (ok_or (obj_content_hash obj)
            (IntegrityFailure [Lit ''compressed object has no original content hash''])) (\<lambda>h.
          bindr (verify_sha256 (env_sha E) restored h) (\<lambda>_. Inr restored))))
      else
        bindr (case obj_content_hash obj of Some h \<Rightarrow> verify_sha256 (env_sha E) bytes h | None \<Rightarrow> Inr ()) (\<lambda>_. Inr bytes))"

definition restored_object :: "reclaim_object \<Rightarrow> nat \<Rightarrow> reclaim_object" where
  "restored_object obj sz = obj\<lparr>obj_state := Warm, physical_size := sz, compressed_size := None,
     app_metadata := bt_remove COMPRESSION_ORIGINAL_SIZE_KEY (app_metadata obj)\<rparr>"

definition restored_audit :: "int \<Rightarrow> string \<Rightarrow> reclaim_object \<Rightarrow> json \<Rightarrow> audit_entry" where
  "restored_audit now who obj d =
     object_audit now who ''OBJECT_RESTORED'' obj (Some (state_str Archived)) (Some (state_str Warm)) None None d"

definition count_u32 :: "nat \<Rightarrow> nat result" where
  "count_u32 n = (if n > U32_MAX then Inl (InvalidArgument [Lit ''replica count exceeds u32'']) else Inr n)"

definition restore_existing ::
  "'w environment \<Rightarrow> string \<Rightarrow> reclaim_object \<Rightarrow> content_hash \<Rightarrow> replica \<Rightarrow> ('w, reclaim_object) cop" where
  "restore_existing E who obj h hot =
     bindS (read_payload E (loc_backend (rep_location hot)) (loc_key (rep_location hot))) (\<lambda>bytes.
     bindS (liftS (verify_sha256 (env_sha E) bytes h)) (\<lambda>_.
     bindS (asked E (\<lambda>s. Inr (valid_replica_count (id obj) s))) (\<lambda>n.
     bindS (liftS (count_u32 n)) (\<lambda>n'.
     let restored = (restored_object obj (rep_size hot))\<lparr>replication_count := n'\<rparr> in
     bindS (with_inner E (
       bindS (on_store (update_object restored)) (\<lambda>_.
       bindS (read_clock E) (\<lambda>now.
       on_store (append_audit (restored_audit now who obj (JObject [(''backend'', JString (loc_backend (rep_location hot))),
         (''key'', JString (loc_key (rep_location hot))), (''reused_existing'', JBool True)]))))))) (\<lambda>_.
     returnS restored)))))"

text \<open>The first memory backend, else the first file backend, in the order of their ids.\<close>

definition hot_backend :: "'w services \<Rightarrow> ('w, string) cop" where
  "hot_backend X = askS (\<lambda>c.
     let kinds = map (\<lambda>i. (backend_kind X (world c) i, i)) (sort (co_backends c));
         cands = map (\<lambda>(k, i). (if k = ''memory'' then 0 else 1 :: nat, i)) (filter (\<lambda>(k, i). k = ''memory'' \<or> k = ''file'') kinds)
     in case sort cands of [] \<Rightarrow> Inl (Backend [Lit ''no hot backend configured'']) | (_, i) # _ \<Rightarrow> Inr i)"

record restore_flags =
  dedup_recorded :: bool
  replica_recorded :: bool
  object_updated :: bool

definition restore_metadata ::
  "'w environment \<Rightarrow> string \<Rightarrow> reclaim_object \<Rightarrow> replica \<Rightarrow> dedup_entry option
   \<Rightarrow> (restore_flags \<times> 'w coordinator, error, reclaim_object) op" where
  "restore_metadata E who obj r existing =
     (let h = rep_content_hash r; b = loc_backend (rep_location r) in
      bindS (step (on_store (if existing \<noteq> None then dedup_acquire h b
        else insert_dedup (new_dedup h b (loc_key (rep_location r)) (rep_size r))))) (\<lambda>_.
      bindS (mark (\<lambda>f. f\<lparr>dedup_recorded := True\<rparr>)) (\<lambda>_.
      bindS (step (on_store (add_replica r))) (\<lambda>_.
      bindS (mark (\<lambda>f. f\<lparr>replica_recorded := True\<rparr>)) (\<lambda>_.
      bindS (step (on_store (askS (\<lambda>s. count_u32 (valid_replica_count (id obj) s))))) (\<lambda>n.
      let restored = (restored_object obj (rep_size r))\<lparr>replication_count := n\<rparr> in
      bindS (step (on_store (update_object restored))) (\<lambda>_.
      bindS (mark (\<lambda>f. f\<lparr>object_updated := True\<rparr>)) (\<lambda>_.
      bindS (step (read_clock E)) (\<lambda>now.
      bindS (step (on_store (append_audit (restored_audit now who obj (JObject [(''backend'', JString b),
        (''key'', JString (loc_key (rep_location r)))]))))) (\<lambda>_.
      returnS restored))))))))))"

definition undo_restore ::
  "'w environment \<Rightarrow> reclaim_object \<Rightarrow> replica \<Rightarrow> bool \<Rightarrow> restore_flags \<Rightarrow> ('w, bool) cop" where
  "undo_restore E obj r wrote f =
     with_inner E (on_store (
       bindS (if object_updated f then update_object obj else returnS ()) (\<lambda>_.
       bindS (if replica_recorded f then delete_replica (replica_id r) else returnS ()) (\<lambda>_.
       if dedup_recorded f then dedup_release (rep_content_hash r) (loc_backend (rep_location r)) else returnS wrote))))"

definition commit_restore ::
  "'w environment \<Rightarrow> string \<Rightarrow> reclaim_object \<Rightarrow> replica \<Rightarrow> dedup_entry option \<Rightarrow> bool \<Rightarrow> ('w, reclaim_object) cop" where
  "commit_restore E who obj r existing wrote =
     bindS (with_progress E \<lparr>dedup_recorded = False, replica_recorded = False, object_updated = False\<rparr>
       (restore_metadata E who obj r existing)) (\<lambda>(res, f). case res of
       Inr restored \<Rightarrow> returnS restored
     | Inl e \<Rightarrow>
         bindS (undo_restore E obj r wrote f) (\<lambda>gone.
         if gone then fail_after ''restore metadata failed ('' ''); payload cleanup also failed (''
           (delete_payload E (loc_backend (rep_location r)) (loc_key (rep_location r))) e
         else failS e))"

definition dashed :: "string \<Rightarrow> string" where
  "dashed key = map (\<lambda>c. if c = CHR ''/'' \<or> c = CHR 0x5C then CHR ''-'' else c) key"

definition restore_fresh ::
  "'w environment \<Rightarrow> string \<Rightarrow> reclaim_object \<Rightarrow> archive_record \<Rightarrow> bytes \<Rightarrow> content_hash \<Rightarrow> string \<Rightarrow> ('w, reclaim_object) cop" where
  "restore_fresh E who obj a data h b =
     bindS (asked E (\<lambda>s. Inr (get_dedup h b s))) (\<lambda>existing.
     bindS (case existing of
         Some en \<Rightarrow> bindS (verified_canonical E h b en) (\<lambda>_. returnS (de_key en, False))
       | None \<Rightarrow>
           let key = dashed (ar_key a) @ ''-restored'' in
           bindS (write_payload_to E b key data) (\<lambda>_. returnS (key, True))) (\<lambda>(key, wrote).
     bindS (new_v4 E) (\<lambda>rid.
     bindS (read_clock E) (\<lambda>created.
     bindS (read_clock E) (\<lambda>verified.
     bindS (node_for_backend E b) (\<lambda>own.
     commit_restore E who obj (new_replica obj rid b key HotKind (length data) h created verified own) existing wrote))))))"

definition restore_op :: "'w environment \<Rightarrow> 'w services \<Rightarrow> uuid \<Rightarrow> string \<Rightarrow> ('w, reclaim_object) cop" where
  "restore_op E X i who = with_object E i (
     bindS (asked E (require_object i)) (\<lambda>obj.
     if obj_state obj \<noteq> Archived then failS (InvalidArgument [Lit ''object '', Uid (id obj), Lit '' is not ARCHIVED''])
     else
       bindS (asked E (\<lambda>s. Inr (archives_for i s))) (\<lambda>as.
       bindS (liftS (if as = [] then Inl (NotFound [Lit ''no archive record for '', Uid i]) else Inr (last as))) (\<lambda>a.
       bindS (askS (\<lambda>c. if ar_backend a \<in> set (co_archives c) then Inr ()
         else Inl (ArchiveFailure [Lit ''archive backend '', Str (ar_backend a), Lit '' unavailable'']))) (\<lambda>_.
       bindS (on_world (archive_get X (ar_backend a) (ar_key a))) (\<lambda>bytes.
       bindS (liftS (verify_sha256 (env_sha E) bytes (ar_content_hash a))) (\<lambda>_.
       bindS (liftS (restored_bytes E X obj a bytes)) (\<lambda>data.
       let h = hash_of (env_sha E) data in
       bindS (asked E (replicas_for i)) (\<lambda>rs.
       case find (\<lambda>r. valid r \<and> loc_kind (rep_location r) \<noteq> ArchivedKind \<and> rep_content_hash r = h) rs of
         Some hot \<Rightarrow> restore_existing E who obj h hot
       | None \<Rightarrow>
           bindS (hot_backend X) (\<lambda>b.
           with_payload_guard [(b, h)] (restore_fresh E who obj a data h b)))))))))))"

subsection \<open>Verification\<close>

definition invalidate_shared :: "replica \<Rightarrow> unit sop" where
  "invalidate_shared r =
     bindS (askS all_replicas) (\<lambda>rs.
     forS (filter (\<lambda>x. valid x \<and> loc_backend (rep_location x) = loc_backend (rep_location r) \<and>
         loc_key (rep_location x) = loc_key (rep_location r) \<and> rep_content_hash x = rep_content_hash r) rs)
       (\<lambda>x. update_replica (x\<lparr>valid := False\<rparr>)))"

definition verify_replica :: "'w environment \<Rightarrow> reclaim_object \<Rightarrow> replica \<Rightarrow> ('w, json) cop" where
  "verify_replica E obj r =
     bindS (attempt_op (bindS (read_payload E (loc_backend (rep_location r)) (loc_key (rep_location r))) (\<lambda>data.
       liftS (verify_sha256 (env_sha E) data (rep_content_hash r))))) (\<lambda>x. case x of
       Inr _ \<Rightarrow>
         bindS (read_clock E) (\<lambda>now.
         bindS (locked E (update_replica (r\<lparr>verified_at_ms := Some now, valid := True\<rparr>))) (\<lambda>_.
         returnS (JObject [(''ok'', JBool True), (''replica'', JString (uuid_text E (replica_id r)))])))
     | Inl e \<Rightarrow>
         bindS (with_inner E (
           bindS (on_store (invalidate_shared r)) (\<lambda>_.
           bindS (read_clock E) (\<lambda>now.
           on_store (insert_failure \<lparr>f_id = 0, f_ts_ms = now, f_object_id = Some (id obj), f_attempt_id = None,
             f_kind = ''INTEGRITY_FAILURE'', f_message = display e, recovered = False\<rparr>))))) (\<lambda>_.
         returnS (JObject [(''error'', JString (msg_text E (display e))), (''ok'', JBool False),
           (''replica'', JString (uuid_text E (replica_id r)))])))"

fun verify_all :: "'w environment \<Rightarrow> reclaim_object \<Rightarrow> replica list \<Rightarrow> json list \<Rightarrow> ('w, json list) cop" where
  "verify_all E obj [] out = returnS out"
| "verify_all E obj (r # rs) out = bindS (verify_replica E obj r) (\<lambda>j. verify_all E obj rs (out @ [j]))"

definition verify_op :: "'w environment \<Rightarrow> uuid \<Rightarrow> string \<Rightarrow> ('w, json) cop" where
  "verify_op E i who = with_object E i (
     bindS (asked E (require_object i)) (\<lambda>obj.
     bindS (asked E (replicas_for i)) (\<lambda>rs.
     with_payload_guard (map (\<lambda>r. (loc_backend (rep_location r), rep_content_hash r)) rs) (
       bindS (verify_all E obj rs []) (\<lambda>results.
       bindS (with_inner E (bindS (read_clock E) (\<lambda>now. on_store (append_audit (object_audit now who ''OBJECT_VERIFIED'' obj
         None None None None (JObject [(''results'', JArray results)])))))) (\<lambda>_.
       returnS (JObject [(''object_id'', JString (uuid_text E (id obj))), (''results'', JArray results)])))))))"

end
