(* ===== verification/PayloadInvariants.thy ===== *)
theory PayloadInvariants
  imports Payloads
begin

section \<open>What the payload operations keep\<close>

text \<open>
  The payload operations under the contracts of the coordinator: they are runs of the store,
  and they release their guards on every way out.
\<close>

lemma stepwise_payload_ops [stepwise_intros]:
  "stepwise (add_replica r)" "stepwise (update_replica r)" "stepwise (insert_dedup en)" "stepwise (dedup_acquire h b)"
  "stepwise (insert_archive a)" "stepwise (update_object obj)" "stepwise (create_object_with_audits obj as)"
  "stepwise (upsert_policy p)" "stepwise (release_coordinator pid boot ep)"
  by (rule stepwise_step, rule store_step.intros)+

lemma stepwise_rollback_rows [stepwise_intros]: "stepwise (rollback_rows rs acc)"
  by (induction rs arbitrary: acc) (simp_all add: stepwise_intros)

lemma stepwise_invalidate [stepwise_intros]: "stepwise (invalidate_shared r)"
  unfolding invalidate_shared_def by (intro stepwise_intros)

subsection \<open>Progress\<close>

definition on_progress :: "('w coordinator \<Rightarrow> bool) \<Rightarrow> 'f \<times> 'w coordinator \<Rightarrow> bool" where
  "on_progress I x \<longleftrightarrow> I (snd x)"

lemma keeps_lifted: "keeps I m \<Longrightarrow> keeps (on_progress I) (step m)"
  by (auto simp: keeps_def on_progress_def step_def split: prod.splits)

lemma keeps_mark: "keeps (on_progress I) (mark g)"
  by (auto simp: keeps_def on_progress_def mark_def)

lemma keeps_pair: "(\<And>a b. keeps I (f a b)) \<Longrightarrow> keeps I (case x of (a, b) \<Rightarrow> f a b)"
  by (cases x) simp

lemma keeps_let: "keeps I (f x) \<Longrightarrow> keeps I (let y = x in f y)"
  by simp

context coordinator_notes
begin

lemma c_fail_after: "keeps I cleanup \<Longrightarrow> keeps I (fail_after what also cleanup e)"
  unfolding fail_after_def by (intro keeps_intros keeps_attempt keeps_sum)

lemma c_write_result: "keeps I (write_result E b key data)"
  unfolding write_result_def Let_def by (intro keeps_intros c_access)

lemma c_write_payload: "keeps I (write_payload_to E b key data)"
  unfolding write_payload_to_def
  by (intro keeps_intros keeps_sum keeps_attempt c_write_result c_delete_payload)

lemma c_verified_canonical: "keeps I (verified_canonical E h b en)"
  unfolding verified_canonical_def by (intro keeps_intros c_read_payload)

lemma c_with_progress:
  assumes "keeps (on_progress I) m"
  shows "keeps I (with_progress E f0 m)"
proof -
  have "keeps I (\<lambda>c. case m (f0, c) of (r, (f, c')) \<Rightarrow> (Inr (r, f), c'))"
  proof (rule keeps_by_result)
    fix c r c'
    assume "(case m (f0, c) of (r, (f, c')) \<Rightarrow> (Inr (r, f), c')) = (r, c')" and i: "I c"
    then obtain x f where m: "m (f0, c) = (x, (f, c'))" by (auto split: prod.splits)
    have "on_progress I (f0, c)" using i by (simp add: on_progress_def)
    from keepsE [OF assms m this] show "I c'" by (simp add: on_progress_def)
  qed
  then show ?thesis unfolding with_progress_def by (intro keeps_intros keeps_attempt c_with_inner)
qed

lemmas c_payload = c_fail_after c_write_payload c_verified_canonical c_read_payload c_delete_payload keeps_attempt keeps_sum
  keeps_pair c_access

end

context coordinator_commits
begin

lemma c_locked_store: "stepwise m \<Longrightarrow> keeps I (locked E m)"
  unfolding locked_def by (intro c_with_inner c_on_store)

lemma c_acquire_payload: "keeps I (acquire_payload E b data h idx existing)"
  unfolding acquire_payload_def Let_def by (intro keeps_intros c_payload c_locked_store stepwise_intros)

lemma c_locked_node: "keeps I (node_for_backend_locked b)"
  by (simp add: keeps_def node_for_backend_locked_def Let_def)

lemma c_store_payload_on_backend: "keeps I (store_payload_on_backend E obj b data h now idx)"
  unfolding store_payload_on_backend_def Let_def
  by (intro keeps_intros keeps_pair c_payload c_on_store c_locked_store c_locked_node stepwise_intros c_acquire_payload)

lemma c_rollback_under_guard: "keeps I (rollback_replicas_under_guard E rs)"
  unfolding rollback_replicas_under_guard_def
  by (intro keeps_intros keeps_pair c_delete_payload c_locked_store stepwise_intros)

lemma c_store_on_all: "keeps I (store_on_all E obj data h now ts out)"
  by (induction ts arbitrary: out)
    (auto intro!: keeps_intros keeps_sum keeps_attempt c_store_payload_on_backend c_rollback_under_guard)

lemma c_compress_metadata: "keeps (on_progress I) (compress_metadata p)"
  unfolding compress_metadata_def Let_def
  by (intro keeps_intros keeps_lifted keeps_mark c_on_store stepwise_intros)

lemma c_undo_compress: "keeps I (undo_compress E p f)"
  unfolding undo_compress_def by (intro c_with_inner c_on_store stepwise_intros)

lemma c_failure_note: "keeps I (with_inner E (bindS (read_clock E) (\<lambda>now. on_store (insert_failure (f now)))))"
  by (intro keeps_intros c_access c_on_store stepwise_intros)

lemma c_commit_compress: "keeps I (commit_compress E p fresh)"
  unfolding commit_compress_def Let_def
  by (intro keeps_intros keeps_pair keeps_sum keeps_attempt c_with_progress c_compress_metadata c_undo_compress
      c_delete_payload c_failure_note)

lemma c_place_compressed: "keeps I (place_compressed E b primary bytes h)"
  unfolding place_compressed_def by (intro keeps_intros c_payload)

lemma c_source_dedup: "keeps I (source_dedup E b primary key fresh)"
  unfolding source_dedup_def by (intro keeps_intros c_payload)

lemma c_compress_under_guard: "keeps I (compress_under_guard E who obj primary bytes res h)"
  unfolding compress_under_guard_def Let_def
  by (intro keeps_intros keeps_pair c_access c_place_compressed c_source_dedup c_commit_compress)

lemma c_commit_archive: "keeps I (commit_archive E who obj a)"
  unfolding commit_archive_def
  by (intro keeps_intros c_payload c_locked_store c_on_store stepwise_intros)

lemma c_restore_existing: "keeps I (restore_existing E who obj h hot)"
  unfolding restore_existing_def Let_def
  by (intro keeps_intros c_payload c_on_store stepwise_intros)

lemma c_restore_metadata: "keeps (on_progress I) (restore_metadata E who obj r existing)"
  unfolding restore_metadata_def Let_def
  by (intro keeps_intros keeps_lifted keeps_mark c_clock c_on_store stepwise_intros)

lemma c_commit_restore: "keeps I (commit_restore E who obj r existing wrote)"
  unfolding commit_restore_def undo_restore_def
  by (intro keeps_intros keeps_pair keeps_sum c_with_progress c_restore_metadata c_fail_after c_delete_payload
      c_with_inner c_on_store stepwise_intros)

lemma c_restore_fresh: "keeps I (restore_fresh E who obj a data h b)"
  unfolding restore_fresh_def Let_def
  by (intro keeps_intros keeps_pair c_payload c_commit_restore)

lemma c_verify_replica: "keeps I (verify_replica E obj r)"
  unfolding verify_replica_def
  by (intro keeps_intros c_payload c_locked_store c_on_store stepwise_intros)

lemma c_verify_all: "keeps I (verify_all E obj rs out)"
  by (induction rs arbitrary: out) (auto intro!: keeps_intros c_verify_replica)

end

subsection \<open>Guards\<close>

context coordinator_invariant
begin

lemma c_with_payload_guard: "keeps I body \<Longrightarrow> keeps I (with_payload_guard ks body)"
  unfolding with_payload_guard_def
  by (intro keeps_bind)
    (auto simp: keeps_def begin_payload_operations_def drop_payload_guard_def Let_def payloads split: prod.splits)

lemma c_store_payload: "keeps I (store_payload E obj target data extra)"
  unfolding store_payload_def Let_def by (intro keeps_intros c_access c_with_payload_guard c_store_on_all)

lemma c_place_payload: "keeps I (place_payload E q obj prep)"
  unfolding place_payload_def Let_def by (intro keeps_intros keeps_pair c_store_payload)

lemma c_rollback: "keeps I (rollback_replicas E rs)"
  unfolding rollback_replicas_def by (intro c_with_payload_guard c_rollback_under_guard)

lemma c_create: "keeps I (create_object_op E q)"
  unfolding create_object_op_def Let_def
  by (intro keeps_intros c_with_object keeps_pair keeps_sum keeps_attempt c_access c_place_payload c_locked_store
      stepwise_intros c_fail_after c_rollback)

lemma c_compress: "keeps I (compress_op E X i who)"
  unfolding compress_op_def Let_def
  by (intro c_with_object keeps_intros keeps_pair c_access c_read_payload c_with_payload_guard c_compress_under_guard)

lemma c_archive: "keeps I (archive_op E X i who)"
  unfolding archive_op_def Let_def
  by (intro c_with_object keeps_intros c_access c_read_payload c_commit_archive)

lemma c_restore: "keeps I (restore_op E X i who)"
  unfolding restore_op_def Let_def hot_backend_def
  by (intro c_with_object keeps_intros c_access c_with_payload_guard c_restore_existing c_restore_fresh)

lemma c_verify: "keeps I (verify_op E i who)"
  unfolding verify_op_def
  by (intro c_with_object keeps_intros c_access c_with_payload_guard c_verify_all c_on_store stepwise_intros)

lemmas c_payload_ops = c_create c_compress c_archive c_restore c_verify

end

lemma with_payload_guard_guards:
  assumes "\<And>ks'. keeps (guards_are xs ks') body"
  shows "keeps (guards_are xs ks) (with_payload_guard keys body)"
proof (rule keeps_by_result)
  fix c r c'
  assume w: "with_payload_guard keys body c = (r, c')" and g: "guards_are xs ks c"
  let ?k = "remdups (sort keys)"
  show "guards_are xs ks c'"
  proof (cases "begin_payload_operations keys c")
    case (Pair x c1)
    show ?thesis
    proof (cases x)
      case (Inl e)
      then have "c' = c" using w Pair
        by (auto simp: with_payload_guard_def begin_payload_operations_def Let_def bindS_apply split: if_splits)
      then show ?thesis using g by simp
    next
      case (Inr k)
      then have k: "k = ?k" "c1 = c\<lparr>active_payloads := ?k @ active_payloads c\<rparr>" "\<forall>q\<in>set ?k. q \<notin> set (active_payloads c)"
        using Pair by (auto simp: begin_payload_operations_def Let_def split: if_splits)
      obtain y c2 where b: "body c1 = (y, c2)" by fastforce
      have "guards_are xs (?k @ ks) c1" using g k by (simp add: guards_are_def)
      then have "guards_are xs (?k @ ks) c2" by (rule keepsE [OF assms b])
      moreover have "c' = drop_payload_guard ?k c2"
        using w Pair Inr k b by (auto simp: with_payload_guard_def bindS_apply)
      moreover have "filter (\<lambda>q. q \<notin> set ?k) (?k @ ks) = ks"
        using k(3) g by (auto simp: guards_are_def filter_id_conv)
      ultimately show ?thesis by (simp add: guards_are_def drop_payload_guard_def)
    qed
  qed
qed

lemma payload_ops_guards:
  "keeps (guards_are xs ks) (create_object_op E q)" "keeps (guards_are xs ks) (compress_op E X i who)"
  "keeps (guards_are xs ks) (archive_op E X i who)" "keeps (guards_are xs ks) (restore_op E X i who)"
  "keeps (guards_are xs ks) (verify_op E i who)"
  unfolding create_object_op_def compress_op_def archive_op_def restore_op_def verify_op_def place_payload_def
    store_payload_def rollback_replicas_def hot_backend_def Let_def
  by (intro with_object_guards keeps_intros keeps_pair guards.keeps_sum guards.keeps_attempt guards.c_access
      guards.c_locked_store stepwise_intros guards.c_fail_after with_payload_guard_guards guards.c_store_on_all
      guards.c_rollback_under_guard guards.c_read_payload guards.c_compress_under_guard guards.c_commit_archive
      guards.c_restore_existing guards.c_restore_fresh guards.c_verify_all guards.c_on_store)+

end
