(* ===== verification/Cluster.thy ===== *)
theory Cluster
  imports PayloadInvariants
begin

section \<open>Nodes, pressure, policies and candidates of the coordinator (src/coordinator.rs)\<close>

text \<open>
  The operations on the other parts of the coordinator's state: the registrations of storage
  nodes and their leases, pressure, policies, the ranked list of reclaim candidates, statistics
  and the release of the authority. \<open>port\<close> is what parsing a socket address yields, its port or
  the text of the error. A \<open>HashMap\<close> of nodes is an association list, whose order is the
  order it is walked in.
\<close>

subsection \<open>Nodes\<close>

record node_register_request =
  ng_name :: string
  ng_process_id :: string
  ng_boot_id :: uuid
  ng_addr :: string
  ng_backends :: "backend_descriptor list"

record node_register_reply =
  np_node_id :: string
  np_coordinator_epoch :: nat
  heartbeat_interval_ms :: nat
  heartbeat_timeout_ms :: nat

fun check_node_backends :: "string \<Rightarrow> backend_descriptor list \<Rightarrow> string list \<Rightarrow> unit result" where
  "check_node_backends namespace [] seen = Inr ()"
| "check_node_backends namespace (b # bs) seen =
     (if strip_prefix namespace (bd_id b) = None \<or> length (bd_id b) = length namespace
      then Inl (InvalidArgument [Lit ''node backend '', Str (bd_id b), Lit '' must be namespaced under '', Str namespace])
      else if blank (bd_kind b)
      then Inl (InvalidArgument [Lit ''node backend '', Str (bd_id b), Lit '' has an empty kind''])
      else if bd_id b \<in> set seen
      then Inl (InvalidArgument [Lit ''node registration contains duplicate backend '', Str (bd_id b)])
      else check_node_backends namespace bs (bd_id b # seen))"

definition node_audit :: "int \<Rightarrow> string \<Rightarrow> string \<Rightarrow> string \<Rightarrow> json \<Rightarrow> audit_entry" where
  "node_audit now who act node d = \<lparr>au_id = 0, au_ts_ms = now, actor = who, action = act, au_object_id = None,
     au_generation = None, prior_state = None, new_state = None, au_policy = None, au_attempt_id = None,
     au_node = Some node, detail = d\<rparr>"

definition stale_nodes :: "int \<Rightarrow> 'w coordinator \<Rightarrow> string list" where
  "stale_nodes now c =
     map fst (filter (\<lambda>(i, n). saturating_sub_i64 now (ni_last_seen_ms n) > node_heartbeat_timeout_ms (co_config c)) (co_nodes c))"

definition retire_node :: "int \<Rightarrow> string \<Rightarrow> ('w, unit) cop" where
  "retire_node now i =
     bindS (modifyS (\<lambda>c. c\<lparr>co_nodes := AList.delete i (co_nodes c), co_pressure := remove_node i (co_pressure c)\<rparr>)) (\<lambda>_.
     on_store (append_audit (node_audit now ''coordinator'' ''NODE_RETIRED'' i
       (JObject [(''reason'', JString ''heartbeat timeout'')]))))"

definition retire_all :: "int \<Rightarrow> ('w, string list) cop" where
  "retire_all now =
     bindS (askS (\<lambda>c. Inr (stale_nodes now c))) (\<lambda>stale.
     bindS (forS stale (retire_node now)) (\<lambda>_. returnS stale))"

definition retire_stale_nodes :: "'w environment \<Rightarrow> ('w, string list) cop" where
  "retire_stale_nodes E = bindS (read_clock E) (\<lambda>now. with_inner E (retire_all now))"

definition padded :: "string \<Rightarrow> bool" where
  "padded s \<longleftrightarrow> trim s \<noteq> s"

text \<open>\<open>i64 as u64\<close>.\<close>

definition i64_as_u64 :: "int \<Rightarrow> nat" where
  "i64_as_u64 n = nat (n mod 18446744073709551616)"

definition register_reply :: "string \<Rightarrow> 'w coordinator \<Rightarrow> node_register_reply" where
  "register_reply i c = \<lparr>np_node_id = i, np_coordinator_epoch = co_epoch c, heartbeat_interval_ms = 5000,
     heartbeat_timeout_ms = i64_as_u64 (node_heartbeat_timeout_ms (co_config c))\<rparr>"

text \<open>The registration after its lease, its name and its address are settled.\<close>

definition insert_node ::
  "node_register_request \<Rightarrow> string \<Rightarrow> int \<Rightarrow> ('w, node_register_reply) cop" where
  "insert_node q i now =
     bindS (askS (\<lambda>c. Inr (map_of (co_nodes c) i))) (\<lambda>old. case old of
       Some n \<Rightarrow>
         bindS (modifyS (\<lambda>c. c\<lparr>co_nodes := AList.update i (n\<lparr>ni_last_seen_ms := now, ni_addr := ng_addr q,
           ni_backends := ng_backends q\<rparr>) (co_nodes c)\<rparr>)) (\<lambda>_.
         askS (\<lambda>c. Inr (register_reply i c)))
     | None \<Rightarrow>
         bindS (modifyS (\<lambda>c. c\<lparr>co_nodes := AList.update i \<lparr>ni_node_id = i, ni_name = ng_name q,
           ni_process_id = ng_process_id q, ni_boot_id = ng_boot_id q, ni_addr = ng_addr q,
           ni_backends = ng_backends q, ni_last_seen_ms = now\<rparr> (co_nodes c)\<rparr>)) (\<lambda>_.
         bindS (on_store (append_audit (node_audit now ''node'' ''NODE_REGISTERED'' i
           (JObject [(''addr'', JString (ng_addr q)),
             (''backends'', JArray (map (\<lambda>b. JString (bd_id b)) (ng_backends q))), (''name'', JString (ng_name q))])))) (\<lambda>_.
         askS (\<lambda>c. Inr (register_reply i c)))))"

definition register_locked ::
  "'w environment \<Rightarrow> (string \<Rightarrow> string + nat) \<Rightarrow> node_register_request \<Rightarrow> int \<Rightarrow> ('w, node_register_reply) cop" where
  "register_locked E port q now =
     (let i = ng_name q @ ''@'' @ ng_process_id q @ ''@'' @ uuid_text E (ng_boot_id q) in
      if blank (ng_addr q) \<or> padded (ng_addr q)
      then failS (InvalidArgument [Lit ''node must provide its numeric listener address without surrounding whitespace''])
      else
        bindS (liftS (map_err (\<lambda>e. InvalidArgument [Lit ''invalid node listen address '', Str (ng_addr q), Lit '': '', Str e])
          (port (ng_addr q)))) (\<lambda>p.
        if p = 0 then failS (InvalidArgument [Lit ''node listen address must have a non-zero port''])
        else
          bindS (retire_all now) (\<lambda>_.
          bindS (askS (\<lambda>c. Inr (find (\<lambda>n. ni_name n = ng_name q \<and> ni_node_id n \<noteq> i) (map snd (co_nodes c))))) (\<lambda>holder.
          case holder of
            Some n \<Rightarrow> failS (ReservationConflict [Lit ''node name '', Str (ng_name q),
              Lit '' is already held by live registration '', Str (ni_node_id n)])
          | None \<Rightarrow> insert_node q i now))))"

definition node_register ::
  "'w environment \<Rightarrow> (string \<Rightarrow> string + nat) \<Rightarrow> node_register_request \<Rightarrow> ('w, node_register_reply) cop" where
  "node_register E port q =
     (if blank (ng_name q) \<or> padded (ng_name q) \<or> blank (ng_process_id q) \<or> padded (ng_process_id q)
      then failS (InvalidArgument [Lit ''node name and process id must be non-empty and have no surrounding whitespace''])
      else
        bindS (liftS (check_node_backends (ng_name q @ ''/'') (ng_backends q) [])) (\<lambda>_.
        bindS (read_clock E) (\<lambda>now.
        with_inner E (register_locked E port q now))))"

definition node_heartbeat :: "'w environment \<Rightarrow> string \<Rightarrow> ('w, nat) cop" where
  "node_heartbeat E i =
     bindS (read_clock E) (\<lambda>now.
     with_inner E (\<lambda>c. case map_of (co_nodes c) i of
       None \<Rightarrow> (Inl (NotFound [Lit ''node '', Str i]), c)
     | Some n \<Rightarrow> (Inr (co_epoch c),
         c\<lparr>co_nodes := AList.update i (n\<lparr>ni_last_seen_ms := max (ni_last_seen_ms n) now\<rparr>) (co_nodes c)\<rparr>)))"

definition node_report_pressure :: "'w environment \<Rightarrow> string \<Rightarrow> pressure_metrics \<Rightarrow> ('w, unit) cop" where
  "node_report_pressure E i m =
     bindS (liftS (validate_metrics m)) (\<lambda>_.
     bindS (read_clock E) (\<lambda>_.
     with_inner E (\<lambda>c. case map_of (co_nodes c) i of
       None \<Rightarrow> (Inl (NotFound [Lit ''node '', Str i]), c)
     | Some _ \<Rightarrow> (case report_node i m (co_pressure c) of
         Inl e \<Rightarrow> (Inl e, c) | Inr p \<Rightarrow> (Inr (), c\<lparr>co_pressure := p\<rparr>)))))"

definition nodes :: "'w environment \<Rightarrow> ('w, node_info list) cop" where
  "nodes E = with_inner E (askS (\<lambda>c. Inr (sort_key ni_node_id (map snd (co_nodes c)))))"

subsection \<open>Pressure\<close>

definition pressure :: "'w environment \<Rightarrow> ('w, pressure_metrics) cop" where
  "pressure E = with_inner E (\<lambda>c. (try_aggregate (external_metrics E (world c)) (co_pressure c), c))"

definition set_pressure :: "'w environment \<Rightarrow> string \<Rightarrow> pressure_level \<Rightarrow> ('w, unit) cop" where
  "set_pressure E i l = with_inner E (\<lambda>c.
     case find_synthetic i (co_pressure c) of
       None \<Rightarrow> (Inl (NotFound [Lit ''pressure provider '', Str i]), c)
     | Some h \<Rightarrow> (case set_level h l (co_pressure c) of
         Inl e \<Rightarrow> (Inl e, c) | Inr p \<Rightarrow> (Inr (), c\<lparr>co_pressure := p\<rparr>)))"

definition register_synthetic_pressure :: "'w environment \<Rightarrow> string \<Rightarrow> ('w, unit) cop" where
  "register_synthetic_pressure E i =
     with_inner E (modifyS (\<lambda>c. c\<lparr>co_pressure := snd (register_synthetic i (co_pressure c))\<rparr>))"

subsection \<open>Policies\<close>

definition policy_audit :: "int \<Rightarrow> policy \<Rightarrow> audit_entry" where
  "policy_audit now p = \<lparr>au_id = 0, au_ts_ms = now, actor = ''cli'', action = ''POLICY_ADDED'', au_object_id = None,
     au_generation = None, prior_state = None, new_state = None, au_policy = Some (full_id p), au_attempt_id = None,
     au_node = None, detail = JObject [(''kind'', JString (policy_kind_dbg (pol_kind p)))]\<rparr>"

definition add_policy_op :: "'w environment \<Rightarrow> policy \<Rightarrow> ('w, unit) cop" where
  "add_policy_op E p =
     bindS (liftS (validate_policy p)) (\<lambda>_.
     with_inner E (
       bindS (askS (\<lambda>c. add_policy p (co_policies c))) (\<lambda>prospective.
       bindS (liftS (validate_complete prospective)) (\<lambda>_.
       bindS (on_store (upsert_policy p)) (\<lambda>_.
       bindS (modifyS (\<lambda>c. c\<lparr>co_policies := prospective\<rparr>)) (\<lambda>_.
       bindS (read_clock E) (\<lambda>now.
       on_store (append_audit (policy_audit now p)))))))))"

subsection \<open>Candidates\<close>

definition MAX_CANDIDATES :: nat where "MAX_CANDIDATES = 10000"

text \<open>The order of the report: the score falls, equal scores by object id; it is stable.\<close>

definition ranks_before :: "policy_decision \<Rightarrow> policy_decision \<Rightarrow> bool" where
  "ranks_before a b \<longleftrightarrow>
     flt (score (pd_decision b)) (score (pd_decision a)) \<or>
     \<not> flt (score (pd_decision a)) (score (pd_decision b)) \<and> dec_object_id (pd_decision a) \<le> dec_object_id (pd_decision b)"

fun insort_by :: "('a \<Rightarrow> 'a \<Rightarrow> bool) \<Rightarrow> 'a \<Rightarrow> 'a list \<Rightarrow> 'a list" where
  "insort_by le x [] = [x]"
| "insort_by le x (y # ys) = (if le x y then x # y # ys else y # insort_by le x ys)"

definition sort_by :: "('a \<Rightarrow> 'a \<Rightarrow> bool) \<Rightarrow> 'a list \<Rightarrow> 'a list" where
  "sort_by le xs = foldr (insort_by le) xs []"

record batch =
  bt_objects :: "reclaim_object list"
  bt_graph :: lineage_graph
  bt_replicas :: "(uuid \<times> nat) list"
  bt_archives :: "(uuid \<times> nat) list"
  bt_pressure :: pressure_level
  bt_policies :: policy_registry

definition load_batch :: "'w environment \<Rightarrow> ('w, batch) cop" where
  "load_batch E = with_inner E (
     bindS (on_store (askS list_objects)) (\<lambda>objs.
     bindS (on_store (askS stored_lineage_graph)) (\<lambda>g.
     bindS (on_store (askS (\<lambda>s. Inr (valid_replica_counts s)))) (\<lambda>rc.
     bindS (on_store (askS archive_counts)) (\<lambda>ac.
     askS (\<lambda>c. bindr (try_level (external_metrics E (world c)) (co_pressure c)) (\<lambda>l.
       Inr \<lparr>bt_objects = objs, bt_graph = g, bt_replicas = rc, bt_archives = ac, bt_pressure = l,
         bt_policies = co_policies c\<rparr>)))))))"

definition candidate_context :: "batch \<Rightarrow> reclaim_object \<Rightarrow> decision_context" where
  "candidate_context t obj =
     (let copies = (case map_of (bt_replicas t) (id obj) of None \<Rightarrow> 0 | Some n \<Rightarrow> n) +
                   (case map_of (bt_archives t) (id obj) of None \<Rightarrow> 0 | Some n \<Rightarrow> n) in
      \<lparr>ctx_dependency_value = fmul (dependency_weight (bt_graph t) (bt_objects t) (id obj)) (Fin 10000),
       ctx_survivability_value = survivability_weight obj copies\<rparr>)"

definition decide_candidate ::
  "batch \<Rightarrow> nat \<Rightarrow> int \<Rightarrow> policy_decision list \<Rightarrow> reclaim_object \<Rightarrow> policy_decision list result" where
  "decide_candidate t ep now out obj =
     (if obj_state obj = Reclaimed \<or> obj_state obj = Failed then Inr out
      else
        bindr (decide (bt_policies t) obj (bt_pressure t) ep now (candidate_context t obj)) (\<lambda>d.
        Inr (if verdict (pd_decision d) = Reclaim then out @ [d] else out)))"

definition candidates :: "'w environment \<Rightarrow> nat \<Rightarrow> ('w, policy_decision list) cop" where
  "candidates E limit =
     (if limit > MAX_CANDIDATES
      then failS (InvalidArgument [Lit ''candidate limit '', Num (int limit), Lit '' exceeds maximum '', Num (int MAX_CANDIDATES)])
      else
        bindS (load_batch E) (\<lambda>t.
        bindS (askS (\<lambda>c. Inr (co_epoch c))) (\<lambda>ep.
        bindS (read_clock E) (\<lambda>now.
        bindS (liftS (fold_r (decide_candidate t ep now) [] (bt_objects t))) (\<lambda>results.
        let ranked = take limit (sort_by ranks_before results) in
        bindS (forS ranked (\<lambda>d. with_inner E (
          bindS (askS (\<lambda>c. Inr (env_stamp E (world c)))) (\<lambda>stamp. on_store (insert_decision stamp (pd_decision d)))))) (\<lambda>_.
        returnS ranked))))))"

subsection \<open>Statistics, reports and release\<close>

definition stats_op :: "'w environment \<Rightarrow> (pressure_metrics \<Rightarrow> json) \<Rightarrow> ('w, json) cop" where
  "stats_op E metrics_json =
     bindS (asked E stats) (\<lambda>j.
     bindS (askS (\<lambda>c. Inr (co_epoch c))) (\<lambda>ep.
     bindS (nodes E) (\<lambda>ns.
     bindS (pressure E) (\<lambda>m.
     bindS (read_pressure E) (\<lambda>l.
     returnS (case j of
       JObject fs \<Rightarrow> JObject (bt_insert ''pressure_level'' (JString (level_str l)) (bt_insert ''pressure'' (metrics_json m)
         (bt_insert ''nodes'' (JInt (int (length ns))) (bt_insert ''epoch'' (JInt (int ep)) fs))))
     | _ \<Rightarrow> j))))))"

definition failures_op :: "'w environment \<Rightarrow> nat \<Rightarrow> ('w, failure_record list) cop" where
  "failures_op E limit = asked E (list_failures limit)"

definition audit_op :: "'w environment \<Rightarrow> uuid option \<Rightarrow> string option \<Rightarrow> nat \<Rightarrow> ('w, audit_entry list) cop" where
  "audit_op E oid act limit = asked E (replay_audit oid act limit)"

text \<open>\<open>joined\<close> is the outcome of stopping the heartbeat thread.\<close>

definition release_op :: "unit result \<Rightarrow> ('w, unit) cop" where
  "release_op joined =
     bindS (modifyS (\<lambda>c. c\<lparr>shutdown_requested := True\<rparr>)) (\<lambda>_.
     bindS (liftS joined) (\<lambda>_.
     bindS (\<lambda>c. on_store (release_coordinator (cfg_process_id (co_config c)) (co_boot_id c) (co_epoch c)) c) (\<lambda>_.
     modifyS (\<lambda>c. c\<lparr>authority_lost := True\<rparr>))))"

subsection \<open>What they keep\<close>

text \<open>A predicate that changes of the nodes, the pressure and the policies keep as well.\<close>

locale coordinator_services = coordinator_commits +
  assumes node_table: "I c \<Longrightarrow> I (c\<lparr>co_nodes := ns\<rparr>)"
    and pressure_table: "I c \<Longrightarrow> I (c\<lparr>co_pressure := p\<rparr>)"
    and policy_table: "I c \<Longrightarrow> I (c\<lparr>co_policies := ps\<rparr>)"
begin

lemma c_modify:
  "keeps I (modifyS (\<lambda>c. c\<lparr>co_nodes := f c\<rparr>))" "keeps I (modifyS (\<lambda>c. c\<lparr>co_nodes := f c, co_pressure := g c\<rparr>))"
  "keeps I (modifyS (\<lambda>c. c\<lparr>co_pressure := g c\<rparr>))" "keeps I (modifyS (\<lambda>c. c\<lparr>co_policies := h c\<rparr>))"
  by (auto simp: keeps_def intro: node_table pressure_table policy_table)

lemma c_retire: "keeps I (retire_all now)"
  unfolding retire_all_def retire_node_def by (intro keeps_intros c_modify c_on_store stepwise_intros)

lemma c_retire_stale: "keeps I (retire_stale_nodes E)"
  unfolding retire_stale_nodes_def by (intro keeps_intros c_access c_retire)

lemma c_insert_node: "keeps I (insert_node q i now)"
  unfolding insert_node_def by (intro keeps_intros c_modify c_on_store stepwise_intros)

lemma c_node_register: "keeps I (node_register E port q)"
  unfolding node_register_def register_locked_def Let_def
  by (intro keeps_intros c_access c_retire c_insert_node)

lemma c_node_heartbeat: "keeps I (node_heartbeat E i)"
  unfolding node_heartbeat_def
  by (intro keeps_intros c_access) (auto simp: keeps_def intro: node_table split: option.splits)

lemma c_node_report: "keeps I (node_report_pressure E i m)"
  unfolding node_report_pressure_def
  by (intro keeps_intros c_access) (auto simp: keeps_def intro: pressure_table split: option.splits sum.splits)

lemma c_set_pressure: "keeps I (set_pressure E i l)"
  unfolding set_pressure_def
  by (intro c_access) (auto simp: keeps_def intro: pressure_table split: option.splits sum.splits)

lemma c_register_pressure: "keeps I (register_synthetic_pressure E i)"
  unfolding register_synthetic_pressure_def by (intro c_access c_modify)

lemma c_add_policy: "keeps I (add_policy_op E p)"
  unfolding add_policy_op_def by (intro keeps_intros c_access c_modify c_on_store stepwise_intros)

lemma c_candidates: "keeps I (candidates E limit)"
  unfolding candidates_def load_batch_def Let_def
  by (intro keeps_intros c_access c_on_store stepwise_intros)

lemma c_release_op: "keeps I (release_op joined)"
proof -
  have "keeps I (\<lambda>c. on_store (release_coordinator (cfg_process_id (co_config c)) (co_boot_id c) (co_epoch c)) c)"
  proof (rule keeps_by_result)
    fix c r c'
    assume "on_store (release_coordinator (cfg_process_id (co_config c)) (co_boot_id c) (co_epoch c)) c = (r, c')" and "I c"
    then show "I c'" by (rule keepsE [OF c_on_store [OF stepwise_payload_ops(9)]])
  qed
  moreover have "keeps I (modifyS (\<lambda>c. c\<lparr>shutdown_requested := True\<rparr>))" "keeps I (modifyS (\<lambda>c. c\<lparr>authority_lost := True\<rparr>))"
    by (auto simp: keeps_def intro: shut lost)
  ultimately show ?thesis unfolding release_op_def by (intro keeps_intros)
qed

lemmas c_cluster_ops = c_node_register c_node_heartbeat c_node_report c_retire_stale c_set_pressure c_register_pressure
  c_add_policy c_candidates

end

interpretation store_services: coordinator_services "\<lambda>c. store_step\<^sup>*\<^sup>* s0 (co_store c)"
  by unfold_locales auto

interpretation guard_services: coordinator_services "guards_are xs ks"
  by unfold_locales (auto simp: guards_are_def)

end
