(* ===== verification/Operations.thy ===== *)
theory Operations
  imports Cluster
begin

section \<open>All operations of the coordinator together\<close>

text \<open>
  The step relation of the whole service: every public operation of the coordinator that
  changes state. What holds of every sequence of them: on the store it is a sequence of store
  operations, guards are released on every way out, and a coordinator that has lost its
  authority, or whose row another process has taken over, changes nothing any more.
\<close>

inductive service_step ::
  "'w environment \<Rightarrow> 'w services \<Rightarrow> (string \<Rightarrow> string + nat) \<Rightarrow> 'w coordinator \<Rightarrow> 'w coordinator \<Rightarrow> bool"
  for E X port where
  of_core: "coordinator_step E c c' \<Longrightarrow> service_step E X port c c'"
| of_create: "service_step E X port c (snd (create_object_op E q c))"
| of_compress: "service_step E X port c (snd (compress_op E X i who c))"
| of_archive: "service_step E X port c (snd (archive_op E X i who c))"
| of_restore: "service_step E X port c (snd (restore_op E X i who c))"
| of_verify: "service_step E X port c (snd (verify_op E i who c))"
| of_node_register: "service_step E X port c (snd (node_register E port nq c))"
| of_node_heartbeat: "service_step E X port c (snd (node_heartbeat E n c))"
| of_node_report: "service_step E X port c (snd (node_report_pressure E n m c))"
| of_retire: "service_step E X port c (snd (retire_stale_nodes E c))"
| of_set_pressure: "service_step E X port c (snd (set_pressure E n l c))"
| of_register_pressure: "service_step E X port c (snd (register_synthetic_pressure E n c))"
| of_add_policy: "service_step E X port c (snd (add_policy_op E p c))"
| of_candidates: "service_step E X port c (snd (candidates E limit c))"

text \<open>The release of the authority on shutdown is the one operation that needs no authority.\<close>

inductive operation ::
  "'w environment \<Rightarrow> 'w services \<Rightarrow> (string \<Rightarrow> string + nat) \<Rightarrow> 'w coordinator \<Rightarrow> 'w coordinator \<Rightarrow> bool"
  for E X port where
  of_service: "service_step E X port c c' \<Longrightarrow> operation E X port c c'"
| of_release: "operation E X port c (snd (release_op joined c))"

lemma service_store_run:
  "service_step E X port c c' \<Longrightarrow> store_step\<^sup>*\<^sup>* s0 (co_store c) \<Longrightarrow> store_step\<^sup>*\<^sup>* s0 (co_store c')"
  by (induction rule: service_step.induct)
    (rule store_run.c_step keepsD [OF store_run.c_create] keepsD [OF store_run.c_compress] keepsD [OF store_run.c_archive]
      keepsD [OF store_run.c_restore] keepsD [OF store_run.c_verify] keepsD [OF store_services.c_node_register]
      keepsD [OF store_services.c_node_heartbeat] keepsD [OF store_services.c_node_report]
      keepsD [OF store_services.c_retire_stale] keepsD [OF store_services.c_set_pressure]
      keepsD [OF store_services.c_register_pressure] keepsD [OF store_services.c_add_policy]
      keepsD [OF store_services.c_candidates]; assumption)+

lemma operation_store_run:
  "operation E X port c c' \<Longrightarrow> store_step\<^sup>*\<^sup>* s0 (co_store c) \<Longrightarrow> store_step\<^sup>*\<^sup>* s0 (co_store c')"
  by (induction rule: operation.induct) (auto intro: service_store_run keepsD [OF store_services.c_release_op])

lemma operations_store_run:
  "(operation E X port)\<^sup>*\<^sup>* c c' \<Longrightarrow> store_step\<^sup>*\<^sup>* (co_store c) (co_store c')"
  by (induction rule: rtranclp_induct) (auto intro: operation_store_run)

lemma service_guards:
  "service_step E X port c c' \<Longrightarrow> guards_are xs ks c \<Longrightarrow> guards_are xs ks c'"
  by (induction rule: service_step.induct)
    (rule guards_step keepsD [OF payload_ops_guards(1)] keepsD [OF payload_ops_guards(2)] keepsD [OF payload_ops_guards(3)]
      keepsD [OF payload_ops_guards(4)] keepsD [OF payload_ops_guards(5)] keepsD [OF guard_services.c_node_register]
      keepsD [OF guard_services.c_node_heartbeat] keepsD [OF guard_services.c_node_report]
      keepsD [OF guard_services.c_retire_stale] keepsD [OF guard_services.c_set_pressure]
      keepsD [OF guard_services.c_register_pressure] keepsD [OF guard_services.c_add_policy]
      keepsD [OF guard_services.c_candidates]; assumption)+

subsection \<open>A coordinator without authority\<close>

definition halted :: "'w coordinator \<Rightarrow> bool" where
  "halted c \<longleftrightarrow> authority_lost c \<or> (\<forall>st. t_coordinator (co_store c) = Some st \<longrightarrow>
     \<not> holds (cfg_process_id (co_config c)) (co_boot_id c) (co_epoch c) st)"

text \<open>Nothing but the flag and what was read from outside.\<close>

definition unmoved :: "'w coordinator \<Rightarrow> 'w coordinator \<Rightarrow> bool" where
  "unmoved c c' \<longleftrightarrow> (\<exists>w a. c' = c\<lparr>world := w, authority_lost := a\<rparr> \<and> (authority_lost c \<longrightarrow> a))"

definition stops :: "('w, 'a) cop \<Rightarrow> bool" where
  "stops m \<longleftrightarrow> (\<forall>c. halted c \<longrightarrow> unmoved c (snd (m c)))"

lemma unmovedI: "c' = c\<lparr>world := w, authority_lost := a\<rparr> \<Longrightarrow> (authority_lost c \<Longrightarrow> a) \<Longrightarrow> unmoved c c'"
  unfolding unmoved_def by blast

lemma unmoved_refl: "unmoved c c"
  by (rule unmovedI [where w = "world c" and a = "authority_lost c"]) simp_all

lemma unmoved_trans:
  assumes "unmoved c c'" and "unmoved c' c''"
  shows "unmoved c c''"
proof -
  from assms(1) obtain w a where 1: "c' = c\<lparr>world := w, authority_lost := a\<rparr>" "authority_lost c \<longrightarrow> a"
    unfolding unmoved_def by blast
  from assms(2) obtain w' a' where 2: "c'' = c'\<lparr>world := w', authority_lost := a'\<rparr>" "authority_lost c' \<longrightarrow> a'"
    unfolding unmoved_def by blast
  show ?thesis by (rule unmovedI [where w = w' and a = a']) (use 1 2 in simp_all)
qed

lemma unmoved_halted: "unmoved c c' \<Longrightarrow> halted c \<Longrightarrow> halted c'"
  unfolding unmoved_def halted_def by auto

lemma with_inner_halted:
  assumes "halted c"
  shows "\<exists>e c'. with_inner E f c = (Inl e, c') \<and> unmoved c c'"
proof (cases "authority_lost c")
  case True
  then show ?thesis using unmoved_refl by (fastforce simp: with_inner_def)
next
  case False
  obtain now w where n: "env_now E (world c) = (now, w)" by fastforce
  obtain e where "coordinator_heartbeat (cfg_process_id (co_config c)) (co_boot_id c) (co_epoch c) now (co_store c) =
      (Inl e, co_store c)"
    using assms False heartbeat_refused unfolding halted_def by blast
  then have "with_inner E f c = (Inl e, c\<lparr>world := w, authority_lost := True\<rparr>)"
    using n False by (simp add: with_inner_def read_clock_def on_world_def on_store_def bindS_apply)
  then show ?thesis unfolding unmoved_def using False by blast
qed

lemma stops_inner: "stops (with_inner E f)" "stops (bindS (with_inner E f) g)"
  unfolding stops_def using with_inner_halted [of _ E f] by (fastforce simp: bindS_apply)+

lemma stops_pure: "stops (returnS a)" "stops (failS e)" "stops (liftS r)"
  unfolding stops_def by (simp_all add: unmoved_refl)

lemma stops_if: "stops m \<Longrightarrow> stops n \<Longrightarrow> stops (if b then m else n)"
  by simp

lemma stops_bind: "stops m \<Longrightarrow> (\<And>a. stops (f a)) \<Longrightarrow> stops (bindS m f)"
  unfolding stops_def by (auto simp: bindS_apply split: sum.splits) (meson unmoved_halted unmoved_trans)

lemma stops_clock: "stops (read_clock E)"
proof -
  have "unmoved c (c\<lparr>world := w\<rparr>)" for c :: "'a coordinator" and w
    by (rule unmovedI [where w = w and a = "authority_lost c"]) simp_all
  then show ?thesis unfolding stops_def read_clock_def on_world_def by (simp split: prod.split)
qed

lemma stops_with_object: "stops (with_object E i body)"
  unfolding with_object_def begin_object_operation_def by (rule stops_inner)

lemma stops_asked: "stops (bindS (asked E f) g)"
  unfolding asked_def locked_def by (rule stops_inner)

lemma stops_ops:
  "stops (touch E i who)" "stops (pin E i who)" "stops (unpin E i who)" "stops (set_protected E i b who)"
  "stops (add_lineage E p k kind who)" "stops (remove_lineage E p k kind who)" "stops (plan E i who)" "stops (reclaim E q)"
  "stops (create_object_op E cq)" "stops (compress_op E X i who)" "stops (archive_op E X i who)"
  "stops (restore_op E X i who)" "stops (verify_op E i who)" "stops (node_register E port nq)" "stops (node_heartbeat E n)"
  "stops (node_report_pressure E n m)" "stops (retire_stale_nodes E)" "stops (set_pressure E n l)"
  "stops (register_synthetic_pressure E n)" "stops (add_policy_op E pol)" "stops (candidates E limit)"
  unfolding touch_def pin_def unpin_def set_protected_def add_lineage_def remove_lineage_def plan_def reclaim_def
    create_object_op_def compress_op_def archive_op_def restore_op_def verify_op_def node_register_def node_heartbeat_def
    node_report_pressure_def retire_stale_nodes_def set_pressure_def register_synthetic_pressure_def add_policy_op_def
    candidates_def load_batch_def
  by (intro stops_with_object stops_inner stops_asked stops_if stops_pure stops_bind stops_clock)+

lemma stopsD: "stops m \<Longrightarrow> halted c \<Longrightarrow> unmoved c (snd (m c))"
  by (simp add: stops_def)

lemma core_halted: "coordinator_step E c c' \<Longrightarrow> halted c \<Longrightarrow> unmoved c c'"
  by (induction rule: coordinator_step.induct) (rule stops_ops [THEN stopsD]; assumption)+

lemma service_halted: "service_step E X port c c' \<Longrightarrow> halted c \<Longrightarrow> unmoved c c'"
  by (induction rule: service_step.induct) (rule core_halted stops_ops [THEN stopsD]; assumption)+

subsection \<open>Properties of the service\<close>



end
