(* ===== verification/NodeLeases.thy ===== *)
theory NodeLeases
  imports Operations
begin

section \<open>One owner for every backend of a node\<close>

text \<open>
  A payload operation is routed to the node that registered the backend, and is refused when
  two did. The registration checks names and namespaces so that this cannot happen; here is
  when they succeed.
\<close>

definition plain_name :: "string \<Rightarrow> bool" where
  "plain_name s \<longleftrightarrow> CHR ''/'' \<notin> set s \<and> CHR ''@'' \<notin> set s"

definition owns :: "node_info \<Rightarrow> string \<Rightarrow> bool" where
  "owns n b \<longleftrightarrow> (\<exists>d\<in>set (ni_backends n). bd_id d = b)"

definition entry_ok :: "string \<times> node_info \<Rightarrow> bool" where
  "entry_ok e \<longleftrightarrow> ni_node_id (snd e) = fst e \<and> plain_name (ni_name (snd e)) \<and>
     (\<exists>r. fst e = ni_name (snd e) @ ''@'' @ r) \<and> (\<forall>b. owns (snd e) b \<longrightarrow> (\<exists>s. b = ni_name (snd e) @ ''/'' @ s))"

definition node_table_ok :: "(string \<times> node_info) list \<Rightarrow> bool" where
  "node_table_ok ns \<longleftrightarrow> distinct (map fst ns) \<and> (\<forall>e\<in>set ns. entry_ok e) \<and>
     (\<forall>e\<in>set ns. \<forall>e'\<in>set ns. ni_name (snd e) = ni_name (snd e') \<longrightarrow> fst e = fst e')"

lemma table_names:
  "node_table_ok ns \<Longrightarrow> (i, n) \<in> set ns \<Longrightarrow> (j, m) \<in> set ns \<Longrightarrow> ni_name n = ni_name m \<Longrightarrow> i = j"
  unfolding node_table_ok_def by fastforce

lemma table_entry: "node_table_ok ns \<Longrightarrow> e \<in> set ns \<Longrightarrow> entry_ok e"
  unfolding node_table_ok_def by blast

subsection \<open>The checks of a registration\<close>

lemma check_node_backends_Inr:
  "check_node_backends ns bs seen = Inr () \<Longrightarrow> d \<in> set bs \<Longrightarrow> \<exists>s. bd_id d = ns @ s"
  by (induction bs arbitrary: seen) (auto simp: strip_prefix_iff split: if_splits)

lemma first_part: "c \<notin> set x \<Longrightarrow> takeWhile (\<lambda>y. y \<noteq> c) (x @ c # r) = x"
  by (induction x) auto

lemma same_first_part: "c \<notin> set x \<Longrightarrow> c \<notin> set y \<Longrightarrow> x @ c # r = y @ c # s \<Longrightarrow> x = y"
  using first_part by metis

lemma set_update: "set (AList.update i n ns) \<subseteq> insert (i, n) {e \<in> set ns. fst e \<noteq> i}" if "distinct (map fst ns)"
  using that by (induction ns) (auto simp: image_iff)

lemma set_delete: "set (AList.delete i ns) \<subseteq> set ns"
  by (auto simp: AList.delete_eq)

lemma table_update:
  assumes ok: "node_table_ok ns" and new: "entry_ok (i, n)"
    and name: "\<And>j m. (j, m) \<in> set ns \<Longrightarrow> ni_name m = ni_name n \<Longrightarrow> j = i"
  shows "node_table_ok (AList.update i n ns)"
proof -
  have d: "distinct (map fst ns)" using ok by (simp add: node_table_ok_def)
  note s = set_update [OF d, of i n]
  have "distinct (map fst (AList.update i n ns))" using d by (rule distinct_update)
  moreover have "\<forall>e\<in>set (AList.update i n ns). entry_ok e" using s ok new by (auto simp: node_table_ok_def)
  moreover have "fst e = fst e'" if "e \<in> set (AList.update i n ns)" "e' \<in> set (AList.update i n ns)"
    "ni_name (snd e) = ni_name (snd e')" for e e'
  proof -
    obtain j m j' m' where e: "e = (j, m)" "e' = (j', m')" by fastforce
    have "e = (i, n) \<or> e \<in> set ns" "e' = (i, n) \<or> e' \<in> set ns" using that(1,2) s by auto
    then show ?thesis
      using that(3) name [of j m] name [of j' m'] ok unfolding e node_table_ok_def by (elim disjE) force+
  qed
  ultimately show ?thesis unfolding node_table_ok_def by blast
qed

lemma table_delete:
  assumes "node_table_ok ns"
  shows "node_table_ok (AList.delete i ns)"
proof -
  have "e \<in> set ns" if "e \<in> set (AList.delete i ns)" for e using that set_delete by fastforce
  then show ?thesis using assms distinct_delete unfolding node_table_ok_def by (metis (no_types, lifting))
qed

subsection \<open>What the node operations keep\<close>

interpretation lease: coordinator_commits "\<lambda>c. node_table_ok (co_nodes c)"
  by unfold_locales auto

interpretation nodes_stay: coordinator_invariant "\<lambda>c. co_nodes c = N"
  by unfold_locales auto

lemma retire_all_keeps: "keeps (\<lambda>c. node_table_ok (co_nodes c)) (retire_all now)"
proof -
  have "keeps (\<lambda>c. node_table_ok (co_nodes c)) (modifyS (\<lambda>c. c\<lparr>co_nodes := AList.delete i (co_nodes c),
      co_pressure := remove_node i (co_pressure c)\<rparr>))" for i
    by (auto simp: keeps_def intro: table_delete)
  then show ?thesis unfolding retire_all_def retire_node_def
    by (intro keeps_intros lease.c_on_store stepwise_intros)
qed

lemma heartbeat_keeps: "keeps (\<lambda>c. node_table_ok (co_nodes c)) (node_heartbeat E i)"
proof -
  have "node_table_ok (AList.update i (n\<lparr>ni_last_seen_ms := t\<rparr>) ns)" if ok: "node_table_ok ns" and n: "map_of ns i = Some n" for n t ns
  proof (rule table_update [OF ok])
    have m: "(i, n) \<in> set ns" using n by (rule map_of_SomeD)
    then have "entry_ok (i, n)" by (rule table_entry [OF ok])
    then show "entry_ok (i, n\<lparr>ni_last_seen_ms := t\<rparr>)" by (simp add: entry_ok_def owns_def)
    show "j = i" if "(j, m) \<in> set ns" "ni_name m = ni_name (n\<lparr>ni_last_seen_ms := t\<rparr>)" for j m
      using table_names [OF ok that(1) m] that(2) by simp
  qed
  then show ?thesis unfolding node_heartbeat_def
    by (intro keeps_intros lease.c_access) (auto simp: keeps_def split: option.splits)
qed

lemma insert_node_keeps:
  assumes plain: "plain_name (ng_name q)" and bs: "check_node_backends (ng_name q @ ''/'') (ng_backends q) [] = Inr ()"
    and i: "i = ng_name q @ ''@'' @ r" and ok: "node_table_ok (co_nodes c)"
    and free: "find (\<lambda>n. ni_name n = ng_name q \<and> ni_node_id n \<noteq> i) (map snd (co_nodes c)) = None"
    and run: "insert_node q i now c = (res, c')"
  shows "node_table_ok (co_nodes c')"
proof -
  have ns: "\<exists>s. b = ng_name q @ ''/'' @ s" if "\<exists>d\<in>set (ng_backends q). bd_id d = b" for b
    using check_node_backends_Inr [OF bs] that by fastforce
  have name: "j = i" if "(j, m) \<in> set (co_nodes c)" "ni_name m = ng_name q" for j m
    using that free ok unfolding find_None_iff node_table_ok_def entry_ok_def by fastforce
  show ?thesis
  proof (cases "map_of (co_nodes c) i")
    case None
    let ?n = "\<lparr>ni_node_id = i, ni_name = ng_name q, ni_process_id = ng_process_id q, ni_boot_id = ng_boot_id q,
      ni_addr = ng_addr q, ni_backends = ng_backends q, ni_last_seen_ms = now\<rparr>"
    have "entry_ok (i, ?n)" using plain i ns by (simp add: entry_ok_def owns_def)
    from table_update [OF ok this] name have "node_table_ok (AList.update i ?n (co_nodes c))" by simp
    moreover have "co_nodes c' = AList.update i ?n (co_nodes c)"
      using run None by (auto simp: insert_node_def bindS_apply on_store_def split: prod.splits sum.splits)
    ultimately show ?thesis by simp
  next
    case (Some n)
    let ?n = "n\<lparr>ni_last_seen_ms := now, ni_addr := ng_addr q, ni_backends := ng_backends q\<rparr>"
    have m: "(i, n) \<in> set (co_nodes c)" using Some by (rule map_of_SomeD)
    then have e: "entry_ok (i, n)" using ok by (simp add: node_table_ok_def)
    then obtain r' where "i = ni_name n @ ''@'' @ r'" "plain_name (ni_name n)" by (auto simp: entry_ok_def)
    then have same: "ni_name n = ng_name q"
      using same_first_part [of "CHR ''@''" "ni_name n" "ng_name q" r' r] i plain by (simp add: plain_name_def)
    have "entry_ok (i, ?n)" using e ns by (simp add: entry_ok_def owns_def same)
    from table_update [OF ok this] name have "node_table_ok (AList.update i ?n (co_nodes c))" by (simp add: same)
    moreover have "co_nodes c' = AList.update i ?n (co_nodes c)"
      using run Some by (auto simp: insert_node_def bindS_apply)
    ultimately show ?thesis by simp
  qed
qed

lemma register_locked_keeps:
  assumes plain: "plain_name (ng_name q)" and bs: "check_node_backends (ng_name q @ ''/'') (ng_backends q) [] = Inr ()"
  shows "keeps (\<lambda>c. node_table_ok (co_nodes c)) (register_locked E port q now)"
proof -
  let ?i = "ng_name q @ ''@'' @ ng_process_id q @ ''@'' @ uuid_text E (ng_boot_id q)"
  have core: "keeps (\<lambda>c. node_table_ok (co_nodes c)) (bindS (askS (\<lambda>c. Inr (find (\<lambda>n. ni_name n = ng_name q \<and> ni_node_id n \<noteq> ?i)
      (map snd (co_nodes c))))) (\<lambda>holder. case holder of
            Some n \<Rightarrow> failS (ReservationConflict [Lit ''node name '', Str (ng_name q),
              Lit '' is already held by live registration '', Str (ni_node_id n)])
          | None \<Rightarrow> insert_node q ?i now))"
    by (rule keeps_by_result)
      (auto simp: bindS_apply split: option.splits intro: insert_node_keeps [OF plain bs refl])
  show ?thesis unfolding register_locked_def Let_def
    by (intro keeps_if keeps_fail keeps_bind [OF keeps_lift] keeps_bind [OF retire_all_keeps] core)
qed

lemma node_register_keeps:
  assumes "plain_name (ng_name q)"
  shows "keeps (\<lambda>c. node_table_ok (co_nodes c)) (node_register E port q)"
proof (cases "check_node_backends (ng_name q @ ''/'') (ng_backends q) []")
  case (Inl e)
  then show ?thesis by (simp add: node_register_def keeps_def bindS_apply)
next
  case (Inr u)
  then have "keeps (\<lambda>c. node_table_ok (co_nodes c)) (register_locked E port q now)" for now
    using register_locked_keeps [OF assms] by simp
  then show ?thesis unfolding node_register_def
    by (intro keeps_if keeps_fail keeps_bind [OF keeps_lift] keeps_bind [OF lease.c_clock(1)] lease.c_with_inner)
qed

subsection \<open>The owner of a backend\<close>

lemma owners_at_most_one:
  assumes ok: "node_table_ok ns"
  shows "length (filter (\<lambda>n. owns n b) (map snd ns)) \<le> 1"
proof (rule ccontr)
  assume "\<not> length (filter (\<lambda>n. owns n b) (map snd ns)) \<le> 1"
  then have l: "length (filter (\<lambda>e. owns (snd e) b) ns) \<ge> 2" by (simp add: filter_map comp_def)
  let ?f = "filter (\<lambda>e. owns (snd e) b) ns"
  have d: "distinct (map fst ?f)" using ok unfolding node_table_ok_def by (blast intro: distinct_map_filter)
  obtain e e' fs where f: "?f = e # e' # fs" using l by (metis (no_types, lifting) Suc_le_length_iff numeral_2_eq_2)
  have "e \<in> set ?f" "e' \<in> set ?f" unfolding f by simp_all
  then have m: "e \<in> set ns" "e' \<in> set ns" "owns (snd e) b" "owns (snd e') b" by auto
  then obtain s s' where "b = ni_name (snd e) @ ''/'' @ s" "b = ni_name (snd e') @ ''/'' @ s'"
    "plain_name (ni_name (snd e))" "plain_name (ni_name (snd e'))"
    using ok unfolding node_table_ok_def entry_ok_def by blast
  then have "ni_name (snd e) = ni_name (snd e')"
    using same_first_part [of "CHR ''/''" "ni_name (snd e)" "ni_name (snd e')" s s'] by (simp add: plain_name_def)
  then have "fst e = fst e'" using ok m(1,2) unfolding node_table_ok_def by blast
  then show False using d unfolding f by simp
qed

lemma owner_found:
  assumes ok: "node_table_ok (co_nodes c)"
  shows "\<exists>o'. node_for_backend_locked b c = (Inr o', c) \<and>
    (\<forall>i. o' = Some i \<longleftrightarrow> (\<exists>n. (i, n) \<in> set (co_nodes c) \<and> owns n b))"
proof -
  let ?f = "filter (\<lambda>n. owns n b) (map snd (co_nodes c))"
  have own: "(\<lambda>n. \<exists>d\<in>set (ni_backends n). bd_id d = b) = (\<lambda>n. owns n b)" by (simp add: fun_eq_iff owns_def)
  have id: "ni_node_id n = i" if "(i, n) \<in> set (co_nodes c)" for i n
    using ok that unfolding node_table_ok_def entry_ok_def by fastforce
  have mem: "n \<in> set ?f \<longleftrightarrow> (\<exists>i. (i, n) \<in> set (co_nodes c) \<and> owns n b)" for n by force
  have "?f = [] \<or> (\<exists>n. ?f = [n])"
    using owners_at_most_one [OF ok, of b] by (cases ?f) auto
  then show ?thesis
  proof
    assume f: "?f = []"
    have "(i, n) \<in> set (co_nodes c) \<Longrightarrow> \<not> owns n b" for i n using mem [of n] f by auto
    then show ?thesis unfolding node_for_backend_locked_def own f by auto
  next
    assume "\<exists>n. ?f = [n]"
    then obtain n where f: "?f = [n]" by blast
    then obtain i where i: "(i, n) \<in> set (co_nodes c)" "owns n b" using mem [of n] by auto
    have only: "j = i" if "(j, m) \<in> set (co_nodes c)" "owns m b" for j m
    proof -
      have "m \<in> set ?f" using that mem [of m] by blast
      then have "m = n" unfolding f by simp
      then show ?thesis using id [OF that(1)] id [OF i(1)] by simp
    qed
    have "node_for_backend_locked b c = (Inr (Some i), c)"
      unfolding node_for_backend_locked_def own f by (simp add: id [OF i(1)])
    moreover have "Some i = Some j \<longleftrightarrow> (\<exists>m. (j, m) \<in> set (co_nodes c) \<and> owns m b)" for j
      using i only by blast
    ultimately show ?thesis by blast
  qed
qed

text \<open>Operations on the node table: plain registrations, heartbeats, retirements, and all that leave it alone.\<close>

inductive lease_step ::
  "'w environment \<Rightarrow> (string \<Rightarrow> string + nat) \<Rightarrow> 'w coordinator \<Rightarrow> 'w coordinator \<Rightarrow> bool" for E port where
  registers: "plain_name (ng_name q) \<Longrightarrow> lease_step E port c (snd (node_register E port q c))"
| beats: "lease_step E port c (snd (node_heartbeat E i c))"
| retires: "lease_step E port c (snd (retire_stale_nodes E c))"
| elsewhere: "co_nodes c' = co_nodes c \<Longrightarrow> lease_step E port c c'"

lemma lease_step_ok: "lease_step E port c c' \<Longrightarrow> node_table_ok (co_nodes c) \<Longrightarrow> node_table_ok (co_nodes c')"
proof (induction rule: lease_step.induct)
  case (registers q c)
  then show ?case using keepsD [OF node_register_keeps] by blast
next
  case (beats c i)
  then show ?case using keepsD [OF heartbeat_keeps] by blast
next
  case (retires c)
  have "keeps (\<lambda>c. node_table_ok (co_nodes c)) (retire_stale_nodes E)"
    unfolding retire_stale_nodes_def by (intro keeps_intros lease.c_access retire_all_keeps)
  then show ?case using retires by (rule keepsD)
qed simp

lemma lease_run_ok: "(lease_step E port)\<^sup>*\<^sup>* c c' \<Longrightarrow> node_table_ok (co_nodes c) \<Longrightarrow> node_table_ok (co_nodes c')"
  by (induction rule: rtranclp_induct) (auto intro: lease_step_ok)

text \<open>Every operation of the coordinator but those of the nodes leaves the table alone.\<close>

lemma payload_ops_keep_nodes:
  "co_nodes (snd (create_object_op E q c)) = co_nodes c" "co_nodes (snd (compress_op E X i who c)) = co_nodes c"
  "co_nodes (snd (archive_op E X i who c)) = co_nodes c" "co_nodes (snd (restore_op E X i who c)) = co_nodes c"
  "co_nodes (snd (verify_op E i who c)) = co_nodes c" "co_nodes (snd (reclaim E rq c)) = co_nodes c"
  by (rule keepsD [OF nodes_stay.c_create] keepsD [OF nodes_stay.c_compress] keepsD [OF nodes_stay.c_archive]
      keepsD [OF nodes_stay.c_restore] keepsD [OF nodes_stay.c_verify] keepsD [OF nodes_stay.c_reclaim], rule refl)+

text \<open>
  C25: As long as nodes register under names without a slash and without an at sign, no sequence
  of registrations, re-registrations, heartbeats and retirements, with other operations between
  them, leads to two owners of a backend: every backend is routed to the one live node that
  registered it, or to none, and the routing never fails.
\<close>

theorem backend_has_one_owner:
  assumes "(lease_step E port)\<^sup>*\<^sup>* c c'" and "co_nodes c = []"
  shows "\<exists>o'. node_for_backend_locked b c' = (Inr o', c') \<and>
    (\<forall>i. o' = Some i \<longleftrightarrow> (\<exists>n. (i, n) \<in> set (co_nodes c') \<and> owns n b))"
  by (rule owner_found, rule lease_run_ok [OF assms(1)]) (simp add: assms(2) node_table_ok_def)

text \<open>
  With a slash in a name two live registrations can own one backend: both pass the checks, and
  every operation on the backend is then refused.
\<close>

definition nested_backend :: backend_descriptor where
  "nested_backend = \<lparr>bd_id = ''a/b/x'', bd_kind = ''file'', bd_location = None\<rparr>"

definition nested_node :: "string \<Rightarrow> string \<Rightarrow> node_info" where
  "nested_node i name = \<lparr>ni_node_id = i, ni_name = name, ni_process_id = ''p'', ni_boot_id = 1, ni_addr = ''127.0.0.1:7'',
     ni_backends = [nested_backend], ni_last_seen_ms = 0\<rparr>"

lemma nested_names_collide:
  "check_node_backends ''a/'' [nested_backend] [] = Inr ()" "check_node_backends ''a/b/'' [nested_backend] [] = Inr ()"
  "co_nodes c = [(''a@p@1'', nested_node ''a@p@1'' ''a''), (''a/b@p@1'', nested_node ''a/b@p@1'' ''a/b'')] \<Longrightarrow>
   \<exists>e. node_for_backend_locked ''a/b/x'' c = (Inl (ReservationConflict e), c)"
  by code_simp (code_simp, simp add: node_for_backend_locked_def nested_node_def nested_backend_def)

end
