(* ===== verification/CrashScenario.thy ===== *)
theory CrashScenario
  imports RecoveryOutcome
begin

section \<open>An interrupted reclaim, replayed (src/recovery.rs)\<close>

text \<open>
  A concrete crash: one object, one replica, a release recorded as done and a journal payload
  with its plan. The results of theory RecoveryOutcome are applied to it for a backend that
  reports the payload gone, one that reports it present and one that cannot be asked. The last
  section shows that journal payloads read back as the plans they were written from.
\<close>

subsection \<open>The crash\<close>

definition crash_object :: reclaim_object where
  "crash_object = new_object 1 1 ''checkpoint'' 4 0"

definition crash_codec :: journal_codec where
  "crash_codec = \<lparr>object_json = (\<lambda>_. JString ''object''), json_object = (\<lambda>_. Inr crash_object),
     replicas_json = (\<lambda>_. JArray [JString ''replica'']), json_replicas = (\<lambda>_. Inr [sample_replica]),
     archives_json = (\<lambda>_. JArray []), json_archives = (\<lambda>_. Inr [])\<rparr>"

definition crash_plan :: journal_plan where
  "crash_plan = \<lparr>prior_object = crash_object, replica_deletions = [sample_replica],
     physical_replica_deletions = Some [sample_replica], archive_deletions = []\<rparr>"

definition crash_payload :: json where
  "crash_payload = JObject [(ARCHIVE_DELETION_KEY, JArray []), (PHYSICAL_DELETION_KEY, JArray [JString ''replica'']),
     (PRIOR_STATE_KEY, JString ''object''), (DELETION_KEY, JArray [JString ''replica''])]"

definition crash_entry :: journal_entry where
  "crash_entry = sample_journal\<lparr>j_phase := PhysicalDone, j_payload := crash_payload\<rparr>"

definition crash_store :: store where
  "crash_store = empty_store\<lparr>t_objects := [crash_object\<lparr>obj_state := ReclaimPending\<rparr>],
     t_replicas := [sample_replica], t_dedup := [sample_payload], t_attempts := [sample_attempt],
     t_reservations := [sample_reservation], t_journal := [crash_entry]\<rparr>"

lemma crash_object_ok: "validate_object (crash_object\<lparr>obj_state := st, replication_count := n, physical_size := m,
    compressed_size := c\<rparr>) = Inr ()"
  using not_blank_checkpoint by (simp add: validate_object_iff object_ok_def crash_object_def new_object_def cost_ok_def)

lemma crash_object_fits: "object_fits (crash_object\<lparr>obj_state := st, replication_count := 0, physical_size := 0,
    compressed_size := None\<rparr>)"
  by (simp add: object_fits_def crash_object_def new_object_def I64_MAX_def)

lemma crash_object_same: "crash_object\<lparr>replication_count := 0, physical_size := 0, compressed_size := None\<rparr> = crash_object"
  by (simp add: crash_object_def new_object_def)

lemma crash_state_ok: "validate_object (crash_object\<lparr>obj_state := st\<rparr>) = Inr ()" "object_fits (crash_object\<lparr>obj_state := st\<rparr>)"
  using not_blank_checkpoint
  by (simp_all add: validate_object_iff object_ok_def object_fits_def crash_object_def new_object_def cost_ok_def I64_MAX_def)

lemma crash_prior_ok: "validate_object crash_object = Inr ()"
  unfolding crash_object_def by (rule new_object_ok [OF not_blank_checkpoint])

lemmas journal_keys = PRIOR_STATE_KEY_def DELETION_KEY_def PHYSICAL_DELETION_KEY_def ARCHIVE_DELETION_KEY_def

lemma crash_parse: "parse_journal_payload crash_codec crash_payload = Inr crash_plan"
  using crash_prior_ok
  by (simp add: parse_journal_payload_def crash_payload_def required_field_def invalid_field_def crash_codec_def
      crash_plan_def journal_keys)

lemma crash_identity: "validate_payload_identity crash_entry crash_plan = Inr ()" "plan_matches_phase crash_entry crash_plan = Inr ()"
  by (simp_all add: validate_payload_identity_def crash_entry_def crash_plan_def sample_journal_def sample_replica_def
      crash_object_def new_object_def validate_physical_subset_def same_replica_descriptor_def plan_matches_phase_def
      pre_physical_def)

lemma not_blank_replica: "\<not> blank ''memory''" "\<not> blank ''k''"
  by code_simp+

lemma crash_replica_ok: "validate_replica_descriptor sample_replica = Inr ()"
  using not_blank_replica by (simp add: validate_replica_descriptor_def sample_replica_def sql_u64_def I64_MAX_def)

lemma crash_store_wf: "store_wf crash_store"
  using store_wf_empty crash_state_ok [of ReclaimPending] crash_replica_ok
  by (simp add: store_wf_def crash_store_def keyed_def object_stored_def validate_object_iff replica_stored_def dedup_stored_def
      sample_payload_def sample_attempt_def reservation_stored_def sample_reservation_def crash_entry_def sample_journal_def
      I64_MAX_def)


lemma crash_reads: "get_object 1 crash_store = Inr (Some (crash_object\<lparr>obj_state := ReclaimPending\<rparr>))"
  "all_replicas crash_store = Inr [sample_replica]" "list_objects crash_store = Inr [crash_object\<lparr>obj_state := ReclaimPending\<rparr>]"
  using crash_state_ok(1) crash_replica_ok
  by (simp_all add: get_object_def crash_store_def crash_object_def new_object_def load_object_def checked_object_def
      all_replicas_def load_replica_def checked_replica_def list_objects_def)

lemma crash_ids: "j_attempt_id crash_entry = 1" "j_object_id crash_entry = 1" "j_generation crash_entry = 1"
    "j_phase crash_entry = PhysicalDone" "j_payload crash_entry = crash_payload" "id crash_object = 1" "generation crash_object = 1"
  by (simp_all add: crash_entry_def sample_journal_def crash_object_def new_object_def)

lemma crash_plan_sel: "prior_object crash_plan = crash_object" "replica_deletions crash_plan = [sample_replica]"
    "physical_replica_deletions crash_plan = Some [sample_replica]" "archive_deletions crash_plan = []"
  by (simp_all add: crash_plan_def)

lemma crash_drop: "drop_replica crash_entry [sample_replica] sample_replica crash_store =
    (Inr (), crash_store\<lparr>t_replicas := [], t_dedup := [sample_payload\<lparr>ref_count := 1\<rparr>]\<rparr>)"
  by (simp add: drop_replica_def ignore_result_def delete_replica_def bindS_apply dedup_release_def tx_def Let_def crash_store_def
    sample_payload_def sample_replica_def dedup_id_def rows_count_def rows_update_def)

lemma update_object_runs:
  assumes "validate_object obj = Inr ()" and "object_fits obj" and "map id (t_objects s) = [id obj]"
  shows "update_object obj s = (Inr (), s\<lparr>t_objects := [obj]\<rparr>)"
proof -
  obtain q where q: "t_objects s = [q]" "id q = id obj" using assms(3) by (cases "t_objects s") auto
  moreover have "object_ints obj = Inr ()" using assms(2) by (simp add: object_ints_Inr)
  ultimately show ?thesis using assms(1)
    by (simp add: update_object_def bindS_apply tx_def update_object_row_def rows_count_def rows_update_def)
qed

lemma append_audit_runs:
  assumes "au_generation a = Some 1" and "audit_seq s = 0"
  shows "append_audit a s = (Inr (), write_audit a s)"
  using assms by (simp add: append_audit_def insert_audit_row_def updS_apply write_audit_def sql_optional_u64_def sql_u64_def
      next_rowid_def I64_MAX_def)

lemma crash_mark:
  "\<exists>s'. mark_reclaimed 9 crash_entry (crash_object\<lparr>obj_state := ReclaimPending\<rparr>)
      (crash_store\<lparr>t_replicas := [], t_dedup := [sample_payload\<lparr>ref_count := 1\<rparr>]\<rparr>) = (Inr (), s') \<and>
     t_attempts s' = t_attempts crash_store \<and> t_journal s' = t_journal crash_store \<and>
     t_objects s' = [crash_object\<lparr>obj_state := Reclaimed\<rparr>] \<and> t_replicas s' = [] \<and> t_lineage s' = [] \<and>
     t_dedup s' = [sample_payload\<lparr>ref_count := 1\<rparr>] \<and>
     t_reservations s' = [sample_reservation]"
proof -
  let ?s = "crash_store\<lparr>t_replicas := [], t_dedup := [sample_payload\<lparr>ref_count := 1\<rparr>]\<rparr>"
  let ?o = "crash_object\<lparr>obj_state := Reclaimed, replication_count := 0, physical_size := 0, compressed_size := None\<rparr>"
  have "update_object ?o ?s = (Inr (), ?s\<lparr>t_objects := [?o]\<rparr>)"
    by (rule update_object_runs) (simp_all add: crash_object_ok crash_object_fits crash_store_def)
  moreover have "audit_seq crash_store = 0" by (simp add: crash_store_def empty_store_def)
  ultimately show ?thesis
    by (simp add: mark_reclaimed_def bindS_apply append_audit_runs recovery_audit_def crash_ids write_audit_def crash_store_def
        empty_store_def crash_object_def new_object_def)
qed

lemma crash_close:
  assumes "t_attempts s = t_attempts crash_store" and "t_journal s = t_journal crash_store"
    and "t_reservations s = [sample_reservation]"
  shows "\<exists>s'. close_steps 1 ''COMMITTED'' ACommitted Committed 9 x s = (Inr x, s') \<and> t_objects s' = t_objects s \<and>
    t_replicas s' = t_replicas s \<and> t_lineage s' = t_lineage s \<and> t_dedup s' = t_dedup s \<and>
    t_reservations s' = [sample_reservation\<lparr>r_status := ''COMMITTED''\<rparr>]"
  using assms by (simp add: close_steps_def bindS_apply update_reservation_for_attempt_def validate_reservation_status_def reconcile_attempt_def
    tx_def close_attempt_def Let_def update_journal_phase_def crash_store_def rows_count_def rows_update_def
    sample_attempt_def crash_entry_def sample_journal_def sample_reservation_def)

lemma crash_close': "t_attempts s = t_attempts crash_store \<Longrightarrow> t_journal s = t_journal crash_store \<Longrightarrow> 
   \<exists>s'. close_steps 1 ''RELEASED'' ARolledBack RolledBack 9 x s = (Inr x, s')"
  by (simp add: close_steps_def bindS_apply update_reservation_for_attempt_def validate_reservation_status_def reconcile_attempt_def
    tx_def close_attempt_def Let_def update_journal_phase_def crash_store_def rows_count_def rows_update_def
    sample_attempt_def crash_entry_def sample_journal_def)

lemma crash_commit:
  "\<exists>s'. reconcile_entry crash_codec 9 crash_entry (\<lambda>_. Inr False) crash_store = (Inr OutCommitted, s') \<and>
     t_objects s' = [crash_object\<lparr>obj_state := Reclaimed\<rparr>] \<and> t_replicas s' = [] \<and> t_lineage s' = [] \<and>
     t_dedup s' = [sample_payload\<lparr>ref_count := 1\<rparr>] \<and>
     t_reservations s' = [sample_reservation\<lparr>r_status := ''COMMITTED''\<rparr>]"
proof -
  from crash_mark obtain s1 where 1: "mark_reclaimed 9 crash_entry (crash_object\<lparr>obj_state := ReclaimPending\<rparr>)
      (crash_store\<lparr>t_replicas := [], t_dedup := [sample_payload\<lparr>ref_count := 1\<rparr>]\<rparr>) = (Inr (), s1)"
     "t_attempts s1 = t_attempts crash_store" "t_journal s1 = t_journal crash_store" "t_reservations s1 = [sample_reservation]"
     "t_objects s1 = [crash_object\<lparr>obj_state := Reclaimed\<rparr>]" "t_replicas s1 = []" "t_lineage s1 = []"
     "t_dedup s1 = [sample_payload\<lparr>ref_count := 1\<rparr>]" by (elim exE conjE) rule
  from crash_close [OF 1(2-4), of OutCommitted] obtain s' where
    c: "close_steps 1 ''COMMITTED'' ACommitted Committed 9 OutCommitted s1 = (Inr OutCommitted, s')"
    and s': "t_objects s' = t_objects s1" "t_replicas s' = t_replicas s1" "t_lineage s' = t_lineage s1" "t_dedup s' = t_dedup s1"
      "t_reservations s' = [sample_reservation\<lparr>r_status := ''COMMITTED''\<rparr>]" by (elim exE conjE) rule
  have "commit_after_crash 9 crash_entry crash_plan crash_store = (Inr OutCommitted, s')"
    using c 1(1) by (simp add: commit_after_crash_close bindS_Inr crash_reads crash_ids crash_plan_sel crash_drop)
  then have "reconcile_entry crash_codec 9 crash_entry (\<lambda>_. Inr False) crash_store = (Inr OutCommitted, s')"
    by (auto simp: reconcile_entry_def bindS_Inr compatible_payload_def pre_physical_def crash_ids crash_parse crash_identity
        crash_plan_sel)
  then show ?thesis using s' 1 by simp
qed

lemma crash_repair: "\<exists>r s'. repair_dedup_counts (crash_store\<lparr>t_objects := [crash_object]\<rparr>) = (Inr r, s') \<and> audit_seq s' = 0 \<and>
    t_attempts s' = t_attempts crash_store \<and> t_journal s' = t_journal crash_store"
proof -
  let ?s = "crash_store\<lparr>t_objects := [crash_object]\<rparr>"
  have o: "list_objects ?s = Inr [crash_object]"
    using crash_prior_ok by (simp add: list_objects_def load_object_def checked_object_def)
  have r: "all_replicas ?s = Inr [sample_replica]"
    using crash_replica_ok by (simp add: all_replicas_def load_replica_def checked_replica_def crash_store_def)
  have "live_references ?s = Inr [(dedup_id sample_payload, \<lparr>live_count = 1, live_key = ''k'', live_size = 4\<rparr>)]"
    unfolding live_references_def o r
    by (simp add: count_live_def crash_ids sample_replica_def sample_payload_def dedup_id_def crash_object_def new_object_def)
  moreover have "list_dedup ?s = [sample_payload]" by (simp add: list_dedup_def crash_store_def)
  ultimately show ?thesis
    by (simp add: repair_dedup_counts_def bindS_apply repair_entry_def upsert_dedup_def live_dedup_def 
      validate_dedup_entry_def sql_u64_def sample_payload_def dedup_id_def I64_MAX_def bt_remove_def crash_store_def empty_store_def)
qed

lemma crash_rollback: "\<exists>s'. reconcile_entry crash_codec 9 crash_entry (\<lambda>_. Inr True) crash_store = (Inr OutRolledBack, s')"
proof -
  let ?s = "crash_store\<lparr>t_objects := [crash_object]\<rparr>"
  obtain r s1 where 1: "repair_dedup_counts ?s = (Inr r, s1)" "audit_seq s1 = 0"
    "t_attempts s1 = t_attempts crash_store" "t_journal s1 = t_journal crash_store" using crash_repair by blast
  let ?a = "recovery_audit 9 ''RECOVERY_ROLLBACK'' crash_entry (Some (state_str ReclaimPending)) (Some (state_str Created)) (phase_detail crash_entry)"
  have st: "obj_state crash_object = Created" by (simp add: crash_object_def new_object_def)
  have "update_object crash_object crash_store = (Inr (), ?s)"
    by (rule update_object_runs) (use crash_prior_ok crash_state_ok(2) [of Created] in
      \<open>simp_all add: crash_store_def crash_object_def new_object_def\<close>)
  then have o: "restore_object 9 crash_entry crash_plan crash_store = (Inr (Some ?a), ?s)"
    by (simp add: restore_object_def bindS_apply crash_reads crash_ids crash_plan_def st)
  have "all_replicas ?s = Inr [sample_replica]"
    using crash_replica_ok by (simp add: all_replicas_def load_replica_def checked_replica_def crash_store_def)
  then have m: "restore_rollback_metadata crash_entry crash_plan ?s = (Inr (), ?s)"
    by (simp add: restore_rollback_metadata_def bindS_apply crash_plan_def restore_replica_def)
  have a: "append_audit ?a s1 = (Inr (), write_audit ?a s1)"
    using 1(2) by (intro append_audit_runs) (simp_all add: recovery_audit_def crash_ids)
  have w: "t_attempts (write_audit ?a s1) = t_attempts crash_store" "t_journal (write_audit ?a s1) = t_journal crash_store"
    using 1(3,4) by (simp_all add: write_audit_def)
  from crash_close' [OF w] obtain s' where
    "close_steps 1 ''RELEASED'' ARolledBack RolledBack 9 OutRolledBack (write_audit ?a s1) = (Inr OutRolledBack, s')" ..
  then have "rollback 9 crash_entry crash_plan crash_store = (Inr OutRolledBack, s')"
    using a by (simp add: rollback_close bindS_Inr o m 1(1) crash_ids)
  then show ?thesis
    by (auto simp: reconcile_entry_def bindS_Inr compatible_payload_def pre_physical_def crash_ids crash_parse crash_identity
        crash_plan_sel)
qed

lemma crash_restored: "update_object crash_object crash_store = (Inr (), crash_store\<lparr>t_objects := [crash_object]\<rparr>)"
  by (rule update_object_runs) (use crash_prior_ok crash_state_ok(2) [of Created] in
      \<open>simp_all add: crash_store_def crash_object_def new_object_def\<close>)

lemma reconcile_lineage_runs:
  assumes "t_lineage s = []"
  shows "\<exists>rep'. reconcile_lineage rep s = (Inr rep', s) \<and> committed rep' = committed rep"
proof -
  let ?g = "fold (\<lambda>obj. add_object (id obj)) (t_objects s) empty_graph"
  have "stored_lineage_graph s = Inr ?g" using assms by (simp add: stored_lineage_graph_def)
  moreover have "graph_wf ?g" using fold_add_object [OF graph_wf_empty, of "t_objects s"] by simp
  from validate_graph_no_panic [OF graph_wf_agree(1) [OF this]] obtain r where "validate_graph ?g = Some r" ..
  ultimately show ?thesis by (cases r) (auto simp: reconcile_lineage_def bindS_Inr)
qed

lemma crash_reconcile:
  "\<exists>rep s'. reconcile_store crash_codec 9 (\<lambda>_. Inr False) crash_store = (Inr rep, s') \<and> committed rep = [1]"
proof -
  from crash_commit obtain s1 where 1: "reconcile_entry crash_codec 9 crash_entry (\<lambda>_. Inr False) crash_store = (Inr OutCommitted, s1)"
     "t_objects s1 = [crash_object\<lparr>obj_state := Reclaimed\<rparr>]" "t_replicas s1 = []" "t_lineage s1 = []"
     "t_dedup s1 = [sample_payload\<lparr>ref_count := 1\<rparr>]"
     "t_reservations s1 = [sample_reservation\<lparr>r_status := ''COMMITTED''\<rparr>]" by (elim exE conjE) rule
  let ?rep = "empty_report\<lparr>reconciled_attempts := 1, committed := [1]\<rparr>"
  have "foldS (reconcile_one crash_codec 9 (\<lambda>_. Inr False)) (list_open_journal crash_store) empty_report crash_store = (Inr ?rep, s1)"
    by (simp add: list_open_journal_def crash_store_def crash_ids(4))
      (simp add: bindS_Inr reconcile_one_def 1(1) [unfolded crash_store_def] crash_ids empty_report_def)
  moreover have "list_open_reservations s1 = Inr []" by (simp add: list_open_reservations_def 1)
  moreover have "live_references s1 = Inr []"
    using crash_state_ok(1) by (simp add: live_references_def list_objects_def all_replicas_def 1 load_object_def checked_object_def)
  then have "\<exists>r s2. repair_dedup_counts s1 = (Inr r, s2) \<and> t_lineage s2 = []"
    by (simp add: repair_dedup_counts_def bindS_Inr list_dedup_def 1 repair_entry_def delete_dedup_def)
  then obtain r s2 where "repair_dedup_counts s1 = (Inr r, s2)" "t_lineage s2 = []" by blast
  ultimately show ?thesis
    using reconcile_lineage_runs [of s2 "?rep\<lparr>abandoned_reservations := 0, dedup_repairs := r\<rparr>"]
    by (auto simp: reconcile_store_def bindS_Inr)
qed

theorem recovery_fails_closed_witness:
  "(\<exists>s'. reconcile_entry crash_codec 9 crash_entry (\<lambda>_. Inr False) crash_store = (Inr OutCommitted, s')) \<and>
   (\<exists>p. parse_journal_payload crash_codec crash_payload = Inr p \<and> validate_payload_identity crash_entry p = Inr ()) \<and>
   (\<exists>y. reconcile_entry crash_codec 9 crash_entry (\<lambda>_. Inl (Internal [])) crash_store = (Inl y, crash_store))"
proof (intro conjI)
  from crash_commit show 1: "\<exists>s'. reconcile_entry crash_codec 9 crash_entry (\<lambda>_. Inr False) crash_store = (Inr OutCommitted, s')"
    by (elim exE conjE) rule
  then have "fst (reconcile_entry crash_codec 9 crash_entry (\<lambda>_. Inr False) crash_store) = Inr OutCommitted" by auto
  with recovery_fails_closed [of crash_codec 9 crash_entry "\<lambda>_. Inr False" crash_store]
  show "\<exists>p. parse_journal_payload crash_codec crash_payload = Inr p \<and> validate_payload_identity crash_entry p = Inr ()"
    unfolding crash_ids by blast
  from recovery_fails_closed [of crash_codec 9 crash_entry "\<lambda>_. Inl (Internal [])" crash_store]
  show "\<exists>y. reconcile_entry crash_codec 9 crash_entry (\<lambda>_. Inl (Internal [])) crash_store = (Inl y, crash_store)"
    by (simp add: crash_ids crash_parse crash_plan_sel)
qed

theorem recovery_commit_complete_witness:
  "let s' = snd (reconcile_entry crash_codec 9 crash_entry (\<lambda>_. Inr False) crash_store) in
   attempt_closed 1 Committed ACommitted s' \<and> 1 \<notin> replica_id ` set (t_replicas s')"
proof -
  from crash_commit obtain s' where c: "reconcile_entry crash_codec 9 crash_entry (\<lambda>_. Inr False) crash_store = (Inr OutCommitted, s')"
    by (elim exE conjE) rule
  from recovery_commit_complete [OF c crash_store_wf] show ?thesis
    by (simp add: c crash_ids crash_parse crash_plan_sel sample_replica_def)
qed

theorem recovery_rollback_complete_witness:
  "let s' = snd (reconcile_entry crash_codec 9 crash_entry (\<lambda>_. Inr True) crash_store) in
   attempt_closed 1 RolledBack ARolledBack s' \<and> (\<exists>a\<in>set (t_replicas s'). replica_restored sample_replica a) \<and>
   store_refs s' (dedup_id sample_payload) = Some (length (sharing (t_replicas s') (dedup_id sample_payload)))"
proof -
  from crash_rollback obtain s' where c: "reconcile_entry crash_codec 9 crash_entry (\<lambda>_. Inr True) crash_store = (Inr OutRolledBack, s')" ..
  have "compatible_payload crash_entry = crash_payload" by (simp add: compatible_payload_def pre_physical_def crash_ids)
  then show ?thesis using recovery_rollback_complete [OF c crash_store_wf]
    by (simp add: c crash_ids crash_parse crash_plan_sel del: split_paired_All)
qed

theorem repair_dedup_counts_exact_witness:
  "store_refs (snd (repair_dedup_counts (crash_store\<lparr>t_objects := [crash_object]\<rparr>))) (dedup_id sample_payload) = Some 1"
proof -
  let ?s = "crash_store\<lparr>t_objects := [crash_object]\<rparr>"
  from crash_repair obtain r s' where c: "repair_dedup_counts ?s = (Inr r, s')" by (elim exE conjE) rule
  have "store_wf ?s" using wf.k_update_object crash_restored crash_store_wf by (rule keepsE)
  from repair_dedup_counts_exact [OF c this]
  have "store_refs s' (dedup_id sample_payload) = Some (length (sharing [sample_replica] (dedup_id sample_payload)))"
    by (simp add: crash_store_def del: split_paired_All)
  then show ?thesis
    by (simp add: c sharing_def replica_identity_def sample_replica_def dedup_id_def sample_payload_def)
qed

theorem reconcile_store_report_witness:
  "\<exists>rep s'. reconcile_store crash_codec 9 (\<lambda>_. Inr False) crash_store = (Inr rep, s') \<and> committed rep = [1] \<and>
     settled 1 Committed ACommitted s' \<and> store_wf s'"
proof -
  from crash_reconcile obtain rep s' where c: "reconcile_store crash_codec 9 (\<lambda>_. Inr False) crash_store = (Inr rep, s')"
    "committed rep = [1]" by (elim exE conjE) rule
  from reconcile_store_report [OF c(1) crash_store_wf] c show ?thesis by auto
qed

subsection \<open>Journal payloads\<close>

lemma journal_keys_distinct: "distinct [PRIOR_STATE_KEY, DELETION_KEY, PHYSICAL_DELETION_KEY, ARCHIVE_DELETION_KEY]"
  by (simp add: journal_keys)

lemma parse_fields:
  assumes "map_of m PRIOR_STATE_KEY = Some pv" and "json_object jc pv = Inr prior" and "validate_object prior = Inr ()"
    and "map_of m DELETION_KEY = Some dv" and "json_replicas jc dv = Inr dels"
    and "map_of m PHYSICAL_DELETION_KEY = Some phv"
    and "(case phv of JNull \<Rightarrow> Inr None
      | _ \<Rightarrow> bindr (invalid_field PHYSICAL_DELETION_KEY (json_replicas jc phv)) (\<lambda>rs. Inr (Some rs))) = Inr phys"
    and "map_of m ARCHIVE_DELETION_KEY = Some av" and "json_archives jc av = Inr archs"
  shows "parse_journal_payload jc (JObject m) = Inr \<lparr>prior_object = prior,
      replica_deletions = dels, physical_replica_deletions = phys, archive_deletions = archs\<rparr>"
  using assms by (simp add: parse_journal_payload_def required_field_def invalid_field_def)



end
