(* ===== verification/ReclaimScenario.thy ===== *)
theory ReclaimScenario
  imports ReclaimOutcome CrashScenario
begin

section \<open>A reclaim, run (src/coordinator.rs)\<close>

text \<open>
  A coordinator with one object and one replica on a memory backend, and environments in which
  the deletion succeeds or fails. The properties of theory ReclaimOutcome are applied to it.
\<close>

subsection \<open>The coordinator\<close>

definition demo_object :: reclaim_object where
  "demo_object = sample_object\<lparr>obj_state := Hot\<rparr>"

definition demo_replica :: replica where
  "demo_replica = sample_replica\<lparr>rep_object_id := 7, valid := False\<rparr>"

definition demo_row :: coordinator_state where
  "demo_row = \<lparr>epoch = 1, process_id = ''p'', boot_id = 1, last_seen_ms = 5\<rparr>"

definition demo_codec :: journal_codec where
  "demo_codec = \<lparr>object_json = (\<lambda>_. JString ''object''), json_object = (\<lambda>_. Inr demo_object),
     replicas_json = (\<lambda>_. JArray [JString ''replica'']), json_replicas = (\<lambda>_. Inr [demo_replica]),
     archives_json = (\<lambda>_. JArray []), json_archives = (\<lambda>_. Inr [])\<rparr>"

text \<open>The clock stands still; \<open>gone\<close> is what the backend does on a deletion.\<close>

definition demo_env :: "unit result \<Rightarrow> unit environment" where
  "demo_env gone = \<lparr>env_now = (\<lambda>w. (5, w)), env_uuid = (\<lambda>w. (9, w)), env_stamp = (\<lambda>_. 5),
     backend_put = (\<lambda>_ _ bs w. (Inr (length bs), w)), backend_get = (\<lambda>_ _ w. (Inr [], w)),
     backend_delete = (\<lambda>_ _ w. (gone, w)), backend_exists = (\<lambda>_ _ w. (Inr False, w)),
     archive_drop = (\<lambda>_ _ w. (Inr (), w)), archive_exists = (\<lambda>_ _ w. (Inr False, w)),
     node_call = (\<lambda>_ _ _ w. (Inl (Transport []), w)), external_metrics = (\<lambda>_ _. default_metrics),
     env_order = (\<lambda>ks. ks), env_sha = (\<lambda>_. []), env_codec = demo_codec, base64 = (\<lambda>_. []),
     from_base64 = (\<lambda>_. Inr []), uuid_text = (\<lambda>_. ''id''), msg_text = (\<lambda>_. ''reason'')\<rparr>"

definition demo :: "store \<Rightarrow> uuid list \<Rightarrow> (string \<times> content_hash) list \<Rightarrow> unit coordinator" where
  "demo s xs ks = \<lparr>co_store = s, co_epoch = 1, co_boot_id = 1, co_policies = with_defaults,
     co_pressure = new_registry, co_backends = [''memory''], co_archives = [], co_nodes = [],
     active_objects = xs, active_payloads = ks, active_recovery = False,
     co_config = \<lparr>cfg_process_id = ''p'', reservation_ttl_ms = 60, node_heartbeat_timeout_ms = 60\<rparr>,
     authority_lost = False, shutdown_requested = False, world = ()\<rparr>"

definition demo_store :: "reclaim_object \<Rightarrow> replica list \<Rightarrow> dedup_entry list \<Rightarrow> attempt list \<Rightarrow> reservation list
    \<Rightarrow> journal_entry list \<Rightarrow> decision_row list \<Rightarrow> audit_entry list \<Rightarrow> nat \<Rightarrow> store" where
  "demo_store obj reps ded att res jou ds aus n = \<lparr>t_objects = [obj], t_replicas = reps, t_lineage = [], t_dedup = ded,
     t_decisions = ds, t_attempts = att, t_reservations = res, t_coordinator = Some demo_row, t_archives = [],
     t_failures = [], t_audit = aus, t_journal = jou, t_policies = [], decision_seq = length ds, failure_seq = 0,
     audit_seq = n\<rparr>"

lemma demo_store_sel [simp]:
  "t_objects (demo_store obj reps ded att res jou ds aus n) = [obj]" "t_replicas (demo_store obj reps ded att res jou ds aus n) = reps"
  "t_lineage (demo_store obj reps ded att res jou ds aus n) = []" "t_dedup (demo_store obj reps ded att res jou ds aus n) = ded"
  "t_decisions (demo_store obj reps ded att res jou ds aus n) = ds" "t_attempts (demo_store obj reps ded att res jou ds aus n) = att"
  "t_reservations (demo_store obj reps ded att res jou ds aus n) = res"
  "t_coordinator (demo_store obj reps ded att res jou ds aus n) = Some demo_row"
  "t_archives (demo_store obj reps ded att res jou ds aus n) = []" "t_journal (demo_store obj reps ded att res jou ds aus n) = jou"
  "audit_seq (demo_store obj reps ded att res jou ds aus n) = n" "decision_seq (demo_store obj reps ded att res jou ds aus n) = length ds"
  "t_audit (demo_store obj reps ded att res jou ds aus n) = aus"
  by (simp_all add: demo_store_def)

lemma demo_store_upd [simp]:
  "(demo_store obj reps ded att res jou ds aus n)\<lparr>t_objects := [x]\<rparr> = demo_store x reps ded att res jou ds aus n"
  "(demo_store obj reps ded att res jou ds aus n)\<lparr>t_replicas := x1\<rparr> = demo_store obj x1 ded att res jou ds aus n"
  "(demo_store obj reps ded att res jou ds aus n)\<lparr>t_dedup := x2\<rparr> = demo_store obj reps x2 att res jou ds aus n"
  "(demo_store obj reps ded att res jou ds aus n)\<lparr>t_attempts := x3\<rparr> = demo_store obj reps ded x3 res jou ds aus n"
  "(demo_store obj reps ded att res jou ds aus n)\<lparr>t_reservations := x4\<rparr> = demo_store obj reps ded att x4 jou ds aus n"
  "(demo_store obj reps ded att res jou ds aus n)\<lparr>t_journal := x5\<rparr> = demo_store obj reps ded att res x5 ds aus n"
  "(demo_store obj reps ded att res jou ds aus n)\<lparr>t_archives := []\<rparr> = demo_store obj reps ded att res jou ds aus n"
  "(demo_store obj reps ded att res jou ds aus n)\<lparr>t_coordinator := Some demo_row\<rparr> = demo_store obj reps ded att res jou ds aus n"
  "(demo_store obj reps ded att res jou ds aus n)\<lparr>t_audit := x6, audit_seq := m\<rparr> = demo_store obj reps ded att res jou ds x6 m"
  by (simp_all add: demo_store_def)

lemma demo_decided [simp]:
  "(demo_store obj reps ded att res jou ds aus n)\<lparr>t_decisions := ds @ [d], decision_seq := Suc (length ds)\<rparr> =
     demo_store obj reps ded att res jou (ds @ [d]) aus n"
  by (simp add: demo_store_def)

lemma demo_sel [simp]:
  "co_store (demo s xs ks) = s" "active_objects (demo s xs ks) = xs" "active_payloads (demo s xs ks) = ks"
  "\<not> authority_lost (demo s xs ks)" "\<not> shutdown_requested (demo s xs ks)" "\<not> active_recovery (demo s xs ks)"
  "co_archives (demo s xs ks) = []" "co_nodes (demo s xs ks) = []" "co_backends (demo s xs ks) = [''memory'']"
  "co_policies (demo s xs ks) = with_defaults" "co_pressure (demo s xs ks) = new_registry" "co_epoch (demo s xs ks) = 1"
  "reservation_ttl_ms (co_config (demo s xs ks)) = 60" "(demo s xs ks)\<lparr>co_store := s'\<rparr> = demo s' xs ks"
  "(demo s xs ks)\<lparr>active_objects := xs'\<rparr> = demo s xs' ks" "(demo s xs ks)\<lparr>active_payloads := ks'\<rparr> = demo s xs ks'"
  by (simp_all add: demo_def)

lemma demo_clock [simp]:
  "read_clock (demo_env g) (demo s xs ks) = (Inr 5, demo s xs ks)" "new_v4 (demo_env g) (demo s xs ks) = (Inr 9, demo s xs ks)"
  by (simp_all add: read_clock_def new_v4_def on_world_def demo_env_def demo_def)

lemma demo_on_world [simp]: "on_world f (demo s xs ks) = (fst (f ()), demo s xs ks)"
  by (simp add: on_world_def demo_def split: prod.splits)

lemma demo_env_sel [simp]:
  "backend_delete (demo_env g) b k w = (g, w)" "backend_exists (demo_env g) b k w = (Inr False, w)"
  "env_codec (demo_env g) = demo_codec"
  by (simp_all add: demo_env_def)

lemma demo_on_store [simp]: "on_store m (demo s xs ks) = (fst (m s), demo (snd (m s)) xs ks)"
  by (simp add: on_store_def split: prod.splits)

lemma demo_inner [simp]:
  "with_inner (demo_env g) f (demo (demo_store obj reps ded att res jou ds aus n) xs ks) =
     f (demo (demo_store obj reps ded att res jou ds aus n) xs ks)"
proof -
  let ?s = "demo_store obj reps ded att res jou ds aus n"
  have "coordinator_heartbeat ''p'' 1 1 5 ?s = (Inr (), ?s)"
    by (simp add: coordinator_heartbeat_def update_authority_def bindS_apply execS_apply sql_u64_def I64_MAX_def holds_def)
      (simp add: demo_row_def demo_store_def)
  then show ?thesis by (simp add: with_inner_def bindS_apply) (simp add: demo_def)
qed

lemma demo_asked [simp]:
  "asked (demo_env g) h (demo (demo_store obj reps ded att res jou ds aus n) xs ks) =
     (h (demo_store obj reps ded att res jou ds aus n), demo (demo_store obj reps ded att res jou ds aus n) xs ks)"
  by (simp add: asked_def locked_def)

text \<open>Writing the row of the object with an audit entry.\<close>

lemma demo_object_ok: "validate_object (demo_object\<lparr>obj_state := st\<rparr>) = Inr ()" "object_fits (demo_object\<lparr>obj_state := st\<rparr>)"
    "id demo_object = 7" "generation demo_object = 1"
  using sample_object_ok
  by (simp_all add: validate_object_iff object_ok_def cost_ok_def object_fits_def demo_object_def sample_object_def new_object_def
      I64_MAX_def)

lemma demo_id: "id (demo_object\<lparr>obj_state := st\<rparr>) = 7"
  by (simp add: demo_object_ok)

lemma demo_audit:
  assumes "au_generation a = Some 1" and "n < 100"
  shows "\<exists>aus'. insert_audit_row a (demo_store obj reps ded att res jou ds aus n) =
    (Inr (), demo_store obj reps ded att res jou ds aus' (Suc n))"
proof -
  have "insert_audit_row a (demo_store obj reps ded att res jou ds aus n) =
    (Inr (), demo_store obj reps ded att res jou ds (aus @ [a\<lparr>au_id := 1 + int n\<rparr>]) (Suc n))"
    using assms by (simp add: insert_audit_row_def updS_apply sql_optional_u64_def sql_u64_def next_rowid_def I64_MAX_def)
  then show ?thesis by blast
qed

lemma demo_update:
  assumes "n < 100" and "id obj = 7"
  shows "\<exists>aus'. update_object_with_audit (demo_object\<lparr>obj_state := st\<rparr>)
      (object_audit now who act (demo_object\<lparr>obj_state := st0\<rparr>) (Some (state_str p)) (Some (state_str st)) pol attid dt)
      (demo_store obj reps ded att res jou ds aus n) =
    (Inr (), demo_store (demo_object\<lparr>obj_state := st\<rparr>) reps ded att res jou ds aus' (Suc n))"
proof -
  let ?o = "demo_object\<lparr>obj_state := st\<rparr>"
  let ?a = "object_audit now who act (demo_object\<lparr>obj_state := st0\<rparr>) (Some (state_str p)) (Some (state_str st)) pol attid dt"
  have a: "au_generation ?a = Some 1" by (simp add: object_audit_def demo_object_ok)
  have "object_ints ?o = Inr ()" using demo_object_ok(2) by (simp add: object_ints_Inr)
  moreover have "validate_object_audit ?o ?a = Inr ()"
    by (simp add: validate_object_audit_def object_audit_def demo_object_ok)
  moreover obtain aus' where "insert_audit_row ?a (demo_store ?o reps ded att res jou ds aus n) =
    (Inr (), demo_store ?o reps ded att res jou ds aus' (Suc n))" using demo_audit [OF a assms(1)] by blast
  ultimately show ?thesis using demo_object_ok assms(2)
    by (simp add: update_object_with_audit_def bindS_apply tx_def update_object_row_def rows_count_def rows_update_def) blast
qed

subsection \<open>The stages\<close>

lemma demo_decide:
  "\<exists>d. decide with_defaults demo_object Normal 1 5 \<lparr>ctx_dependency_value = Fin 0, ctx_survivability_value = Fin 0\<rparr> = Inr d \<and>
    is_finite (score (pd_decision d)) \<and> is_finite (threshold (pd_decision d)) \<and>
    dec_generation (pd_decision d) = 1 \<and> dec_epoch (pd_decision d) = 1"
proof -
  have "derive demo_object now (Fin 1) = derive sample_object now (Fin 1)" for now
    by (simp add: derive_def demo_object_def)
  moreover have "resolve with_defaults demo_object Normal = Inr default_policy" by (simp add: default_tiers)
  moreover have "pol_weights default_policy = default_weights" "reclaim_threshold default_policy = Fin 0"
    by (simp_all add: default_policy_def)
  moreover have "is_finite (reclaim_score (evaluate (sample_inputs (Fin 0) (Fin 64)) default_weights (Fin 0) (Fin 0)))"
    using evaluate_sample(1) validate_components_iff by blast
  moreover have "generation sample_object = 1" using demo_object_ok(4) by (simp add: demo_object_def)
  ultimately show ?thesis
    using demo_object_ok(1) [of Hot] default_policies_valid(1)
    by (auto simp: decide_def derive_sample sample_inputs_valid evaluate_sample demo_object_def Let_def)
qed

lemma demo_object_loads: "load_object (demo_object\<lparr>obj_state := st\<rparr>) = Inr (demo_object\<lparr>obj_state := st\<rparr>)"
  using demo_object_ok by (simp add: load_object_def map_err_Inr_iff checked_object_Inr validate_object_iff)

lemma demo_object_hot: "demo_object\<lparr>obj_state := Hot\<rparr> = demo_object" "obj_state demo_object = Hot"
  by (simp_all add: demo_object_def)

lemma demo_require:
  "require_object 7 (demo_store (demo_object\<lparr>obj_state := st\<rparr>) reps ded att res jou ds aus n) = Inr (demo_object\<lparr>obj_state := st\<rparr>)"
  by (simp add: require_object_def get_object_def demo_object_ok demo_object_loads)

lemma demo_lists:
  "list_objects (demo_store (demo_object\<lparr>obj_state := st\<rparr>) reps ded att res jou ds aus n) = Inr [demo_object\<lparr>obj_state := st\<rparr>]"
  "stored_lineage_graph (demo_store obj reps ded att res jou ds aus n) = Inr (add_object (id obj) empty_graph)"
  "archives_for i (demo_store obj reps ded att res jou ds aus n) = []"
  by (simp_all add: list_objects_def demo_object_loads stored_lineage_graph_def archives_for_def)

lemma demo_replica_ok: "validate_replica_descriptor demo_replica = Inr ()"
  using not_blank_replica by (simp add: validate_replica_descriptor_def demo_replica_def sample_replica_def sql_u64_def I64_MAX_def)

lemma demo_replicas:
  "replicas_for 7 (demo_store obj [demo_replica] ded att res jou ds aus n) = Inr [demo_replica]"
  "valid_replica_count 7 (demo_store obj [demo_replica] ded att res jou ds aus n) = 0"
  using demo_replica_ok
  by (simp_all add: replicas_for_def load_replica_def checked_replica_def valid_replica_count_def rows_count_def)
    (simp_all add: demo_replica_def)

lemma demo_edges: "entries (parents (add_object i empty_graph)) j = []"
  by (simp add: add_object_def empty_graph_def entries_def unwrap_or_def)

lemma demo_context:
  "decision_context (demo_env g) demo_object (demo (demo_store demo_object [demo_replica] ded att res jou ds aus n) xs ks) =
    (Inr \<lparr>ctx_dependency_value = Fin 0, ctx_survivability_value = Fin 0\<rparr>,
     demo (demo_store demo_object [demo_replica] ded att res jou ds aus n) xs ks)"
  using demo_lists(1) [of Hot "[demo_replica]" ded att res jou ds aus n]
  by (simp add: decision_context_def lineage_def bindS_apply demo_lists demo_replicas demo_object_ok demo_object_hot
      dependency_weight_def demo_edges survivability_weight_def f64_eval)

lemma demo_plan:
  assumes "n < 50" and "length ds < 50"
  shows "\<exists>d ds' aus'. plan (demo_env g) 7 who (demo (demo_store demo_object [demo_replica] ded att res jou ds aus n) xs ks) =
    (Inr d, demo (demo_store demo_object [demo_replica] ded att res jou ds' aus' (Suc n)) xs ks)"
proof -
  let ?s = "\<lambda>ds aus n. demo_store demo_object [demo_replica] ded att res jou ds aus n"
  obtain d where d: "decide with_defaults demo_object Normal 1 5 \<lparr>ctx_dependency_value = Fin 0, ctx_survivability_value = Fin 0\<rparr> = Inr d"
    "is_finite (score (pd_decision d))" "is_finite (threshold (pd_decision d))" "dec_generation (pd_decision d) = 1"
    "dec_epoch (pd_decision d) = 1" using demo_decide by blast
  let ?r = "\<lparr>d_id = 1 + int (length ds), d_decision = pd_decision d, d_created_at_ms = 5\<rparr>"
  have ins: "insert_decision 5 (pd_decision d) (?s ds aus n) = (Inr (), ?s (ds @ [?r]) aus n)"
    using d assms(2) by (simp add: insert_decision_def updS_apply sql_u64_def next_rowid_def I64_MAX_def)
  have aud: "\<exists>aus'. append_audit (object_audit 5 who act demo_object p q pol a dt) (?s (ds @ [?r]) aus n) =
      (Inr (), ?s (ds @ [?r]) aus' (Suc n))" for act p q pol a dt
    unfolding append_audit_def by (rule demo_audit) (use assms in \<open>simp_all add: object_audit_def demo_object_ok\<close>)
  have pr: "read_pressure (demo_env g) (demo (?s ds aus n) xs ks) = (Inr Normal, demo (?s ds aus n) xs ks)"
    by (simp add: read_pressure_def try_level_def try_aggregate_def new_registry_def metrics_level_default)
  have st: "env_stamp (demo_env g) w = 5" for w by (simp add: demo_env_def)
  obtain aus' where "append_audit (object_audit 5 who ''DECISION'' demo_object (Some (state_str (obj_state demo_object))) None
         (Some (dec_policy_id (pd_decision d))) None
         (JObject [(''explanation'', explanation d), (''score'', JFloat (score (pd_decision d))),
           (''threshold'', JFloat (threshold (pd_decision d))),
           (''verdict'', JString (verdict_dbg (verdict (pd_decision d))))])) (?s (ds @ [?r]) aus n) =
      (Inr (), ?s (ds @ [?r]) aus' (Suc n))" using aud by blast
  then have "plan (demo_env g) 7 who (demo (?s ds aus n) xs ks) = (Inr d, demo (?s (ds @ [?r]) aus' (Suc n)) xs ks)"
    using demo_require [of Hot "[demo_replica]" ded att res jou ds aus n]
    by (simp add: plan_def bindS_apply demo_object_hot demo_context pr d(1) [simplified] ins st)
  then show ?thesis by blast
qed

definition demo_attempt :: "attempt_status \<Rightarrow> attempt" where
  "demo_attempt st = \<lparr>a_attempt_id = 9, a_object_id = 7, a_generation = 1, a_node = ''coordinator'', a_created_at_ms = 5,
     a_updated_at_ms = 5, a_status = st\<rparr>"

definition demo_reservation :: "string \<Rightarrow> reservation" where
  "demo_reservation st = \<lparr>reservation_id = 9, r_attempt_id = 9, r_object_id = 7, r_generation = 1, r_node = ''coordinator'',
     r_created_at_ms = 5, expires_at_ms = 65, r_status = st\<rparr>"

definition demo_journal :: "journal_phase \<Rightarrow> json \<Rightarrow> journal_entry" where
  "demo_journal ph pay = \<lparr>j_attempt_id = 9, j_object_id = 7, j_generation = 1, j_phase = ph, j_created_at_ms = 5,
     j_updated_at_ms = 5, j_payload = pay\<rparr>"

definition demo_report :: "policy_decision \<Rightarrow> reclaim_report" where
  "demo_report d = new_report demo_object 9 9 d"

lemma demo_reserve:
  "reserve_reclaim (demo_env g) 5 demo_object pay (demo_report d) (demo (demo_store obj reps ded [] [] [] ds aus n) xs ks) =
    (Inr (), demo (demo_store obj reps ded [demo_attempt AOpen] [demo_reservation ''OPEN''] [demo_journal Reserved pay] ds aus n) xs ks)"
  by (simp add: reserve_reclaim_def bindS_apply locked_def demo_report_def new_report_def checked_add_i64_def I64_MAX_def I64_MIN_def
      create_reclaim_reservation_def validate_reservation_status_def demo_object_ok sql_u64_def tx_def updS_apply unique_insert_def
      demo_attempt_def demo_reservation_def demo_journal_def)

lemma demo_transition:
  assumes "check_transition st to = Inr Allowed" and "n < 100"
  shows "\<exists>aus'. apply_transition (demo_env g) (demo_object\<lparr>obj_state := st\<rparr>) to who act pol attid
      (demo (demo_store (demo_object\<lparr>obj_state := st\<rparr>) reps ded att res jou ds aus n) xs ks) =
    (Inr (demo_object\<lparr>obj_state := to\<rparr>), demo (demo_store (demo_object\<lparr>obj_state := to\<rparr>) reps ded att res jou ds aus' (Suc n)) xs ks)"
proof -
  obtain aus' where "update_object_with_audit (demo_object\<lparr>obj_state := to\<rparr>)
      (object_audit 5 who act (demo_object\<lparr>obj_state := st\<rparr>) (Some (state_str st)) (Some (state_str to)) pol attid (JObject []))
      (demo_store (demo_object\<lparr>obj_state := st\<rparr>) reps ded att res jou ds aus n) =
    (Inr (), demo_store (demo_object\<lparr>obj_state := to\<rparr>) reps ded att res jou ds aus' (Suc n))"
    using demo_update [OF assms(2)] demo_object_ok(3) by (metis (no_types, lifting) demo_id)
  then show ?thesis using assms(1) by (simp add: apply_transition_def bindS_apply Let_def) blast
qed

abbreviation demo_rows :: "reclaim_object \<Rightarrow> attempt_status \<Rightarrow> string \<Rightarrow> journal_phase \<Rightarrow> json \<Rightarrow> decision_row list
    \<Rightarrow> audit_entry list \<Rightarrow> nat \<Rightarrow> store" where
  "demo_rows obj ast rst ph pay ds aus n \<equiv> demo_store obj [demo_replica] [sample_payload\<lparr>ref_count := 1\<rparr>] [demo_attempt ast]
     [demo_reservation rst] [demo_journal ph pay] ds aus n"

lemma demo_pend:
  assumes "n < 50"
  shows "\<exists>aus'. pend_object (demo_env g) q d demo_object rep (demo (demo_store demo_object reps ded att res jou ds aus n) xs ks) =
    (Inr (demo_object\<lparr>obj_state := ReclaimPending\<rparr>),
     demo (demo_store (demo_object\<lparr>obj_state := ReclaimPending\<rparr>) reps ded att res jou ds aus' (n + 2)) xs ks)"
proof -
  let ?pol = "Some (dec_policy_id (pd_decision d))" and ?att = "Some (rr_attempt_id rep)"
  have t: "check_transition Hot Recomputable = Inr Allowed" "check_transition Recomputable ReclaimPending = Inr Allowed"
    by (simp_all add: check_transition_def)
  obtain a1 where 1: "apply_transition (demo_env g) demo_object Recomputable (rq_actor q) ''RECLAIM_STEP_RECOMPUTABLE'' ?pol ?att
      (demo (demo_store demo_object reps ded att res jou ds aus n) xs ks) =
    (Inr (demo_object\<lparr>obj_state := Recomputable\<rparr>), demo (demo_store (demo_object\<lparr>obj_state := Recomputable\<rparr>) reps ded att res jou ds a1 (Suc n)) xs ks)"
    using demo_transition [OF t(1), of n, unfolded demo_object_hot] assms by fastforce
  obtain a2 where 2: "apply_transition (demo_env g) (demo_object\<lparr>obj_state := Recomputable\<rparr>) ReclaimPending (rq_actor q) ''RECLAIM_RESERVED'' ?pol ?att
      (demo (demo_store (demo_object\<lparr>obj_state := Recomputable\<rparr>) reps ded att res jou ds a1 (Suc n)) xs ks) =
    (Inr (demo_object\<lparr>obj_state := ReclaimPending\<rparr>), demo (demo_store (demo_object\<lparr>obj_state := ReclaimPending\<rparr>) reps ded att res jou ds a2 (Suc (Suc n))) xs ks)"
    using demo_transition [OF t(2), of "Suc n"] assms by fastforce
  show ?thesis using 1 2 by (simp add: pend_object_def Let_def demo_object_hot releasing_state_def bindS_apply) blast
qed

lemma demo_survives:
  "check_survivability (demo_env g) demo_object [demo_replica] 0 (demo (demo_store obj [demo_replica] ded att res jou ds aus n) xs ks) =
    (Inr (), demo (demo_store obj [demo_replica] ded att res jou ds aus n) xs ks)"
  using demo_replicas demo_object_ok(3)
  by (simp add: check_survivability_def valid_copy_count_def bindS_apply Let_def demo_lists)
    (simp add: demo_object_def sample_object_def new_object_def)

lemma demo_independent:
  "check_dependencies (demo_env g) demo_object (demo (demo_store (demo_object\<lparr>obj_state := st\<rparr>) reps ded att res jou ds aus n) xs ks) =
    (Inr (), demo (demo_store (demo_object\<lparr>obj_state := st\<rparr>) reps ded att res jou ds aus n) xs ks)"
proof -
  have "depends_rel (add_object 7 empty_graph) = {}" by (simp add: depends_rel_def demo_edges)
  then have "dependency_safe (add_object 7 empty_graph) 7 rc dead = Inr ()" for rc dead
    by (simp add: dependency_safe_Inr_iff)
  then show ?thesis by (simp add: check_dependencies_def lineage_def bindS_apply demo_lists demo_object_ok)
qed

lemma demo_validate:
  "validate_reclaim (demo_env g) rep' demo_object [demo_replica] []
     (demo (demo_rows (demo_object\<lparr>obj_state := st\<rparr>) AOpen ''OPEN'' Reserved pay ds aus n) xs ks) =
   (Inr (), demo (demo_rows (demo_object\<lparr>obj_state := st\<rparr>) AOpen ''OPEN'' Validated pay ds aus n) xs ks)"
  if "rr_attempt_id rep' = 9"
  using that
  by (simp add: validate_reclaim_def bindS_apply update_journal_phase_def Let_def execS_apply rows_count_def rows_update_def
      demo_journal_def aborting_def attempt_op_def demo_survives demo_independent)

definition demo_payload :: json where
  "demo_payload = journal_payload demo_codec demo_object [demo_replica] []"

lemma demo_physical_plan:
  "physical_plan (demo_env g) [demo_replica] (demo_store obj reps [sample_payload\<lparr>ref_count := 1\<rparr>] att res jou ds aus n) = Inr [demo_replica]"
  by (simp add: physical_plan_def schedule_replica_def demo_env_def hash_empty_def hash_of_def demo_replica_def sample_replica_def
      schedule_payload_def get_dedup_def sample_payload_def dedup_id_def)

lemma demo_planned:
  "\<exists>p. with_physical_deletions demo_codec demo_payload [demo_replica] = Inr p \<and> physical_plan_ok p"
proof -
  have "parse_journal_payload demo_codec demo_payload = Inr \<lparr>prior_object = demo_object, replica_deletions = [demo_replica],
     physical_replica_deletions = None, archive_deletions = []\<rparr>"
    using demo_object_ok(1) [of Hot]
    by (simp add: parse_journal_payload_def demo_payload_def journal_payload_def required_field_def invalid_field_def demo_codec_def
      journal_keys demo_object_hot)
  then show ?thesis
    by (simp add: with_physical_deletions_def validate_physical_subset_def same_replica_descriptor_def)
      (simp add: demo_payload_def journal_payload_def physical_plan_ok_def demo_codec_def journal_keys)
qed

lemma demo_payload_calls:
  "delete_payload (demo_env g) ''memory'' k (demo (demo_store obj reps ded att res jou ds aus n) xs ks) =
     (g, demo (demo_store obj reps ded att res jou ds aus n) xs ks)"
  "payload_exists (demo_env g) ''memory'' k (demo (demo_store obj reps ded att res jou ds aus n) xs ks) =
     (Inr False, demo (demo_store obj reps ded att res jou ds aus n) xs ks)"
  by (simp_all add: delete_payload_def payload_exists_def node_for_backend_def node_for_backend_locked_def Let_def bindS_apply
      local_backend_def split: sum.splits)

lemma demo_execute:
  assumes "rr_attempt_id rep = 9"
  shows "execute_plan (demo_env (Inr ())) rep [demo_replica] []
     (demo (demo_rows obj AOpen ''OPEN'' PhysicalStarted pay ds aus n) xs ks) =
   (Inr (), demo (demo_rows obj AOpen ''OPEN'' PhysicalDone pay ds aus n) xs ks)"
proof -
  have l: "loc_backend (rep_location demo_replica) = ''memory''" by (simp add: demo_replica_def sample_replica_def)
  show ?thesis
    using assms
    by (simp add: execute_plan_def bindS_apply verify_gone_def indeterminate_on_error_def attempt_op_def demo_payload_calls l
      update_journal_phase_def Let_def execS_apply rows_count_def rows_update_def demo_journal_def)
qed

lemma demo_release:
  "forS [demo_replica] (release_replica (demo_env g)) (demo_rows obj ast rst ph pay ds aus n) =
    (Inr (), demo_store obj [] [] [demo_attempt ast] [demo_reservation rst] [demo_journal ph pay] ds aus n)"
  by (simp add: release_replica_def bindS_apply delete_replica_def modifyS_def dedup_release_def tx_def Let_def execS_apply
      rows_count_def demo_replica_def sample_replica_def sample_payload_def dedup_id_def demo_env_def hash_empty_def hash_of_def)

lemma demo_closing:
  "validate_reservation_status rst = Inr () \<Longrightarrow> update_reservation 9 rst (demo_store obj reps ded att [demo_reservation ''OPEN''] jou ds aus n) =
    (Inr (), demo_store obj reps ded att [demo_reservation rst] jou ds aus n)"
  "update_attempt 9 ast 5 (demo_store obj reps ded [demo_attempt AOpen] res jou ds aus n) =
    (Inr (), demo_store obj reps ded [demo_attempt ast] res jou ds aus n)"
  "update_journal_phase 9 Committed 5 (demo_store obj reps ded att res [demo_journal PhysicalDone pay] ds aus n) =
    (Inr (), demo_store obj reps ded att res [demo_journal Committed pay] ds aus n)"
  "update_journal_phase 9 RolledBack 5 (demo_store obj reps ded att res [demo_journal Validated pay] ds aus n) =
    (Inr (), demo_store obj reps ded att res [demo_journal RolledBack pay] ds aus n)"
  "physical_plan_ok p \<Longrightarrow> start_journal_physical 9 p 5 (demo_store obj reps ded att res [demo_journal Validated pay] ds aus n) =
    (Inr (), demo_store obj reps ded att res [demo_journal PhysicalStarted p] ds aus n)"
  by (simp_all add: update_reservation_def update_attempt_def close_attempt_def update_journal_phase_def start_journal_physical_def
      Let_def execS_apply bindS_apply rows_count_def rows_update_def demo_attempt_def demo_reservation_def demo_journal_def)

lemma demo_bind:
  "bindS (on_store m) f (demo s xs ks) =
    (case m s of (r, s') \<Rightarrow> (case r of Inl e \<Rightarrow> (Inl e, demo s' xs ks) | Inr x \<Rightarrow> f x (demo s' xs ks)))"
  "bindS (read_clock (demo_env g)) h (demo s xs ks) = h 5 (demo s xs ks)"
  "bindS (new_v4 (demo_env g)) k (demo s xs ks) = k 9 (demo s xs ks)"
  by (simp_all add: bindS_apply split: prod.splits sum.splits)

lemma demo_commit:
  assumes "rr_attempt_id rep = 9" and "rr_reservation_id rep = 9" and "n < 90"
  shows "\<exists>s'. commit_reclaim (demo_env g) q d (demo_object\<lparr>obj_state := ReclaimPending\<rparr>) rep [demo_replica] [] [demo_replica]
     (demo (demo_rows (demo_object\<lparr>obj_state := ReclaimPending\<rparr>) AOpen ''OPEN'' PhysicalDone pay ds aus n) xs ks) = (Inr (), demo s' xs ks)"
proof -
  let ?o = "demo_object\<lparr>obj_state := ReclaimPending\<rparr>" and ?p = "demo_object\<lparr>obj_state := Reclaimed\<rparr>"
  let ?a = "object_audit 5 (rq_actor q) ''RECLAIM_COMMITTED'' ?o (Some (state_str ReclaimPending)) (Some (state_str Reclaimed))
    (Some (dec_policy_id (pd_decision d))) (Some (rr_attempt_id rep)) (JObject [(''deleted_archives'', JArray []),
      (''deleted_replicas'', JArray [JString (uuid_text (demo_env g) (replica_id demo_replica))])])"
  have "n < 100" using assms(3) by simp
  note demo_update [OF this demo_id [of ReclaimPending]]
  then obtain aus' where u: "update_object_with_audit ?p ?a (demo_store ?o [] [] [demo_attempt AOpen] [demo_reservation ''OPEN'']
      [demo_journal PhysicalDone pay] ds aus n) =
    (Inr (), demo_store ?p [] [] [demo_attempt AOpen] [demo_reservation ''OPEN''] [demo_journal PhysicalDone pay] ds aus' (Suc n))"
    by (elim meta_allE exE) rule
  have v: "validate_reservation_status ''COMMITTED'' = Inr ()" by (simp add: validate_reservation_status_def)
  have arch: "forS [] (\<lambda>a. delete_archive (archive_id a)) s = (Inr (), s)" for s by simp
  have o: "demo_object\<lparr>obj_state := ReclaimPending, obj_state := Reclaimed\<rparr> = ?p" by simp
  show ?thesis
    by (simp only: commit_reclaim_def demo_inner demo_bind demo_release arch list.map o u [unfolded assms(1,2)] assms(1,2) demo_closing(1) [OF v]
      demo_closing(2,3) demo_on_store prod.case sum.case fst_conv snd_conv) blast
qed

lemma demo_under_guard:
  assumes "rr_attempt_id rep = 9" and "rr_reservation_id rep = 9" and "n < 90"
  shows "\<exists>rep' s'. release_under_guard (demo_env (Inr ())) q d demo_object (demo_object\<lparr>obj_state := ReclaimPending\<rparr>) demo_payload rep
     [demo_replica] [] (demo (demo_rows (demo_object\<lparr>obj_state := ReclaimPending\<rparr>) AOpen ''OPEN'' Validated demo_payload ds aus n) xs ks) =
     (Inr rep', demo s' xs ks) \<and> reclaimed rep' \<and> deleted_replicas rep' = [1]"
proof -
  let ?o = "demo_object\<lparr>obj_state := ReclaimPending\<rparr>"
  obtain p where p: "with_physical_deletions demo_codec demo_payload [demo_replica] = Inr p" "physical_plan_ok p"
    using demo_planned by blast
  obtain s' where c: "commit_reclaim (demo_env (Inr ())) q d ?o rep [demo_replica] [] [demo_replica]
     (demo (demo_rows ?o AOpen ''OPEN'' PhysicalDone p ds aus n) xs ks) = (Inr (), demo s' xs ks)"
    using demo_commit [OF assms] by blast
  have i: "replica_id demo_replica = 1" by (simp add: demo_replica_def sample_replica_def)
  have a: "bindS (asked (demo_env g) h) f (demo (demo_store obj reps ded att res jou ds aus n) xs ks) =
     (case h (demo_store obj reps ded att res jou ds aus n) of
        Inl e \<Rightarrow> (Inl e, demo (demo_store obj reps ded att res jou ds aus n) xs ks)
      | Inr x \<Rightarrow> f x (demo (demo_store obj reps ded att res jou ds aus n) xs ks))" for g h f obj reps ded att res jou ds aus n
    by (simp add: bindS_apply split: sum.splits)
  have start: "aborting (demo_env (Inr ())) rep demo_object (with_inner (demo_env (Inr ())) (bindS (read_clock (demo_env (Inr ()))) (\<lambda>now.
       on_store (start_journal_physical (rr_attempt_id rep) p now))))
       (demo (demo_rows ?o AOpen ''OPEN'' Validated demo_payload ds aus n) xs ks) =
     (Inr (), demo (demo_rows ?o AOpen ''OPEN'' PhysicalStarted p ds aus n) xs ks)"
    by (simp add: aborting_Inr bindS_apply assms(1) demo_closing(5) [OF p(2)])
  have com: "indeterminate_on_error (demo_env (Inr ())) rep ''RECLAIM_COMMIT_FAILED''
       (commit_reclaim (demo_env (Inr ())) q d ?o rep [demo_replica] [] [demo_replica])
     (demo (demo_rows ?o AOpen ''OPEN'' PhysicalDone p ds aus n) xs ks) = (Inr (), demo s' xs ks)"
    unfolding indeterminate_on_error_Inr by (rule c)
  have "release_under_guard (demo_env (Inr ())) q d demo_object ?o demo_payload rep
     [demo_replica] [] (demo (demo_rows ?o AOpen ''OPEN'' Validated demo_payload ds aus n) xs ks) =
     (Inr (rep\<lparr>reclaimed := True, final_state := state_str Reclaimed, deleted_replicas := [1], deleted_archives := []\<rparr>), demo s' xs ks)"
    unfolding release_under_guard_def bindS_Inr
    using demo_physical_plan p(1) start demo_execute [OF assms(1)] com i by (force simp: a)
  then show ?thesis by auto
qed

subsection \<open>The reclaim and the properties\<close>

definition demo_request :: reclaim_request where
  "demo_request = \<lparr>rq_object_id = 7, rq_actor = ''operator'', rq_force = True\<rparr>"

definition demo_start :: store where
  "demo_start = demo_store demo_object [demo_replica] [sample_payload\<lparr>ref_count := 1\<rparr>] [] [] [] [] [] 0"

lemma demo_decided_runs:
  assumes "n < 20"
  shows "\<exists>rep c'. reclaim_decided (demo_env (Inr ())) demo_request 5 demo_object d (demo_report d)
      (demo (demo_store demo_object [demo_replica] [sample_payload\<lparr>ref_count := 1\<rparr>] [] [] [] ds aus n) [7] []) = (Inr rep, c') \<and>
    reclaimed rep \<and> deleted_replicas rep = [1]"
proof -
  let ?E = "demo_env (Inr ())" and ?o = "demo_object\<lparr>obj_state := ReclaimPending\<rparr>"
  let ?rep = "demo_report d\<lparr>final_state := state_str ReclaimPending\<rparr>"
  let ?c = "demo (demo_store demo_object [demo_replica] [sample_payload\<lparr>ref_count := 1\<rparr>] [] [] [] ds aus n) [7] []"
  have ids: "rr_attempt_id ?rep = 9" "rr_reservation_id ?rep = 9" by (simp_all add: demo_report_def new_report_def)
  have n: "n < 50" using assms by simp
  obtain aus' where pend: "pend_object ?E demo_request d demo_object (demo_report d) (demo (demo_rows demo_object AOpen ''OPEN'' Reserved demo_payload ds aus n) [7] []) =
    (Inr ?o, demo (demo_rows ?o AOpen ''OPEN'' Reserved demo_payload ds aus' (n + 2)) [7] [])"
    using demo_pend [OF n] by blast
  have k: "remdups (sort (map (\<lambda>r. (loc_backend (rep_location r), rep_content_hash r)) [demo_replica])) =
      [(''memory'', replicate 32 7)]" by (simp add: demo_replica_def sample_replica_def)
  have "n + 2 < 90" using assms by simp
  from demo_under_guard [OF ids this] obtain rep' s' where
    g: "release_under_guard ?E demo_request d demo_object ?o demo_payload ?rep [demo_replica] []
      (demo (demo_rows ?o AOpen ''OPEN'' Validated demo_payload ds aus' (n + 2)) [7] [(''memory'', replicate 32 7)]) =
      (Inr rep', demo s' [7] [(''memory'', replicate 32 7)])" "reclaimed rep'" "deleted_replicas rep' = [1]" by blast
  have w: "with_payloads ?E ?rep demo_object (map (\<lambda>r. (loc_backend (rep_location r), rep_content_hash r)) [demo_replica])
      (release_under_guard ?E demo_request d demo_object ?o demo_payload ?rep [demo_replica] [])
      (demo (demo_rows ?o AOpen ''OPEN'' Validated demo_payload ds aus' (n + 2)) [7] []) = (Inr rep', demo s' [7] [])"
    unfolding with_payloads_def bindS_Inr aborting_Inr begin_payload_operations_def k Let_def
    using g(1) by (simp add: drop_payload_guard_def)
  have route: "reclaim_route demo_object = Inr ()"
    by (simp add: reclaim_route_def demo_object_hot releasing_state_def check_transition_def)
      (simp add: demo_object_def sample_object_def new_object_def)
  have "reclaim_decided ?E demo_request 5 demo_object d (demo_report d) ?c = (Inr rep', demo s' [7] [])"
    unfolding reclaim_decided_def bindS_Inr Let_def
    apply (rule exI [of _ "[demo_replica]"], rule exI [of _ ?c], rule conjI, simp add: demo_object_ok demo_replicas)
    apply (rule exI [of _ "[]"], rule exI [of _ ?c], rule conjI, simp add: demo_lists)
    apply (rule exI [of _ "()"], rule exI [of _ ?c], rule conjI, simp add: demo_survives)
    apply (rule exI [of _ "()"], rule exI [of _ ?c], rule conjI, simp add: route)
    apply (rule exI [of _ "()"], rule exI [of _ "demo (demo_rows demo_object AOpen ''OPEN'' Reserved demo_payload ds aus n) [7] []"], rule conjI,
      simp add: demo_reserve demo_payload_def)
    apply (rule exI [of _ ?o], rule exI [of _ "demo (demo_rows ?o AOpen ''OPEN'' Reserved demo_payload ds aus' (n + 2)) [7] []"], rule conjI, rule pend)
    apply (rule exI [of _ "()"], rule exI [of _ "demo (demo_rows ?o AOpen ''OPEN'' Validated demo_payload ds aus' (n + 2)) [7] []"], rule conjI,
      rule demo_validate [OF ids(1)])
    using w by (simp add: demo_payload_def)
  with g show ?thesis by blast
qed

lemma demo_reclaims:
  "\<exists>rep c'. reclaim (demo_env (Inr ())) demo_request (demo demo_start [] []) = (Inr rep, c') \<and> reclaimed rep \<and> deleted_replicas rep = [1]"
proof -
  let ?E = "demo_env (Inr ())" and ?c = "demo demo_start [7] []"
  have o: "require_object 7 demo_start = Inr demo_object"
    using demo_require [of Hot] unfolding demo_object_hot demo_start_def by simp
  have pre: "reclaim_precheck ?E 5 demo_object ?c = (Inr (), ?c)"
    by (simp add: reclaim_precheck_def demo_object_hot bindS_apply demo_start_def has_open_reservation_for_def rows_count_def)
      (simp add: demo_object_def sample_object_def new_object_def)
  obtain d ds aus where p: "plan ?E 7 ''operator'' ?c =
      (Inr d, demo (demo_store demo_object [demo_replica] [sample_payload\<lparr>ref_count := 1\<rparr>] [] [] [] ds aus 1) [7] [])"
    using demo_plan [of 0 "[]"] unfolding demo_start_def by fastforce
  obtain rep c' where r: "reclaim_decided ?E demo_request 5 demo_object d (demo_report d)
      (demo (demo_store demo_object [demo_replica] [sample_payload\<lparr>ref_count := 1\<rparr>] [] [] [] ds aus 1) [7] []) = (Inr rep, c')"
    "reclaimed rep" "deleted_replicas rep = [1]" using demo_decided_runs [of 1] by fastforce
  have b: "begin_object_operation ?E 7 (demo demo_start [] []) = (Inr (), ?c)"
    by (simp add: begin_object_operation_def demo_start_def)
  have a: "asked ?E (require_object 7) ?c = (Inr demo_object, ?c)" using o by (simp add: demo_start_def)
  have "reclaim ?E demo_request (demo demo_start [] []) = (Inr rep, c'\<lparr>active_objects := removeAll 7 (active_objects c')\<rparr>)"
    using r(1) unfolding demo_report_def
    by (simp add: reclaim_def with_object_def demo_request_def bindS_apply b a pre p demo_object_ok)
  with r show ?thesis by blast
qed

lemma demo_start_wf: "store_wf demo_start"
proof -
  have "object_ok demo_object" "object_fits demo_object"
    using demo_object_ok(1,2) [of Hot] by (simp_all add: validate_object_iff demo_object_hot)
  then show ?thesis using store_wf_empty demo_replica_ok
    by (simp add: store_wf_def demo_start_def demo_store_def keyed_def object_stored_def replica_stored_def dedup_stored_def
      sample_payload_def I64_MAX_def empty_store_def authority_ok_def demo_row_def)
qed

theorem reclaim_needs_witness:
  "\<exists>rep c' d. reclaim (demo_env (Inr ())) demo_request (demo demo_start [] []) = (Inr rep, c') \<and>
     rr_decision rep = Some d \<and> may_reclaim demo_object demo_start"
proof -
  obtain rep c' where r: "reclaim (demo_env (Inr ())) demo_request (demo demo_start [] []) = (Inr rep, c')" "reclaimed rep"
    using demo_reclaims by blast
  have o: "require_object 7 demo_start = Inr demo_object"
    using demo_require [of Hot] unfolding demo_object_hot demo_start_def by simp
  show ?thesis using reclaim_needs [OF r] demo_start_wf r(1) o by (auto simp: demo_request_def)
qed


lemma demo_refs: "store_refs demo_start k = Some (length (sharing (t_replicas demo_start) k))"
  by (auto simp: store_refs_def demo_start_def sharing_def dedup_id_def replica_identity_def sample_payload_def demo_replica_def
      sample_replica_def)


definition demo_plain_report :: reclaim_report where
  "demo_plain_report = \<lparr>rr_object_id = 7, rr_generation = 1, reclaimed = False, rr_prior_state = ''HOT'',
     final_state = ''RECLAIM_PENDING'', rr_attempt_id = 9, rr_reservation_id = 9, rr_decision = None, rr_explanation = None,
     deleted_replicas = [], deleted_archives = [], physical_error = None\<rparr>"

lemma demo_delete_fails:
  "\<exists>e c'. execute_plan (demo_env (Inl (Backend []))) demo_plain_report [demo_replica] [] (demo demo_start [] []) = (Inl e, c')"
proof -
  have l: "loc_backend (rep_location demo_replica) = ''memory''" by (simp add: demo_replica_def sample_replica_def)
  obtain x c' where x: "execute_plan (demo_env (Inl (Backend []))) demo_plain_report [demo_replica] [] (demo demo_start [] []) = (x, c')"
    by fastforce
  show ?thesis
  proof (cases x)
    case (Inr u)
    with x obtain c1 u1 where "delete_payload (demo_env (Inl (Backend []))) ''memory'' (loc_key (rep_location demo_replica))
        (demo demo_start [] []) = (Inr u1, c1)"
      unfolding execute_plan_def bindS_Inr forS.simps indeterminate_on_error_Inr l Inr by (elim exE conjE)
    then show ?thesis unfolding demo_start_def demo_payload_calls by simp
  qed (use x in blast)
qed


definition demo_pending :: store where
  "demo_pending = demo_rows (demo_object\<lparr>obj_state := ReclaimPending\<rparr>) AOpen ''OPEN'' Validated demo_payload [] [] 0"

lemma demo_pending_wf: "store_wf demo_pending"
proof -
  have "object_ok (demo_object\<lparr>obj_state := ReclaimPending\<rparr>)" "object_fits (demo_object\<lparr>obj_state := ReclaimPending\<rparr>)"
    using demo_object_ok(1,2) by (simp_all add: validate_object_iff)
  then show ?thesis using store_wf_empty demo_replica_ok
    by (simp add: store_wf_def demo_pending_def demo_store_def keyed_def object_stored_def replica_stored_def dedup_stored_def
      sample_payload_def I64_MAX_def empty_store_def authority_ok_def demo_row_def demo_attempt_def demo_reservation_def demo_journal_def
      reservation_stored_def)
qed

lemma demo_aborts:
  "\<exists>s'. abort_reclaim (demo_env (Inr ())) demo_plain_report demo_object e (demo demo_pending [] []) = (Inr (), demo s' [] [])"
proof -
  let ?o = "demo_object\<lparr>obj_state := ReclaimPending\<rparr>"
  have n: "0 < (100::nat)" by simp
  have "\<exists>aus'. update_object_with_audit (demo_object\<lparr>obj_state := Hot\<rparr>) (object_audit 5 ''coordinator'' ''RECLAIM_ABORTED''
      (demo_object\<lparr>obj_state := Hot\<rparr>) (Some (state_str ReclaimPending)) (Some (state_str Hot)) None (Some 9)
      (JObject [(''reason'', JString (msg_text (demo_env (Inr ())) (display e)))]))
      (demo_rows ?o AOpen ''OPEN'' Validated demo_payload [] [] 0) =
      (Inr (), demo_rows (demo_object\<lparr>obj_state := Hot\<rparr>) AOpen ''OPEN'' Validated demo_payload [] aus' (Suc 0))"
    by (rule demo_update [OF n demo_id])
  then obtain aus' where u: "update_object_with_audit demo_object (object_audit 5 ''coordinator'' ''RECLAIM_ABORTED''
      demo_object (Some (state_str ReclaimPending)) (Some (state_str Hot)) None (Some 9)
      (JObject [(''reason'', JString (msg_text (demo_env (Inr ())) (display e)))]))
      (demo_rows ?o AOpen ''OPEN'' Validated demo_payload [] [] 0) =
      (Inr (), demo_rows demo_object AOpen ''OPEN'' Validated demo_payload [] aus' (Suc 0))"
    unfolding demo_object_hot(1) by (elim exE)
  have v: "validate_reservation_status ''RELEASED'' = Inr ()" by (simp add: validate_reservation_status_def)
  have i: "rr_attempt_id demo_plain_report = 9" "rr_reservation_id demo_plain_report = 9" by (simp_all add: demo_plain_report_def)
  show ?thesis
    by (simp only: abort_reclaim_def demo_pending_def demo_inner demo_bind demo_object_hot(2) u i demo_closing(1) [OF v] demo_closing(2,4)
      demo_on_store prod.case sum.case fst_conv snd_conv) blast
qed


end
