(* ===== verification/ServiceScenario.thy ===== *)
theory ServiceScenario
  imports NodeLeases ReclaimScenario
begin

section \<open>A concrete run of the whole service\<close>

text \<open>The services of the demonstration: an archive that keeps nothing and a codec that stores.\<close>

definition demo_services :: "unit services" where
  "demo_services = \<lparr>archive_put = (\<lambda>_ _ bs _ w. (Inr (length bs), w)), archive_get = (\<lambda>_ _ w. (Inr [], w)),
     backend_kind = (\<lambda>_ _. ''memory''), zstd_lib = \<lparr>encode_all = (\<lambda>bs _. Inr bs), decode_all = Inr,
     decoder_new = (\<lambda>_. Inr ()), read_at_most = (\<lambda>bs n. Inr (take n bs))\<rparr>, crc_fun = length\<rparr>"

definition demo_port :: "string \<Rightarrow> string + nat" where
  "demo_port a = Inr 7"

definition demo_node_request :: node_register_request where
  "demo_node_request = \<lparr>ng_name = ''n'', ng_process_id = ''q'', ng_boot_id = 1, ng_addr = ''127.0.0.1:7'',
     ng_backends = [\<lparr>bd_id = ''n/x'', bd_kind = ''memory'', bd_location = None\<rparr>]\<rparr>"



definition demo_node :: node_info where
  "demo_node = \<lparr>ni_node_id = ''n@q@id'', ni_name = ''n'', ni_process_id = ''q'', ni_boot_id = 1, ni_addr = ''127.0.0.1:7'',
     ni_backends = ng_backends demo_node_request, ni_last_seen_ms = 5\<rparr>"

lemma demo_registers:
  "co_nodes (snd (node_register (demo_env (Inr ())) demo_port demo_node_request (demo demo_start [] []))) = [(''n@q@id'', demo_node)]"
proof -
  have t: "\<not> blank ''n''" "\<not> padded ''n''" "\<not> blank ''q''" "\<not> padded ''q''" "\<not> blank ''127.0.0.1:7''" "\<not> padded ''127.0.0.1:7''"
    "\<not> blank ''memory''"
    by code_simp+
  have u: "uuid_text (demo_env (Inr ())) 1 = ''id''" by (simp add: demo_env_def)
  have n: "co_nodes (demo s [] []) = []" for s by (simp add: demo_def)
  show ?thesis
    by (simp add: node_register_def demo_node_request_def t demo_start_def bindS_apply register_locked_def u demo_port_def
     retire_all_def stale_nodes_def insert_node_def Let_def n demo_node_def on_store_def split: prod.splits sum.splits)
qed

theorem backend_has_one_owner_witness:
  "fst (node_for_backend_locked ''n/x''
     (snd (node_register (demo_env (Inr ())) demo_port demo_node_request (demo demo_start [] [])))) = Inr (Some ''n@q@id'')"
proof -
  let ?c = "snd (node_register (demo_env (Inr ())) demo_port demo_node_request (demo demo_start [] []))"
  have "plain_name (ng_name demo_node_request)" by (simp add: plain_name_def demo_node_request_def)
  then have run: "(lease_step (demo_env (Inr ())) demo_port)\<^sup>*\<^sup>* (demo demo_start [] []) ?c"
    by (blast intro: lease_step.registers)
  have "co_nodes (demo demo_start [] []) = []" by (simp add: demo_def)
  from backend_has_one_owner [OF run this, of "''n/x''"] obtain own where
    o: "node_for_backend_locked ''n/x'' ?c = (Inr own, ?c)"
       "\<forall>i. own = Some i \<longleftrightarrow> (\<exists>n. (i, n) \<in> set (co_nodes ?c) \<and> owns n ''n/x'')" by (elim exE conjE)
  have "owns demo_node ''n/x''" by (simp add: owns_def demo_node_def demo_node_request_def)
  then have "own = Some ''n@q@id''" using o(2) unfolding demo_registers by simp
  with o(1) show ?thesis by simp
qed

end
