(* ===== verification/Backends.thy ===== *)
theory Backends
  imports Files
begin

section \<open>Physical payload backends (src/backends.rs)\<close>

text \<open>
  The backend of host memory, the backend of files in one directory, and the registry of
  backends. The main results: a write of the file backend is atomic whatever call fails, and
  both backends are the same abstract store of payloads.
\<close>

subsection \<open>The memory backend\<close>

record memory_backend =
  mb_id :: string
  mb_data :: "(string \<times> bytes) list"

definition memory_new :: "string \<Rightarrow> memory_backend" where
  "memory_new i = \<lparr>mb_id = i, mb_data = []\<rparr>"

definition memory_put :: "string \<Rightarrow> bytes \<Rightarrow> (memory_backend, error, nat) op" where
  "memory_put key data = (\<lambda>m. (Inr (length data), m\<lparr>mb_data := AList.update key data (mb_data m)\<rparr>))"

definition memory_get :: "string \<Rightarrow> (memory_backend, error, bytes) op" where
  "memory_get key = askS (\<lambda>m. ok_or (map_of (mb_data m) key) (NotFound [Lit ''payload '', Str key]))"

definition memory_delete :: "string \<Rightarrow> (memory_backend, error, unit) op" where
  "memory_delete key = modifyS (\<lambda>m. m\<lparr>mb_data := AList.delete key (mb_data m)\<rparr>)"

definition memory_exists :: "string \<Rightarrow> (memory_backend, error, bool) op" where
  "memory_exists key = askS (\<lambda>m. Inr (map_of (mb_data m) key \<noteq> None))"

definition memory_verify :: "sha_fun \<Rightarrow> string \<Rightarrow> content_hash \<Rightarrow> (memory_backend, error, unit) op" where
  "memory_verify sha key expected = bindS (memory_get key) (\<lambda>data. liftS (verify_sha256 sha data expected))"

definition memory_total_bytes :: "memory_backend \<Rightarrow> nat" where
  "memory_total_bytes m = fold (\<lambda>v acc. saturating_add_u64 acc (length v)) (map snd (mb_data m)) 0"

definition memory_keys :: "memory_backend \<Rightarrow> string list" where
  "memory_keys m = sort (map fst (mb_data m))"

subsection \<open>Keys of the file backend\<close>

definition is_ascii :: "string \<Rightarrow> bool" where
  "is_ascii s \<longleftrightarrow> (\<forall>c\<in>set s. (of_char c :: nat) < 128)"

definition ascii_uppercase :: "char \<Rightarrow> bool" where
  "ascii_uppercase c \<longleftrightarrow> (let n = (of_char c :: nat) in 65 \<le> n \<and> n \<le> 90)"

definition ascii_control :: "char \<Rightarrow> bool" where
  "ascii_control c \<longleftrightarrow> (let n = (of_char c :: nat) in n < 32 \<or> n = 127)"

definition to_ascii_uppercase :: "string \<Rightarrow> string" where
  "to_ascii_uppercase = map (\<lambda>c. let n = (of_char c :: nat) in if 97 \<le> n \<and> n \<le> 122 then char_of (n - 32) else c)"

definition starts_with :: "string \<Rightarrow> string \<Rightarrow> bool" where
  "starts_with p s \<longleftrightarrow> strip_prefix p s \<noteq> None"

definition ends_with_char :: "char \<Rightarrow> string \<Rightarrow> bool" where
  "ends_with_char c s \<longleftrightarrow> s \<noteq> [] \<and> last s = c"

definition numbered_device :: "string \<Rightarrow> string \<Rightarrow> bool" where
  "numbered_device stem pre \<longleftrightarrow>
     (case strip_prefix pre stem of
        Some [c] \<Rightarrow> (let n = (of_char c :: nat) in 49 \<le> n \<and> n \<le> 57)
      | _ \<Rightarrow> False)"

definition device_name :: "string \<Rightarrow> bool" where
  "device_name component \<longleftrightarrow>
     (let stem = to_ascii_uppercase (takeWhile (\<lambda>c. c \<noteq> CHR ''.'') component) in
      stem \<in> set [''CON'', ''PRN'', ''AUX'', ''NUL'', ''CLOCK$''] \<or>
      numbered_device stem ''COM'' \<or> numbered_device stem ''LPT'')"

definition validate_key :: "string \<Rightarrow> unit result" where
  "validate_key key =
     (if key = [] \<or> length key > 200 then Inl (InvalidArgument [Lit ''invalid payload key length''])
      else if key = ''.'' \<or> key = ''..'' \<or> starts_with ''.tmp-'' key
      then Inl (InvalidArgument [Lit ''reserved payload key''])
      else if \<not> is_ascii key \<or> (\<exists>c\<in>set key. ascii_uppercase c)
      then Inl (InvalidArgument [Lit ''payload key must be lowercase ASCII''])
      else if (\<exists>c\<in>set key. ascii_control c \<or> c \<in> set [CHR ''<'', CHR ''>'', CHR '':'', CHR 0x22, CHR ''/'', CHR 0x5C,
            CHR ''|'', CHR ''?'', CHR ''*''])
        \<or> ends_with_char (CHR ''.'') key \<or> ends_with_char (CHR '' '') key
      then Inl (InvalidArgument [Lit ''payload key contains a reserved character''])
      else if device_name key then Inl (InvalidArgument [Lit ''payload key uses a reserved device name''])
      else Inr ())"

subsection \<open>The file backend\<close>

record file_backend =
  fb_id :: string
  fb_root :: string

text \<open>The text of a path below the root.\<close>

definition fb_path :: "file_backend \<Rightarrow> string \<Rightarrow> frag" where
  "fb_path B p = Str (fb_root B @ ''/'' @ p)"

text \<open>
  \<open>canon\<close> is what \<open>fs::canonicalize\<close> makes of the root. The directory is the state: it is
  created if it is missing and its entries are as they were.
\<close>

definition file_backend_new :: "(string \<Rightarrow> string) \<Rightarrow> string \<Rightarrow> string \<Rightarrow> (disk, error, file_backend) op" where
  "file_backend_new canon i dir =
     bindS (on_err (os_look (\<lambda>_. Inr ()))
       (\<lambda>e. Io [Lit ''creating backend dir '', Str dir, Lit '': '', Str (io_text e)])) (\<lambda>_.
     bindS (on_err (os_look (\<lambda>_. Inr (canon dir)))
       (\<lambda>e. Io [Lit ''resolving backend dir '', Str dir, Lit '': '', Str (io_text e)])) (\<lambda>root'.
     returnS \<lparr>fb_id = i, fb_root = root'\<rparr>))"

definition path_for :: "string \<Rightarrow> string result" where
  "path_for key = bindr (validate_key key) (\<lambda>_. Inr key)"

definition managed_file_name :: "string \<Rightarrow> bool" where
  "managed_file_name name \<longleftrightarrow> is_ok (validate_key name)"

definition sync_root :: "file_backend \<Rightarrow> (disk, error, unit) op" where
  "sync_root B =
     bindS (on_err open_dir (\<lambda>e. Io [Lit ''opening backend dir '', Str (fb_root B), Lit '': '', Str (io_text e)])) (\<lambda>_.
     on_err sync_all (\<lambda>e. Io [Lit ''syncing backend dir '', Str (fb_root B), Lit '': '', Str (io_text e)]))"

text \<open>\<open>u\<close> is the text of the fresh identifier in the temporary name.\<close>

definition tmp_name :: "string \<Rightarrow> string \<Rightarrow> string" where
  "tmp_name u key = ''.tmp-'' @ key @ ''-'' @ u"

definition file_put_steps :: "file_backend \<Rightarrow> string \<Rightarrow> string \<Rightarrow> bytes \<Rightarrow> (disk, error, nat) op" where
  "file_put_steps B tmp path data =
     bindS (write_new_file
       (\<lambda>e. Io [Lit ''creating '', fb_path B tmp, Lit '': '', Str (io_text e)])
       (\<lambda>e. Io [Lit ''writing '', fb_path B tmp, Lit '': '', Str (io_text e)])
       (\<lambda>e. Io [Lit ''syncing '', fb_path B tmp, Lit '': '', Str (io_text e)]) tmp data) (\<lambda>_.
     bindS (on_err (rename_file tmp path)
       (\<lambda>e. Io [Lit ''renaming '', fb_path B tmp, Lit '' -> '', fb_path B path, Lit '': '', Str (io_text e)])) (\<lambda>_.
     bindS (sync_root B) (\<lambda>_. returnS (length data))))"

definition file_put :: "file_backend \<Rightarrow> string \<Rightarrow> string \<Rightarrow> bytes \<Rightarrow> (disk, error, nat) op" where
  "file_put B u key data =
     bindS (liftS (path_for key)) (\<lambda>path d.
     case file_put_steps B (tmp_name u key) path data d of
       (Inl e, d') \<Rightarrow> (Inl e, snd (remove_file (tmp_name u key) d'))
     | (Inr n, d') \<Rightarrow> (Inr n, d'))"

definition file_get :: "file_backend \<Rightarrow> string \<Rightarrow> (disk, error, bytes) op" where
  "file_get B key =
     bindS (liftS (path_for key)) (\<lambda>path.
     bindS (outcome (symlink_metadata path)) (\<lambda>m.
     case m of
       Inl IoNotFound \<Rightarrow> failS (NotFound [Lit ''payload '', Str key])
     | Inl e \<Rightarrow> failS (Io [Lit ''reading metadata '', fb_path B path, Lit '': '', Str (io_text e)])
     | Inr x \<Rightarrow>
         if \<not> regular x then failS (Backend [Lit ''payload '', Str key, Lit '' is not a regular file''])
         else on_err (read_file path) (\<lambda>e.
           if e = IoNotFound then NotFound [Lit ''payload '', Str key]
           else Io [Lit ''reading '', fb_path B path, Lit '': '', Str (io_text e)])))"

definition file_delete :: "file_backend \<Rightarrow> string \<Rightarrow> (disk, error, unit) op" where
  "file_delete B key =
     bindS (liftS (path_for key)) (\<lambda>path.
     bindS (outcome (remove_file path)) (\<lambda>r.
     case r of
       Inr _ \<Rightarrow> sync_root B
     | Inl IoNotFound \<Rightarrow> returnS ()
     | Inl e \<Rightarrow> failS (Io [Lit ''deleting '', fb_path B path, Lit '': '', Str (io_text e)])))"

definition file_exists :: "file_backend \<Rightarrow> string \<Rightarrow> (disk, error, bool) op" where
  "file_exists B key =
     bindS (liftS (path_for key)) (\<lambda>path.
     bindS (outcome (symlink_metadata path)) (\<lambda>m.
     case m of
       Inr x \<Rightarrow>
         if regular x then returnS True
         else failS (Backend [Lit ''payload '', Str key, Lit '' is not a regular file''])
     | Inl IoNotFound \<Rightarrow> returnS False
     | Inl e \<Rightarrow> failS (Io [Lit ''reading metadata '', fb_path B path, Lit '': '', Str (io_text e)])))"

definition file_verify :: "sha_fun \<Rightarrow> file_backend \<Rightarrow> string \<Rightarrow> content_hash \<Rightarrow> (disk, error, unit) op" where
  "file_verify sha B key expected = bindS (file_get B key) (\<lambda>data. liftS (verify_sha256 sha data expected))"

text \<open>
  The loops over the directory. An entry whose type or size cannot be read is left out, a
  directory that cannot be read counts as empty.
\<close>

fun sum_files :: "string list \<Rightarrow> nat \<Rightarrow> (disk, error, nat) op" where
  "sum_files [] acc = returnS acc"
| "sum_files (p # ps) acc =
     (if managed_file_name p
      then
        bindS (outcome (symlink_metadata p)) (\<lambda>k.
        if (case k of Inr x \<Rightarrow> regular x | Inl _ \<Rightarrow> False)
        then
          bindS (outcome (symlink_metadata p)) (\<lambda>m.
          sum_files ps (case m of Inr x \<Rightarrow> saturating_add_u64 acc (file_size x) | Inl _ \<Rightarrow> acc))
        else sum_files ps acc)
      else sum_files ps acc)"

definition file_total_bytes :: "(disk, error, nat) op" where
  "file_total_bytes =
     bindS (outcome read_dir) (\<lambda>r. case r of Inl _ \<Rightarrow> returnS 0 | Inr ps \<Rightarrow> sum_files ps 0)"

fun list_files :: "string list \<Rightarrow> string list \<Rightarrow> (disk, error, string list) op" where
  "list_files [] v = returnS v"
| "list_files (p # ps) v =
     (if managed_file_name p
      then
        bindS (outcome (symlink_metadata p)) (\<lambda>k.
        list_files ps (if (case k of Inr x \<Rightarrow> regular x | Inl _ \<Rightarrow> False) then v @ [p] else v))
      else list_files ps v)"

definition file_keys :: "(disk, error, string list) op" where
  "file_keys =
     bindS (outcome read_dir) (\<lambda>r.
     bindS (case r of Inl _ \<Rightarrow> returnS [] | Inr ps \<Rightarrow> list_files ps []) (\<lambda>v. returnS (sort v)))"

subsection \<open>The registry of backends\<close>

text \<open>A backend object is identified by \<open>'b\<close>; \<open>Arc::ptr_eq\<close> is equality of identities.\<close>

type_synonym 'b backend_registry = "(string \<times> 'b) list"

definition register_as :: "string \<Rightarrow> 'b \<Rightarrow> ('b backend_registry, error, unit) op" where
  "register_as i b = (\<lambda>reg.
     if i = [] \<or> trim i \<noteq> i
     then (Inl (InvalidArgument [Lit ''backend id must be non-empty and have no surrounding whitespace'']), reg)
     else
       case map_of reg i of
         Some existing \<Rightarrow>
           if existing = b then (Inr (), reg)
           else (Inl (Backend [Lit ''backend id '', Dbg i, Lit '' is already registered to a different backend'']), reg)
       | None \<Rightarrow> (Inr (), AList.update i b reg))"

definition registry_register :: "('b \<Rightarrow> string) \<Rightarrow> 'b \<Rightarrow> ('b backend_registry, error, unit) op" where
  "registry_register id_of b = register_as (id_of b) b"

definition registry_get :: "'b backend_registry \<Rightarrow> string \<Rightarrow> 'b result" where
  "registry_get reg i = ok_or (map_of reg i) (Backend [Lit ''unknown backend '', Str i])"

definition registry_ids :: "'b backend_registry \<Rightarrow> string list" where
  "registry_ids reg = sort (map fst reg)"

definition registry_total_bytes :: "('b \<Rightarrow> nat) \<Rightarrow> 'b backend_registry \<Rightarrow> nat" where
  "registry_total_bytes bytes_of reg = fold (\<lambda>b acc. saturating_add_u64 acc (bytes_of b)) (map snd reg) 0"

subsection \<open>Writes of the file backend are atomic\<close>

lemma path_for_Inr: "path_for key = Inr p \<longleftrightarrow> p = key \<and> validate_key key = Inr ()"
  by (auto simp: path_for_def bindr_Inr_iff)

lemma valid_key_not_tmp: "validate_key key = Inr u \<Longrightarrow> \<not> starts_with ''.tmp-'' key"
  by (auto simp: validate_key_def split: if_splits)

lemma starts_with_tmp_name [simp]: "starts_with ''.tmp-'' (tmp_name u key)"
  unfolding starts_with_def tmp_name_def strip_prefix_append by simp

lemma tmp_name_neq: "validate_key key = Inr x \<Longrightarrow> tmp_name u k \<noteq> key"
  using valid_key_not_tmp starts_with_tmp_name by metis

lemma tmp_not_managed: "\<not> managed_file_name (tmp_name u key)"
  using valid_key_not_tmp starts_with_tmp_name unfolding managed_file_name_def is_ok_iff by metis

lemma sync_root_step:
  assumes "sync_root B d = (r, d')" and "undisturbed S d"
  shows "same_on S d d'"
proof -
  obtain r1 d1 where 1: "open_dir d = (r1, d1)" by fastforce
  have s: "same_on S d d1" by (rule os_look_step [OF 1[unfolded open_dir_def] assms(2)])
  obtain r2 d2 where 2: "sync_all d1 = (r2, d2)" by fastforce
  have "same_on S d1 d2" by (rule os_look_step [OF 2[unfolded sync_all_def] same_on_quiet [OF s]])
  moreover have "d' = d1 \<or> d' = d2" using assms(1) 1 2 by (cases r1) (auto simp: sync_root_def bindS_def on_err_def)
  ultimately show ?thesis using s same_on_trans [OF s] by auto
qed

lemma same_on_less: "same_on S d d' \<Longrightarrow> T \<subseteq> S \<Longrightarrow> same_on T d d'"
  by (auto simp: same_on_def elim: undisturbed_subset)

lemma file_put_steps_step:
  assumes "file_put_steps B tmp path data d = (r, d')" and "undisturbed S d"
    and "tmp \<in> S" and "path \<in> S" and "tmp \<noteq> path"
  shows "undisturbed S d'" and "same_on (S - {tmp, path}) d d'"
    and "node_at d' path = node_at d path \<or> node_at d' path = Some (RegularFile data)"
    and "r = Inr n \<Longrightarrow> n = length data \<and> node_at d' path = Some (RegularFile data) \<and> node_at d' tmp = None"
proof -
  define W where "W = write_new_file
       (\<lambda>e. Io [Lit ''creating '', fb_path B tmp, Lit '': '', Str (io_text e)])
       (\<lambda>e. Io [Lit ''writing '', fb_path B tmp, Lit '': '', Str (io_text e)])
       (\<lambda>e. Io [Lit ''syncing '', fb_path B tmp, Lit '': '', Str (io_text e)]) tmp data"
  obtain r1 d1 where 1: "W d = (r1, d1)" by fastforce
  obtain r2 d2 where 2: "rename_file tmp path d1 = (r2, d2)" by fastforce
  obtain r3 d3 where 3: "sync_root B d2 = (r3, d3)" by fastforce
  note s1 = write_new_file_step [OF 1[unfolded W_def] assms(2,3)]
  note s2 = rename_step [OF 2 s1(1) assms(3,4,5)]
  note s3 = sync_root_step [OF 3 s2(1)]
  have cases: "(d' = d1 \<and> \<not> is_ok r) \<or> (d' = d2 \<and> r1 = Inr () \<and> \<not> is_ok r) \<or>
     (d' = d3 \<and> r1 = Inr () \<and> r2 = Inr () \<and> (\<forall>n. r = Inr n \<longrightarrow> n = length data))"
    using assms(1) 1 2 3 unfolding file_put_steps_def W_def [symmetric]
    by (cases r1; cases r2; cases r3) (auto simp: bindS_def on_err_def)
  have b1: "node_at d1 path = node_at d path"
    by (rule same_on_at [OF s1(2)]) (use assms(4,5) in auto)
  have b2: "node_at d2 path = node_at d path \<or> node_at d2 path = Some (RegularFile data)" if "r1 = Inr ()"
    using s2(3) s2(4) [THEN same_on_at, OF _ assms(4)] s1(3) that b1 by (cases r2) auto
  have b3: "node_at d3 path = Some (RegularFile data) \<and> node_at d3 tmp = None" if "r1 = Inr ()" "r2 = Inr ()"
    using that s1(3) s2(3) same_on_at [OF s3 assms(4)] same_on_at [OF s3 assms(3)] by simp
  have a: "same_on (S - {tmp, path}) d d1" by (rule same_on_less [OF s1(2)]) auto
  have b: "same_on (S - {tmp, path}) d d2" by (rule same_on_trans [OF a s2(2)])
  have c: "same_on (S - {tmp, path}) d d3" by (rule same_on_trans [OF b]) (rule same_on_less [OF s3], auto)
  show "undisturbed S d'" using cases s1(1) s2(1) same_on_quiet [OF s3] by auto
  show "same_on (S - {tmp, path}) d d'" using cases a b c by auto
  show "node_at d' path = node_at d path \<or> node_at d' path = Some (RegularFile data)"
    using cases b1 b2 b3 by auto
  show "r = Inr n \<Longrightarrow> n = length data \<and> node_at d' path = Some (RegularFile data) \<and> node_at d' tmp = None"
    using cases b3 by auto
qed

text \<open>
  C36: Whatever call of a write fails and after however many bytes, the payload under the key is
  the one before or the whole new one, never a part of it; a write that reports success has
  stored exactly the data and left no temporary file; no other payload changes, and the
  temporary name is never listed as a payload. A key outside the portable alphabet changes
  nothing. (No other process touches the two names during the write.)
\<close>

theorem file_put_atomic:
  assumes run: "file_put B u key data d = (r, d')"
    and quiet: "undisturbed S d" and S: "key \<in> S" "tmp_name u key \<in> S"
  shows "(node_at d' key = node_at d key \<or> node_at d' key = Some (RegularFile data)) \<and>
    (\<forall>n. r = Inr n \<longrightarrow>
       n = length data \<and> node_at d' key = Some (RegularFile data) \<and> node_at d' (tmp_name u key) = None) \<and>
    (\<forall>p\<in>S. p \<noteq> key \<and> p \<noteq> tmp_name u key \<longrightarrow> node_at d' p = node_at d p) \<and>
    \<not> managed_file_name (tmp_name u key) \<and>
    (\<forall>e. validate_key key = Inl e \<longrightarrow> r = Inl e \<and> d' = d)"
proof (cases "validate_key key")
  case (Inl e)
  then have "r = Inl e \<and> d' = d" using run by (simp add: file_put_def path_for_def bindS_def)
  then show ?thesis using Inl by (simp add: tmp_not_managed)
next
  case (Inr x)
  let ?tmp = "tmp_name u key"
  obtain r1 d1 where 1: "file_put_steps B ?tmp key data d = (r1, d1)" by fastforce
  obtain r2 d2 where 2: "remove_file ?tmp d1 = (r2, d2)" by fastforce
  have neq: "?tmp \<noteq> key" by (rule tmp_name_neq [OF Inr])
  note s1 = file_put_steps_step [OF 1 quiet S(2,1) neq]
  note s2 = remove_file_step [OF 2 s1(1)]
  have cases: "(d' = d1 \<and> r = r1 \<and> is_ok r1) \<or> (d' = d2 \<and> \<not> is_ok r)"
    using run 1 2 Inr by (cases r1) (auto simp: file_put_def path_for_def bindS_def)
  have k: "node_at d2 key = node_at d1 key" by (rule same_on_at [OF s2(2)]) (use S neq in auto)
  have o: "node_at d1 p = node_at d p" "node_at d2 p = node_at d1 p" if "p \<in> S" "p \<noteq> key" "p \<noteq> ?tmp" for p
    by (rule same_on_at [OF s1(2)], use that in simp) (rule same_on_at [OF s2(2)], use that in simp)
  have 3: "node_at d' key = node_at d key \<or> node_at d' key = Some (RegularFile data)"
    using cases s1(3) k by auto
  have 4: "n = length data \<and> node_at d' key = Some (RegularFile data) \<and> node_at d' ?tmp = None" if "r = Inr n" for n
    using cases s1(4) [of n] that by auto
  have 5: "node_at d' p = node_at d p" if "p \<in> S" "p \<noteq> key" "p \<noteq> ?tmp" for p
    using cases o [OF that] by auto
  show ?thesis using 3 4 5 tmp_not_managed Inr by auto
qed

definition demo_backend :: file_backend where
  "demo_backend = \<lparr>fb_id = ''file'', fb_root = ''/data''\<rparr>"

text \<open>The second call, the write, fails after one byte.\<close>

definition demo_disk :: disk where
  "demo_disk = \<lparr>entries = [(''k'', RegularFile [1])],
     events = [\<lparr>ev_changes = [], ev_error = None\<rparr>, \<lparr>ev_changes = [], ev_error = Some (''disk full'', 1)\<rparr>]\<rparr>"

lemma demo_quiet: "undisturbed UNIV demo_disk"
  by (simp add: undisturbed_def demo_disk_def)

theorem file_put_atomic_witness:
  "(node_at (snd (file_put demo_backend ''u'' ''k'' [7, 8] demo_disk)) ''k'' = Some (RegularFile [1]) \<or>
    node_at (snd (file_put demo_backend ''u'' ''k'' [7, 8] demo_disk)) ''k'' = Some (RegularFile [7, 8])) \<and>
   fst (file_put demo_backend ''u'' ''k'' [7, 8] demo_disk) =
     Inl (Io [Lit ''writing '', Str ''/data/.tmp-k-u'', Lit '': '', Str ''disk full''])"
proof -
  let ?x = "file_put demo_backend ''u'' ''k'' [7, 8] demo_disk"
  have "?x = (fst ?x, snd ?x)" by simp
  note file_put_atomic [OF this demo_quiet UNIV_I UNIV_I, THEN conjunct1]
  moreover have "node_at demo_disk ''k'' = Some (RegularFile [1])" by (simp add: node_at_def demo_disk_def)
  moreover have "fst ?x = Inl (Io [Lit ''writing '', Str ''/data/.tmp-k-u'', Lit '': '', Str ''disk full''])"
    by code_simp
  ultimately show ?thesis by simp
qed

subsection \<open>Backends as stores of payloads\<close>

text \<open>
  What a client of the trait relies on: over an invariant \<open>good\<close> of the backend and for the
  keys it accepts, the four operations are those of a map from keys to payloads.
\<close>

datatype backend_call =
    Put string bytes | Get string | Delete string | Exists string | Verify string content_hash

datatype backend_reply = Stored nat | Payload bytes | Deleted | Present bool | Verified

fun call_key :: "backend_call \<Rightarrow> string" where
  "call_key (Put k _) = k"
| "call_key (Get k) = k"
| "call_key (Delete k) = k"
| "call_key (Exists k) = k"
| "call_key (Verify k _) = k"

fun abstract_reply :: "sha_fun \<Rightarrow> (string \<Rightarrow> bytes option) \<Rightarrow> backend_call \<Rightarrow> backend_reply result" where
  "abstract_reply sha m (Put k data) = Inr (Stored (length data))"
| "abstract_reply sha m (Get k) =
     bindr (ok_or (m k) (NotFound [Lit ''payload '', Str k])) (\<lambda>data. Inr (Payload data))"
| "abstract_reply sha m (Delete k) = Inr Deleted"
| "abstract_reply sha m (Exists k) = Inr (Present (m k \<noteq> None))"
| "abstract_reply sha m (Verify k h) =
     bindr (ok_or (m k) (NotFound [Lit ''payload '', Str k])) (\<lambda>data.
     bindr (verify_sha256 sha data h) (\<lambda>_. Inr Verified))"

fun abstract_next :: "(string \<Rightarrow> bytes option) \<Rightarrow> backend_call \<Rightarrow> string \<Rightarrow> bytes option" where
  "abstract_next m (Put k data) = m(k := Some data)"
| "abstract_next m (Delete k) = m(k := None)"
| "abstract_next m _ = m"

fun abstract_run :: "sha_fun \<Rightarrow> (string \<Rightarrow> bytes option) \<Rightarrow> backend_call list \<Rightarrow> backend_reply result list" where
  "abstract_run sha m [] = []"
| "abstract_run sha m (c # cs) = abstract_reply sha m c # abstract_run sha (abstract_next m c) cs"

fun run_calls :: "(backend_call \<Rightarrow> 's \<Rightarrow> backend_reply result \<times> 's) \<Rightarrow> 's \<Rightarrow> backend_call list \<Rightarrow> backend_reply result list" where
  "run_calls step s [] = []"
| "run_calls step s (c # cs) = fst (step c s) # run_calls step (snd (step c s)) cs"

definition reply_of :: "('a \<Rightarrow> backend_reply) \<Rightarrow> ('s, error, 'a) op \<Rightarrow> 's \<Rightarrow> backend_reply result \<times> 's" where
  "reply_of f m = bindS m (\<lambda>a. returnS (f a))"

fun memory_call :: "sha_fun \<Rightarrow> backend_call \<Rightarrow> memory_backend \<Rightarrow> backend_reply result \<times> memory_backend" where
  "memory_call sha (Put k data) = reply_of Stored (memory_put k data)"
| "memory_call sha (Get k) = reply_of Payload (memory_get k)"
| "memory_call sha (Delete k) = reply_of (\<lambda>_. Deleted) (memory_delete k)"
| "memory_call sha (Exists k) = reply_of Present (memory_exists k)"
| "memory_call sha (Verify k h) = reply_of (\<lambda>_. Verified) (memory_verify sha k h)"

fun file_call :: "sha_fun \<Rightarrow> file_backend \<Rightarrow> string \<Rightarrow> backend_call \<Rightarrow> disk \<Rightarrow> backend_reply result \<times> disk" where
  "file_call sha B u (Put k data) = reply_of Stored (file_put B u k data)"
| "file_call sha B u (Get k) = reply_of Payload (file_get B k)"
| "file_call sha B u (Delete k) = reply_of (\<lambda>_. Deleted) (file_delete B k)"
| "file_call sha B u (Exists k) = reply_of Present (file_exists B k)"
| "file_call sha B u (Verify k h) = reply_of (\<lambda>_. Verified) (file_verify sha B k h)"

locale payload_backend =
  fixes sha :: sha_fun
    and step :: "backend_call \<Rightarrow> 's \<Rightarrow> backend_reply result \<times> 's"
    and content :: "'s \<Rightarrow> string \<Rightarrow> bytes option"
    and good :: "'s \<Rightarrow> bool"
    and valid :: "string \<Rightarrow> bool"
  assumes reply: "good s \<Longrightarrow> valid (call_key c) \<Longrightarrow> fst (step c s) = abstract_reply sha (content s) c"
    and moves: "good s \<Longrightarrow> valid (call_key c) \<Longrightarrow> content (snd (step c s)) = abstract_next (content s) c"
    and stays_good: "good s \<Longrightarrow> valid (call_key c) \<Longrightarrow> good (snd (step c s))"
begin

lemma run_is_abstract:
  "good s \<Longrightarrow> \<forall>c\<in>set cs. valid (call_key c) \<Longrightarrow> run_calls step s cs = abstract_run sha (content s) cs"
  by (induction cs arbitrary: s) (simp_all add: reply moves stays_good)

lemma read_back:
  "good s \<Longrightarrow> valid k \<Longrightarrow> fst (step (Get k) (snd (step (Put k data) s))) = Inr (Payload data)"
  using reply [of "snd (step (Put k data) s)" "Get k"] moves [of s "Put k data"] stays_good [of s "Put k data"] by simp

lemma deleted_gone:
  "good s \<Longrightarrow> valid k \<Longrightarrow> fst (step (Exists k) (snd (step (Delete k) s))) = Inr (Present False)"
  using reply [of "snd (step (Delete k) s)" "Exists k"] moves [of s "Delete k"] stays_good [of s "Delete k"] by simp

end

text \<open>The memory backend is such a store, for every key.\<close>

interpretation memory: payload_backend sha "memory_call sha" "\<lambda>m. map_of (mb_data m)" "\<lambda>_. True" "\<lambda>_. True"
proof
  fix c and m :: memory_backend
  show "fst (memory_call sha c m) = abstract_reply sha (map_of (mb_data m)) c"
    by (cases c) (auto simp: reply_of_def memory_put_def memory_get_def memory_delete_def memory_exists_def
      memory_verify_def bindS_apply verify_sha256_def Let_def ok_or.simps split: sum.splits option.splits
      elim: ok_or.elims)
  show "map_of (mb_data (snd (memory_call sha c m))) = abstract_next (map_of (mb_data m)) c"
    by (cases c) (auto simp: reply_of_def memory_put_def memory_get_def memory_delete_def memory_exists_def
      memory_verify_def bindS_apply update_conv' delete_conv' split: sum.splits)
qed simp

text \<open>
  The file backend is, when no call fails and nobody else writes, for the portable keys: every
  entry under such a key is a regular file and no temporary file has the fresh identifier.
\<close>

definition file_content :: "disk \<Rightarrow> string \<Rightarrow> bytes option" where
  "file_content d k =
     (if managed_file_name k then case node_at d k of Some (RegularFile data) \<Rightarrow> Some data | _ \<Rightarrow> None else None)"

definition file_good :: "string \<Rightarrow> disk \<Rightarrow> bool" where
  "file_good u d \<longleftrightarrow> events d = [] \<and>
     (\<forall>k x. managed_file_name k \<longrightarrow> node_at d k = Some x \<longrightarrow> regular x) \<and> (\<forall>k. node_at d (tmp_name u k) = None)"

lemma os_look_calm: "events d = [] \<Longrightarrow> os_look f d = (f (entries d), d)"
  by (simp add: os_look_def os_call_def)

lemma os_change_calm:
  "events d = [] \<Longrightarrow> os_change f d = (case f (entries d) of Inl x \<Rightarrow> (Inl x, d) | Inr e \<Rightarrow> (Inr (), d\<lparr>entries := e\<rparr>))"
  by (simp add: os_change_def os_call_def split: sum.splits)

lemma write_all_calm:
  "events d = [] \<Longrightarrow> write_all p data d = (Inr (), d\<lparr>entries := add_bytes p data (entries d)\<rparr>)"
  by (simp add: write_all_def os_call_def)

lemmas calm = os_look_calm os_change_calm write_all_calm create_new_def rename_file_def remove_file_def
  symlink_metadata_def read_file_def sync_all_def open_dir_def sync_root_def

lemma managed_valid: "managed_file_name k \<longleftrightarrow> path_for k = Inr k"
  unfolding managed_file_name_def path_for_def is_ok_iff by (cases "validate_key k") auto

lemma file_put_calm:
  assumes good: "file_good u d" and k: "managed_file_name k"
  shows "fst (file_put B u k data d) = Inr (length data)"
    and "events (snd (file_put B u k data d)) = []"
    and "node_at (snd (file_put B u k data d)) = (node_at d)(k := Some (RegularFile data))"
proof -
  have calm_d: "events d = []" and tmp: "map_of (entries d) (tmp_name u k) = None"
    using good unfolding file_good_def by (simp, simp add: node_at_def)
  have nd: "map_of (entries d) k \<noteq> Some Directory"
    using good k unfolding file_good_def node_at_def regular_def by force
  have neq: "tmp_name u k \<noteq> k" using tmp_not_managed k by metis
  have "file_put B u k data d = (Inr (length data), d\<lparr>entries := AList.delete (tmp_name u k)
      (AList.update k (RegularFile data) (AList.update (tmp_name u k) (RegularFile data) (entries d)))\<rparr>)"
    using calm_d tmp nd neq k unfolding managed_valid
    by (simp add: file_put_def file_put_steps_def write_new_file_def bindS_apply on_err_def calm add_bytes_def
        update_conv' delete_conv')
  then show "fst (file_put B u k data d) = Inr (length data)"
    and "events (snd (file_put B u k data d)) = []"
    and "node_at (snd (file_put B u k data d)) = (node_at d)(k := Some (RegularFile data))"
    using calm_d tmp neq by (auto simp: node_at_def update_conv' delete_conv' fun_eq_iff)
qed

lemma file_get_calm:
  assumes good: "file_good u d" and k: "managed_file_name k"
  shows "file_get B k d = (ok_or (file_content d k) (NotFound [Lit ''payload '', Str k]), d)"
proof -
  have calm_d: "events d = []" using good unfolding file_good_def by simp
  show ?thesis
  proof (cases "node_at d k")
    case None
    then show ?thesis using calm_d k
      by (simp add: file_get_def managed_valid bindS_apply outcome_def calm node_at_def file_content_def)
  next
    case (Some x)
    with good k have "regular x" unfolding file_good_def by metis
    then obtain b where "x = RegularFile b" unfolding regular_def by (cases x) auto
    then show ?thesis using Some calm_d k
      by (simp add: file_get_def managed_valid bindS_apply outcome_def on_err_def calm node_at_def file_content_def regular_def)
  qed
qed

lemma file_exists_calm:
  assumes good: "file_good u d" and k: "managed_file_name k"
  shows "file_exists B k d = (Inr (file_content d k \<noteq> None), d)"
proof -
  have calm_d: "events d = []" using good unfolding file_good_def by simp
  show ?thesis
  proof (cases "node_at d k")
    case None
    then show ?thesis using calm_d k
      by (simp add: file_exists_def managed_valid bindS_apply outcome_def calm node_at_def file_content_def)
  next
    case (Some x)
    with good k have "regular x" unfolding file_good_def by metis
    then show ?thesis using Some calm_d k
      by (cases x) (simp_all add: file_exists_def managed_valid bindS_apply outcome_def calm node_at_def file_content_def regular_def)
  qed
qed

lemma file_delete_calm:
  assumes good: "file_good u d" and k: "managed_file_name k"
  shows "fst (file_delete B k d) = Inr ()" and "events (snd (file_delete B k d)) = []"
    and "node_at (snd (file_delete B k d)) = (node_at d)(k := None)"
proof -
  have calm_d: "events d = []" using good unfolding file_good_def by simp
  have "file_delete B k d = (Inr (), d\<lparr>entries := AList.delete k (entries d)\<rparr>)"
  proof (cases "node_at d k")
    case None
    then have "AList.delete k (entries d) = entries d" by (simp add: node_at_def delete_id map_of_eq_None_iff)
    then show ?thesis using None calm_d k
      by (simp add: file_delete_def managed_valid bindS_apply outcome_def calm node_at_def)
  next
    case (Some x)
    with good k have "regular x" unfolding file_good_def by metis
    then obtain b where "x = RegularFile b" unfolding regular_def by (cases x) auto
    then show ?thesis using Some calm_d k
      by (simp add: file_delete_def managed_valid bindS_apply outcome_def on_err_def calm node_at_def delete_conv')
  qed
  then show "fst (file_delete B k d) = Inr ()" and "events (snd (file_delete B k d)) = []"
    and "node_at (snd (file_delete B k d)) = (node_at d)(k := None)"
    using calm_d by (auto simp: node_at_def delete_conv' fun_eq_iff)
qed

lemma file_goodI:
  assumes "file_good u d" and "events d' = []" and "node_at d' = (node_at d)(k := v)" and "managed_file_name k"
    and "\<And>x. v = Some x \<Longrightarrow> regular x"
  shows "file_good u d'"
  using assms tmp_not_managed unfolding file_good_def by (metis fun_upd_apply)

lemma file_content_update:
  assumes "managed_file_name k" and "node_at d' = (node_at d)(k := map_option RegularFile v)"
  shows "file_content d' = (file_content d)(k := v)"
  using assms by (auto simp: fun_eq_iff file_content_def split: option.splits)

text \<open>The operations on a calm disk, as the interpretation needs them.\<close>

interpretation files: payload_backend sha "file_call sha B u" file_content "file_good u" managed_file_name
proof
  fix d c assume good: "file_good u d" and k: "managed_file_name (call_key c)"
  note gets = file_get_calm [OF good] file_exists_calm [OF good]
  show "fst (file_call sha B u c d) = abstract_reply sha (file_content d) c"
    using k
    by (cases c) (auto simp: reply_of_def bindS_apply gets file_verify_def file_put_calm(1) [OF good]
        file_delete_calm(1) [OF good] split: sum.splits option.splits elim: ok_or.elims)
  show "file_content (snd (file_call sha B u c d)) = abstract_next (file_content d) c"
  proof (cases c)
    case (Put k data)
    then show ?thesis using k file_put_calm [OF good, of k B data] file_content_update [of k _ d "Some data"]
      by (simp add: reply_of_def bindS_apply)
  next
    case (Delete k)
    then show ?thesis using k file_delete_calm [OF good, of k B] file_content_update [of k _ d None]
      by (simp add: reply_of_def bindS_apply)
  qed (use k in \<open>auto simp: reply_of_def bindS_apply gets file_verify_def split: sum.splits\<close>)
  show "file_good u (snd (file_call sha B u c d))"
  proof (cases c)
    case (Put k data)
    then show ?thesis using k file_put_calm [OF good, of k B data] file_goodI [OF good, of _ k "Some (RegularFile data)"]
      by (simp add: reply_of_def bindS_apply regular_def)
  next
    case (Delete k)
    then show ?thesis using k file_delete_calm [OF good, of k B] file_goodI [OF good, of _ k None]
      by (simp add: reply_of_def bindS_apply)
  qed (use k good in \<open>auto simp: reply_of_def bindS_apply gets file_verify_def split: sum.splits\<close>)
qed

text \<open>
  C38: The file backend and the memory backend answer every sequence of calls on portable keys
  alike, errors included, when they start with the same payloads: both are the same map from
  keys to payloads. (No call of the file system fails meanwhile.)
\<close>

theorem backends_equivalent:
  assumes "file_good u d" and "\<forall>c\<in>set calls. managed_file_name (call_key c)"
    and "map_of (mb_data m) = file_content d"
  shows "run_calls (file_call sha B u) d calls = run_calls (memory_call sha) m calls"
  using files.run_is_abstract [OF assms(1,2)] memory.run_is_abstract [where s = m and cs = calls] assms(3) by simp

theorem backends_equivalent_witness:
  "run_calls (file_call (\<lambda>_. []) demo_backend ''u'') \<lparr>entries = [], events = []\<rparr>
     [Put ''k'' [1, 2], Get ''k'', Delete ''k'', Exists ''k'', Get ''k''] =
   run_calls (memory_call (\<lambda>_. [])) (memory_new ''m'') [Put ''k'' [1, 2], Get ''k'', Delete ''k'', Exists ''k'', Get ''k'']"
proof (rule backends_equivalent)
  show "file_good ''u'' \<lparr>entries = [], events = []\<rparr>" by (simp add: file_good_def node_at_def)
  have "managed_file_name ''k''" by code_simp
  then show "\<forall>c\<in>set [Put ''k'' [1, 2], Get ''k'', Delete ''k'', Exists ''k'', Get ''k'']. managed_file_name (call_key c)"
    by simp
  show "map_of (mb_data (memory_new ''m'')) = file_content \<lparr>entries = [], events = []\<rparr>"
    by (simp add: memory_new_def file_content_def node_at_def fun_eq_iff)
qed

subsection \<open>Registered backends stay\<close>

lemma register_as_keeps:
  "register_as i b reg = (r, reg') \<Longrightarrow> map_of reg j = Some x \<Longrightarrow> map_of reg' j = Some x"
  by (auto simp: register_as_def update_conv' split: if_splits option.splits)

lemma register_as_finds: "register_as i b reg = (Inr u, reg') \<Longrightarrow> registry_get reg' i = Inr b"
  by (auto simp: register_as_def registry_get_def update_conv' split: if_splits option.splits)

end
