(* ===== verification/Archives.thy ===== *)
theory Archives
  imports Backends
begin

section \<open>The file-system archive (src/archive.rs)\<close>

text \<open>
  Immutable blobs in one directory: a blob is written to a temporary file, synced, published
  under the hash of its key by a hard link that never replaces anything, and read again. Reads
  and deletions also know the name an earlier release gave the blob. The main results: a
  publication is all or nothing and never changes an archive that is there, whatever call fails,
  and what a successful write stored is what a read returns.
\<close>

subsection \<open>Keys\<close>

fun split_on :: "char \<Rightarrow> string \<Rightarrow> string list" where
  "split_on s [] = [[]]"
| "split_on s (c # cs) =
     (if c = s then [] # split_on s cs
      else case split_on s cs of x # xs \<Rightarrow> (c # x) # xs | [] \<Rightarrow> [[c]])"

definition check_component :: "string \<Rightarrow> string \<Rightarrow> unit result" where
  "check_component key component =
     (if component = [] \<or> component = ''.'' \<or> component = ''..'' \<or> ends_with_char (CHR ''.'') component
        \<or> ends_with_char (CHR '' '') component
      then Inl (ArchiveFailure [Lit ''archive key contains a reserved path component: '', Dbg key])
      else if device_name component
      then Inl (ArchiveFailure [Lit ''archive key uses a reserved device name: '', Dbg key])
      else Inr ())"

text \<open>\<open>key.replace('/', "-")\<close>, the name an earlier release used.\<close>

definition flattened :: "string \<Rightarrow> string" where
  "flattened key = map (\<lambda>c. if c = CHR ''/'' then CHR ''-'' else c) key"

definition archive_validate_key :: "string \<Rightarrow> unit result" where
  "archive_validate_key key =
     (if key = [] \<or> length key > 200 \<or> \<not> is_ascii key
      then Inl (ArchiveFailure [Lit ''invalid or traversal archive key: '', Dbg key])
      else if starts_with ''/'' key \<or> starts_with [CHR 0x5C] key \<or> CHR 0x5C \<in> set key
        \<or> (\<exists>c\<in>set key. ascii_uppercase c)
        \<or> (\<exists>c\<in>set key. ascii_control c \<or> c \<in> set [CHR ''<'', CHR ''>'', CHR '':'', CHR 0x22, CHR ''|'', CHR ''?'', CHR ''*''])
      then Inl (ArchiveFailure [Lit ''archive key is not a portable lowercase ASCII path: '', Dbg key])
      else
        bindr (for_each (split_on (CHR ''/'') key) (check_component key)) (\<lambda>_.
        if starts_with ''.tmp-archive-'' (flattened key)
        then Inl (ArchiveFailure [Lit ''archive key aliases the reserved temporary-file namespace''])
        else Inr ()))"

subsection \<open>The archive\<close>

record local_fs_archive =
  lf_id :: string
  lf_root :: string

definition lf_path :: "local_fs_archive \<Rightarrow> string \<Rightarrow> string" where
  "lf_path A p = lf_root A @ ''/'' @ p"

definition local_fs_new :: "(string \<Rightarrow> string) \<Rightarrow> string \<Rightarrow> string \<Rightarrow> (disk, error, local_fs_archive) op" where
  "local_fs_new canon i dir =
     (if i = [] then failS (InvalidArgument [Lit ''archive backend id must not be empty''])
      else
        bindS (on_err (os_look (\<lambda>_. Inr ()))
          (\<lambda>e. Io [Lit ''creating archive dir '', Str dir, Lit '': '', Str (io_text e)])) (\<lambda>_.
        bindS (on_err (os_look (\<lambda>_. Inr (canon dir)))
          (\<lambda>e. Io [Lit ''resolving archive dir '', Str dir, Lit '': '', Str (io_text e)])) (\<lambda>dir'.
        returnS \<lparr>lf_id = i, lf_root = dir'\<rparr>)))"

definition blob_name :: "sha_fun \<Rightarrow> string \<Rightarrow> string" where
  "blob_name sha key = ''blob-'' @ hash_str (hash_of sha (map of_char key))"

definition archive_path_for :: "sha_fun \<Rightarrow> string \<Rightarrow> string result" where
  "archive_path_for sha key = bindr (archive_validate_key key) (\<lambda>_. Inr (blob_name sha key))"

definition legacy_path_for :: "sha_fun \<Rightarrow> string \<Rightarrow> string result" where
  "legacy_path_for sha key = bindr (archive_path_for sha key) (\<lambda>_. Inr (flattened key))"

definition sync_directory :: "local_fs_archive \<Rightarrow> (disk, error, unit) op" where
  "sync_directory A =
     on_err (bindS open_dir (\<lambda>_. sync_all))
       (\<lambda>e. Io [Lit ''archive directory sync '', Str (lf_root A), Lit '': '', Str (io_text e)])"

definition read_regular_file :: "local_fs_archive \<Rightarrow> string \<Rightarrow> msg \<Rightarrow> (disk, error, bytes) op" where
  "read_regular_file A path operation =
     bindS (on_err (symlink_metadata path) (\<lambda>e.
       if e = IoNotFound then NotFound [Lit ''archive file '', Str (lf_path A path)]
       else Io ([Lit ''archive ''] @ operation @ [Lit '' '', Str (lf_path A path), Lit '': '', Str (io_text e)]))) (\<lambda>x.
     if \<not> regular x
     then failS (ArchiveFailure ([Lit ''archive ''] @ operation @ [Lit '' refused non-regular file '', Str (lf_path A path)]))
     else
       on_err (read_file path) (\<lambda>e.
         Io ([Lit ''archive ''] @ operation @ [Lit '' '', Str (lf_path A path), Lit '': '', Str (io_text e)])))"

text \<open>The error after an attempt to take the published name back.\<close>

definition cleanup_failed_publication :: "local_fs_archive \<Rightarrow> string \<Rightarrow> msg \<Rightarrow> (disk, error, error) op" where
  "cleanup_failed_publication A path cause =
     bindS (outcome (remove_file path)) (\<lambda>r.
     bindS (outcome (sync_directory A)) (\<lambda>s.
     let es = (case r of Inl IoNotFound \<Rightarrow> [] | Inr _ \<Rightarrow> []
               | Inl e \<Rightarrow> [[Lit ''remove '', Str (lf_path A path), Lit '': '', Str (io_text e)]]) @
              (case s of Inr _ \<Rightarrow> [] | Inl e \<Rightarrow> [display e])
     in returnS (ArchiveFailure
          (if es = [] then cause
           else cause @ [Lit ''; failed-publication cleanup also failed: ''] @ hd es @
             concat (map (\<lambda>m. Lit ''; '' # m) (tl es))))))"

definition archive_tmp_name :: "sha_fun \<Rightarrow> string \<Rightarrow> string \<Rightarrow> string" where
  "archive_tmp_name sha u key = ''.tmp-archive-'' @ hash_str (hash_of sha (map of_char key)) @ ''-'' @ u"

text \<open>What is under the name already: equal data is a success.\<close>

definition accept_existing ::
  "sha_fun \<Rightarrow> local_fs_archive \<Rightarrow> string \<Rightarrow> string \<Rightarrow> msg \<Rightarrow> msg \<Rightarrow> msg \<Rightarrow> bytes \<Rightarrow> content_hash \<Rightarrow> (disk, error, nat) op" where
  "accept_existing sha A key path operation differs collides data expected =
     bindS (read_regular_file A path operation) (\<lambda>existing.
     bindS (liftS (map_err (\<lambda>e. ArchiveFailure ([Lit ''archive key '', Dbg key] @ differs @ display e))
       (verify_sha256 sha existing expected))) (\<lambda>_.
     if existing \<noteq> data then failS (ArchiveFailure ([Lit ''archive key '', Dbg key] @ collides))
     else returnS (length data)))"

text \<open>From the temporary file to the verified publication.\<close>

definition verify_publication ::
  "sha_fun \<Rightarrow> local_fs_archive \<Rightarrow> string \<Rightarrow> bytes \<Rightarrow> content_hash \<Rightarrow> (disk, error, nat) op" where
  "verify_publication sha A final data expected =
     bindS (outcome (sync_directory A)) (\<lambda>s. case s of
       Inl e \<Rightarrow> bindS (cleanup_failed_publication A final (display e)) failS
     | Inr _ \<Rightarrow>
         bindS (outcome (read_regular_file A final [Lit ''verification read''])) (\<lambda>w. case w of
           Inl e \<Rightarrow> bindS (cleanup_failed_publication A final (display e)) failS
         | Inr written \<Rightarrow>
             (case verify_sha256 sha written expected of
                Inl e \<Rightarrow> bindS (cleanup_failed_publication A final
                  (Lit ''archive verification after publication failed: '' # display e)) failS
              | Inr _ \<Rightarrow> returnS (length data))))"

definition publish ::
  "sha_fun \<Rightarrow> local_fs_archive \<Rightarrow> string \<Rightarrow> string \<Rightarrow> string \<Rightarrow> bytes \<Rightarrow> content_hash \<Rightarrow> (disk, error, nat) op" where
  "publish sha A key tmp final data expected =
     bindS (write_new_file
       (\<lambda>e. Io [Lit ''archive open '', Str (lf_path A tmp), Lit '': '', Str (io_text e)])
       (\<lambda>e. Io [Lit ''archive write '', Str (lf_path A tmp), Lit '': '', Str (io_text e)])
       (\<lambda>e. Io [Lit ''archive sync '', Str (lf_path A tmp), Lit '': '', Str (io_text e)]) tmp data) (\<lambda>_.
     bindS (outcome (hard_link tmp final)) (\<lambda>r. case r of
       Inr _ \<Rightarrow> verify_publication sha A final data expected
     | Inl IoAlreadyExists \<Rightarrow>
         accept_existing sha A key final [Lit ''race read''] [Lit '' concurrently created with different data: '']
           [Lit '' concurrent content collision''] data expected
     | Inl e \<Rightarrow> failS (ArchiveFailure [Lit ''archive publish '', Str (lf_path A tmp), Lit '' -> '',
         Str (lf_path A final), Lit '': '', Str (io_text e)])))"

text \<open>The guard of the temporary file removes it on every way out.\<close>

definition with_temp_file :: "string \<Rightarrow> (disk, error, 'a) op \<Rightarrow> (disk, error, 'a) op" where
  "with_temp_file tmp m = (\<lambda>d. case m d of (r, d') \<Rightarrow> (r, snd (remove_file tmp d')))"

text \<open>A legacy blob counts only when it is this very payload; one that is not is left alone.\<close>

definition legacy_matches ::
  "sha_fun \<Rightarrow> local_fs_archive \<Rightarrow> string \<Rightarrow> bytes \<Rightarrow> content_hash \<Rightarrow> (disk, error, bool) op" where
  "legacy_matches sha A legacy data expected =
     bindS (path_exists legacy) (\<lambda>there.
     if \<not> there then returnS False
     else bindS (read_regular_file A legacy [Lit ''legacy read'']) (\<lambda>existing.
       returnS (is_ok (verify_sha256 sha existing expected) \<and> existing = data)))"

definition archive_write ::
  "sha_fun \<Rightarrow> local_fs_archive \<Rightarrow> string \<Rightarrow> string \<Rightarrow> bytes \<Rightarrow> content_hash \<Rightarrow> (disk, error, nat) op" where
  "archive_write sha A u key data expected =
     (if \<not> fits_u64 (length data) then failS (ArchiveFailure [Lit ''archive payload length exceeds u64''])
      else
        bindS (liftS (map_err (\<lambda>e. ArchiveFailure (Lit ''refusing to archive corrupt payload: '' # display e))
          (verify_sha256 sha data expected))) (\<lambda>_.
        bindS (liftS (archive_path_for sha key)) (\<lambda>final.
        bindS (path_exists final) (\<lambda>there.
        if there
        then accept_existing sha A key final [Lit ''existing read''] [Lit '' already contains different data: '']
          [Lit '' content collision''] data expected
        else
          bindS (liftS (legacy_path_for sha key)) (\<lambda>legacy.
          bindS (legacy_matches sha A legacy data expected) (\<lambda>m.
          if m then returnS (length data)
          else with_temp_file (archive_tmp_name sha u key)
            (publish sha A key (archive_tmp_name sha u key) final data expected)))))))"

definition archive_read :: "sha_fun \<Rightarrow> local_fs_archive \<Rightarrow> string \<Rightarrow> (disk, error, bytes) op" where
  "archive_read sha A key =
     bindS (liftS (archive_path_for sha key)) (\<lambda>path.
     bindS (outcome (symlink_metadata path)) (\<lambda>m. case m of
       Inr _ \<Rightarrow> read_regular_file A path [Lit ''read for key '', Dbg key]
     | Inl IoNotFound \<Rightarrow>
         bindS (liftS (legacy_path_for sha key)) (\<lambda>legacy.
         read_regular_file A legacy [Lit ''legacy read for key '', Dbg key])
     | Inl e \<Rightarrow> failS (Io [Lit ''archive metadata read '', Str (lf_path A path), Lit '': '', Str (io_text e)])))"

definition archive_verify :: "sha_fun \<Rightarrow> local_fs_archive \<Rightarrow> string \<Rightarrow> content_hash \<Rightarrow> (disk, error, unit) op" where
  "archive_verify sha A key expected =
     bindS (archive_read sha A key) (\<lambda>data. liftS (verify_sha256 sha data expected))"

definition remove_candidate :: "local_fs_archive \<Rightarrow> string \<Rightarrow> (disk, error, bool) op" where
  "remove_candidate A p =
     bindS (outcome (remove_file p)) (\<lambda>r. case r of
       Inr _ \<Rightarrow> returnS True
     | Inl IoNotFound \<Rightarrow> returnS False
     | Inl e \<Rightarrow> failS (Io [Lit ''archive delete '', Str (lf_path A p), Lit '': '', Str (io_text e)]))"

definition archive_delete :: "sha_fun \<Rightarrow> local_fs_archive \<Rightarrow> string \<Rightarrow> (disk, error, unit) op" where
  "archive_delete sha A key =
     bindS (liftS (archive_path_for sha key)) (\<lambda>path.
     bindS (liftS (legacy_path_for sha key)) (\<lambda>legacy.
     bindS (remove_candidate A path) (\<lambda>a.
     bindS (remove_candidate A legacy) (\<lambda>b.
     if a \<or> b then sync_directory A else returnS ()))))"

fun exists_any :: "local_fs_archive \<Rightarrow> string list \<Rightarrow> (disk, error, bool) op" where
  "exists_any A [] = returnS False"
| "exists_any A (p # ps) =
     bindS (outcome (symlink_metadata p)) (\<lambda>m. case m of
       Inr x \<Rightarrow>
         if regular x then returnS True
         else failS (ArchiveFailure [Lit ''archive '', Str (lf_path A p), Lit '' is not a regular file''])
     | Inl IoNotFound \<Rightarrow> exists_any A ps
     | Inl e \<Rightarrow> failS (Io [Lit ''reading archive metadata '', Str (lf_path A p), Lit '': '', Str (io_text e)]))"

definition archive_has :: "sha_fun \<Rightarrow> local_fs_archive \<Rightarrow> string \<Rightarrow> (disk, error, bool) op" where
  "archive_has sha A key =
     bindS (liftS (archive_path_for sha key)) (\<lambda>path.
     bindS (liftS (legacy_path_for sha key)) (\<lambda>legacy.
     exists_any A [path, legacy]))"

fun sum_blobs :: "string list \<Rightarrow> nat \<Rightarrow> (disk, error, nat) op" where
  "sum_blobs [] acc = returnS acc"
| "sum_blobs (p # ps) acc =
     bindS (outcome (symlink_metadata p)) (\<lambda>m.
     sum_blobs ps (case m of
       Inr x \<Rightarrow> if regular x \<and> \<not> starts_with ''.tmp-archive-'' p then saturating_add_u64 acc (file_size x) else acc
     | Inl _ \<Rightarrow> acc))"

definition archive_total_bytes :: "(disk, error, nat) op" where
  "archive_total_bytes =
     bindS (outcome read_dir) (\<lambda>r. case r of Inl _ \<Rightarrow> returnS 0 | Inr ps \<Rightarrow> sum_blobs ps 0)"

subsection \<open>Names an operation leaves alone\<close>

lemma keeps_on_err [keeps_intros]: "keeps P m \<Longrightarrow> keeps P (on_err m f)"
  by (auto simp: keeps_def on_err_def split: prod.splits)

lemma keeps_outcome [keeps_intros]: "keeps P m \<Longrightarrow> keeps P (outcome m)"
  by (auto simp: keeps_def outcome_def split: prod.splits)

lemma keeps_case_sum [keeps_intros]:
  "(\<And>e. keeps P (f e)) \<Longrightarrow> (\<And>a. keeps P (g a)) \<Longrightarrow> keeps P (case x of Inl e \<Rightarrow> f e | Inr a \<Rightarrow> g a)"
  by (cases x) auto

lemma keeps_case_io [keeps_intros]:
  "keeps P m \<Longrightarrow> keeps P n \<Longrightarrow> (\<And>t. keeps P (f t)) \<Longrightarrow>
   keeps P (case x of IoNotFound \<Rightarrow> m | IoAlreadyExists \<Rightarrow> n | IoOther t \<Rightarrow> f t)"
  by (cases x) auto

lemma keeps_look [keeps_intros]: "keeps (same_on S d0) (os_look f)"
  unfolding keeps_def by (metis os_look_step prod.collapse same_on_quiet same_on_trans)

lemmas look_defs = symlink_metadata_def read_file_def sync_all_def open_dir_def read_dir_def

lemma keeps_metadata [keeps_intros]: "keeps (same_on S d0) (symlink_metadata p)"
  unfolding symlink_metadata_def by (rule keeps_look)

lemma keeps_read_file [keeps_intros]: "keeps (same_on S d0) (read_file p)"
  unfolding read_file_def by (rule keeps_look)

lemma keeps_path_exists [keeps_intros]: "keeps (same_on S d0) (path_exists p)"
  unfolding keeps_def by (metis path_exists_step prod.collapse same_on_quiet same_on_trans)

lemma keeps_sync_directory [keeps_intros]: "keeps (same_on S d0) (sync_directory A)"
  unfolding sync_directory_def open_dir_def sync_all_def by (intro keeps_intros)

lemma keeps_remove_file [keeps_intros]: "p \<notin> S \<Longrightarrow> keeps (same_on S d0) (remove_file p)"
proof (unfold keeps_def, intro allI impI)
  fix d assume "p \<notin> S" and s: "same_on S d0 d"
  then have "S - {p} = S" by auto
  then have "same_on S d (snd (remove_file p d))"
    using remove_file_step(2) [OF prod.collapse [symmetric] same_on_quiet [OF s], of p] by simp
  then show "same_on S d0 (snd (remove_file p d))" by (rule same_on_trans [OF s])
qed

lemma keeps_read_regular [keeps_intros]: "keeps (same_on S d0) (read_regular_file A p w)"
  unfolding read_regular_file_def by (intro keeps_intros)

lemma keeps_cleanup [keeps_intros]: "p \<notin> S \<Longrightarrow> keeps (same_on S d0) (cleanup_failed_publication A p w)"
  unfolding cleanup_failed_publication_def Let_def by (intro keeps_intros)

lemma keeps_verify_publication [keeps_intros]:
  "final \<notin> S \<Longrightarrow> keeps (same_on S d0) (verify_publication sha A final data h)"
  unfolding verify_publication_def by (intro keeps_intros) auto

lemma keeps_accept_existing [keeps_intros]: "keeps (same_on S d0) (accept_existing sha A key p w x y data h)"
  unfolding accept_existing_def by (intro keeps_intros)

lemma keeps_legacy_matches [keeps_intros]: "keeps (same_on S d0) (legacy_matches sha A p data h)"
  unfolding legacy_matches_def by (intro keeps_intros)

lemma keeps_step: "keeps (same_on S d) m \<Longrightarrow> m d = (r, d') \<Longrightarrow> undisturbed S d \<Longrightarrow> same_on S d d'"
  by (erule keepsE) (auto intro: same_on_refl)

subsection \<open>What each step leaves under the published name\<close>

lemma read_regular_file_Inr:
  assumes "read_regular_file A p w d = (Inr x, d')" and "undisturbed S d" and "p \<in> S"
  shows "node_at d p = Some (RegularFile x)"
proof -
  from assms(1) obtain n d1 where 1: "symlink_metadata p d = (Inr n, d1)" and r: "regular n"
    and 2: "read_file p d1 = (Inr x, d')"
    unfolding read_regular_file_def by (auto simp: bindS_Inr on_err_Inr split: if_splits)
  note s = symlink_metadata_step [OF 1 assms(2,3)]
  have "resolved (node_at d1 p) = Some (RegularFile x)"
    by (rule read_file_step(2) [OF 2 same_on_quiet [OF s(1)] assms(3)]) simp
  moreover have "node_at d1 p = Some n" using s(2) same_on_at [OF s(1) assms(3)] by simp
  ultimately have "n = RegularFile x" using r by (cases n) (auto simp: regular_def)
  then show ?thesis using s(2) by simp
qed

lemma accept_existing_Inr:
  assumes "accept_existing sha A key p w x y data h d = (Inr n, d')" and "undisturbed S d" and "p \<in> S"
  shows "n = length data" and "node_at d p = Some (RegularFile data)"
proof -
  from assms(1) obtain b d1 where r: "read_regular_file A p w d = (Inr b, d1)" and b: "b = data" and n: "n = length data"
    unfolding accept_existing_def by (auto simp: bindS_Inr split: if_splits)
  show "n = length data" by (rule n)
  show "node_at d p = Some (RegularFile data)" using read_regular_file_Inr [OF r assms(2,3)] b by simp
qed

lemma cleanup_step:
  assumes "cleanup_failed_publication A p w d = (r, d')" and "undisturbed S d" and "p \<in> S"
  shows "node_at d' p = node_at d p \<or> node_at d' p = None"
proof -
  obtain r1 d1 where 1: "remove_file p d = (r1, d1)" by fastforce
  obtain r2 d2 where 2: "sync_directory A d1 = (r2, d2)" by fastforce
  note s = remove_file_step [OF 1 assms(2)]
  have "d' = d2" using assms(1) 1 2 by (simp add: cleanup_failed_publication_def bindS_def outcome_def Let_def)
  moreover have "node_at d2 p = node_at d1 p"
    by (rule same_on_at [OF keeps_step [OF keeps_sync_directory 2 s(1)] assms(3)])
  moreover have "node_at d1 p = node_at d p \<or> node_at d1 p = None"
    using s(3) [OF assms(3)] s(4) [THEN same_on_at, OF _ assms(3)] by (cases r1) auto
  ultimately show ?thesis by simp
qed

lemma cleanup_fails:
  "bindS (cleanup_failed_publication A p w) failS d = (r, d') \<Longrightarrow>
   \<exists>x e. cleanup_failed_publication A p w d = (x, d') \<and> r = Inl e"
  by (auto simp: bindS_def split: prod.splits sum.splits)

lemma verify_publication_step:
  assumes run: "verify_publication sha A p data h d = (r, d')" and u: "undisturbed S d" and p: "p \<in> S"
  shows "node_at d' p = node_at d p \<or> node_at d' p = None"
    and "r = Inr n \<Longrightarrow> n = length data \<and> node_at d' p = node_at d p"
proof -
  obtain r1 d1 where 1: "sync_directory A d = (r1, d1)" by fastforce
  note s1 = keeps_step [OF keeps_sync_directory 1 u]
  obtain r2 d2 where 2: "read_regular_file A p [Lit ''verification read''] d1 = (r2, d2)" by fastforce
  note s2 = keeps_step [OF keeps_read_regular 2 same_on_quiet [OF s1]]
  have same: "node_at d1 p = node_at d p" "node_at d2 p = node_at d p"
    using same_on_at [OF s1 p] same_on_at [OF s2 p] by auto
  have gone: "(node_at d' p = node_at d p \<or> node_at d' p = None) \<and> \<not> is_ok r"
    if "bindS (cleanup_failed_publication A p w) failS x = (r, d')" and "undisturbed S x" and "node_at x p = node_at d p"
    for w x
    using cleanup_fails [OF that(1)] cleanup_step [OF _ that(2) p] that(3) by fastforce
  have "((node_at d' p = node_at d p \<or> node_at d' p = None) \<and> \<not> is_ok r) \<or>
     (d' = d2 \<and> r = Inr (length data))"
  proof (cases r1)
    case (Inl e)
    then have c: "bindS (cleanup_failed_publication A p (display e)) failS d1 = (r, d')"
      using run 1 by (simp add: verify_publication_def bindS_def outcome_def)
    then show ?thesis using gone [OF c same_on_quiet [OF s1] same(1)] by simp
  next
    case r1: (Inr a)
    show ?thesis
    proof (cases r2)
      case (Inl e)
      then have c: "bindS (cleanup_failed_publication A p (display e)) failS d2 = (r, d')"
        using run 1 2 r1 by (simp add: verify_publication_def bindS_def outcome_def)
      then show ?thesis using gone [OF c same_on_quiet [OF s2] same(2)] by simp
    next
      case r2: (Inr b)
      show ?thesis
      proof (cases "verify_sha256 sha b h")
        case (Inl e)
        then have c: "bindS (cleanup_failed_publication A p
            (Lit ''archive verification after publication failed: '' # display e)) failS d2 = (r, d')"
          using run 1 2 r1 r2 by (simp add: verify_publication_def bindS_def outcome_def)
        then show ?thesis using gone [OF c same_on_quiet [OF s2] same(2)] by simp
      next
        case (Inr c)
        then show ?thesis using run 1 2 r1 r2 by (simp add: verify_publication_def bindS_def outcome_def)
      qed
    qed
  qed
  then show "node_at d' p = node_at d p \<or> node_at d' p = None"
    and "r = Inr n \<Longrightarrow> n = length data \<and> node_at d' p = node_at d p"
    using same(2) by auto
qed

lemma keeps_undisturbed_call: "keeps (undisturbed S) (os_call act part)"
  unfolding keeps_def
  by (auto simp: os_call_def undisturbed_def Let_def split: list.splits prod.splits option.splits)

lemma keeps_undisturbed [keeps_intros]:
  "keeps (undisturbed S) (os_look f)" "keeps (undisturbed S) (os_change g)" "keeps (undisturbed S) (write_all p data)"
  unfolding os_look_def os_change_def write_all_def by (rule keeps_undisturbed_call)+

lemma keeps_undisturbed_ops [keeps_intros]:
  "keeps (undisturbed S) (remove_file p)" "keeps (undisturbed S) (hard_link p q)" "keeps (undisturbed S) (create_new p)"
  "keeps (undisturbed S) (sync_directory A)" "keeps (undisturbed S) (read_regular_file A p w)"
  unfolding remove_file_def hard_link_def create_new_def sync_directory_def read_regular_file_def
    open_dir_def sync_all_def symlink_metadata_def read_file_def
  by (intro keeps_intros)+

lemma keeps_undisturbed_publication [keeps_intros]:
  "keeps (undisturbed S) (verify_publication sha A final data h)"
  unfolding verify_publication_def cleanup_failed_publication_def Let_def by (intro keeps_intros)

lemma publish_step:
  assumes run: "publish sha A key tmp final data h d = (r, d')" and u: "undisturbed S d"
    and S: "tmp \<in> S" "final \<in> S" and neq: "tmp \<noteq> final"
  shows "undisturbed S d'" and "same_on (S - {tmp, final}) d d'"
    and "node_at d final \<noteq> None \<Longrightarrow> node_at d' final = node_at d final"
    and "node_at d final = None \<Longrightarrow> node_at d' final = None \<or> node_at d' final = Some (RegularFile data)"
    and "r = Inr n \<Longrightarrow> n = length data \<and> node_at d' final = Some (RegularFile data)"
proof -
  define W where "W = write_new_file
       (\<lambda>e. Io [Lit ''archive open '', Str (lf_path A tmp), Lit '': '', Str (io_text e)])
       (\<lambda>e. Io [Lit ''archive write '', Str (lf_path A tmp), Lit '': '', Str (io_text e)])
       (\<lambda>e. Io [Lit ''archive sync '', Str (lf_path A tmp), Lit '': '', Str (io_text e)]) tmp data"
  define X where "X = accept_existing sha A key final [Lit ''race read''] [Lit '' concurrently created with different data: '']
           [Lit '' concurrent content collision''] data h"
  obtain r1 d1 where 1: "W d = (r1, d1)" by fastforce
  obtain r2 d2 where 2: "hard_link tmp final d1 = (r2, d2)" by fastforce
  obtain r3 d3 where 3: "verify_publication sha A final data h d2 = (r3, d3)" by fastforce
  obtain r4 d4 where 4: "X d2 = (r4, d4)" by fastforce
  note s1 = write_new_file_step [OF 1[unfolded W_def] u S(1)]
  note s2 = hard_link_step [OF 2 s1(1) S]
  note s3 = verify_publication_step [OF 3 s2(1) S(2)]
  note s4 = keeps_step [OF keeps_accept_existing 4[unfolded X_def] s2(1)]
  have cases: "(d' = d1 \<and> \<not> is_ok r) \<or> (d' = d3 \<and> r = r3 \<and> r1 = Inr () \<and> r2 = Inr ()) \<or>
     (d' = d4 \<and> r = r4 \<and> (\<exists>x. r2 = Inl x)) \<or> (d' = d2 \<and> (\<exists>x. r2 = Inl x) \<and> \<not> is_ok r)"
    using run 1 2 3 4 unfolding publish_def W_def [symmetric] X_def [symmetric]
    by (cases r1; cases r2) (auto simp: bindS_def outcome_def split: io_error.splits)
  have f1: "node_at d1 final = node_at d final" by (rule same_on_at [OF s1(2)]) (use S neq in auto)
  have f2: "node_at d2 final = node_at d final" if "r2 = Inl x" for x
    using s2(4) [OF that, THEN same_on_at, OF S(2)] f1 by simp
  have f4: "node_at d4 final = node_at d2 final" by (rule same_on_at [OF s4 S(2)])
  have new: "node_at d final = None \<and> node_at d2 final = Some (RegularFile data)" if "r1 = Inr ()" "r2 = Inr ()"
    using s1(3) s2(3) that f1 by simp
  have u3: "undisturbed S d3" by (rule keepsE [OF keeps_undisturbed_publication 3 s2(1)])
  show "undisturbed S d'" using cases s1(1) s2(1) u3 same_on_quiet [OF s4] by auto
  let ?T = "S - {tmp, final}"
  have t1: "same_on ?T d d1" by (rule same_on_less [OF s1(2)]) auto
  have t2: "same_on ?T d d2" by (rule same_on_trans [OF t1]) (rule same_on_less [OF s2(2)], auto)
  have t3: "same_on ?T d d3"
    by (rule same_on_trans [OF t2]) (rule keeps_step [OF keeps_verify_publication 3], use t2 in \<open>auto simp: same_on_def\<close>)
  have t4: "same_on ?T d d4" by (rule same_on_trans [OF t2]) (rule same_on_less [OF s4], auto)
  show "same_on ?T d d'" using cases t1 t2 t3 t4 by auto
  show "node_at d' final = node_at d final" if "node_at d final \<noteq> None"
    using cases f1 f2 f4 new that by auto
  show "node_at d' final = None \<or> node_at d' final = Some (RegularFile data)" if "node_at d final = None"
    using cases f1 f2 f4 new s3(1) that by auto
  show "n = length data \<and> node_at d' final = Some (RegularFile data)" if "r = Inr n"
    using cases f4 new s3(2) accept_existing_Inr [where d = d2 and d' = d4 and S = S, OF _ s2(1) S(2)] 4 that
    unfolding X_def by auto
qed

subsection \<open>Publication is all or nothing\<close>

lemma starts_with_append [simp]: "starts_with p (p @ s)"
  by (simp add: starts_with_def)

lemma blob_not_tmp: "archive_tmp_name sha u k \<noteq> blob_name sha key"
  by (simp add: archive_tmp_name_def blob_name_def)

lemma legacy_not_tmp:
  assumes "archive_validate_key key = Inr x"
  shows "archive_tmp_name sha u k \<noteq> flattened key"
proof
  assume "archive_tmp_name sha u k = flattened key"
  then have "starts_with ''.tmp-archive-'' (flattened key)"
    unfolding archive_tmp_name_def by (metis starts_with_append)
  then show False using assms by (auto simp: archive_validate_key_def bindr_Inr_iff split: if_splits)
qed

text \<open>The last stage of a write: publish under the guard of the temporary file.\<close>

lemma guarded_publish:
  assumes run: "with_temp_file tmp (publish sha A key tmp final data h) d = (r, d')" and u: "undisturbed S d"
    and S: "tmp \<in> S" "final \<in> S" and neq: "tmp \<noteq> final"
  shows "same_on (S - {tmp, final}) d d'"
    and "node_at d final \<noteq> None \<Longrightarrow> node_at d' final = node_at d final"
    and "node_at d final = None \<Longrightarrow> node_at d' final = None \<or> node_at d' final = Some (RegularFile data)"
    and "r = Inr n \<Longrightarrow> n = length data \<and> node_at d' final = Some (RegularFile data)"
proof -
  obtain r1 d1 where 1: "publish sha A key tmp final data h d = (r1, d1)" by fastforce
  note s1 = publish_step [OF 1 u S neq]
  obtain r2 d2 where 2: "remove_file tmp d1 = (r2, d2)" by fastforce
  note s2 = remove_file_step [OF 2 s1(1)]
  have d: "d' = d2" "r = r1" using run 1 2 by (auto simp: with_temp_file_def)
  have f: "node_at d2 final = node_at d1 final" by (rule same_on_at [OF s2(2)]) (use S neq in auto)
  show "same_on (S - {tmp, final}) d d'"
    unfolding d by (rule same_on_trans [OF s1(2)]) (rule same_on_less [OF s2(2)], auto)
  show "node_at d final \<noteq> None \<Longrightarrow> node_at d' final = node_at d final"
    and "node_at d final = None \<Longrightarrow> node_at d' final = None \<or> node_at d' final = Some (RegularFile data)"
    and "r = Inr n \<Longrightarrow> n = length data \<and> node_at d' final = Some (RegularFile data)"
    unfolding d f by (rule s1(3), assumption) (rule s1(4), assumption, rule s1(5), assumption)
qed

lemma legacy_matches_Inr:
  assumes "legacy_matches sha A p data h d = (Inr True, d')" and "undisturbed S d" and "p \<in> S"
  shows "node_at d p = Some (RegularFile data)"
proof -
  from assms(1) obtain b d1 d2 where 1: "path_exists p d = (Inr b, d1)"
    and 2: "read_regular_file A p [Lit ''legacy read''] d1 = (Inr data, d2)"
    unfolding legacy_matches_def by (auto simp: bindS_Inr split: if_splits)
  note s = path_exists_step [OF 1 assms(2)]
  show ?thesis using read_regular_file_Inr [OF 2 same_on_quiet [OF s] assms(3)] same_on_at [OF s assms(3)] by simp
qed

text \<open>
  C37: A write to the archive never changes a blob that is there, under the hashed name, the
  legacy name or any other, whatever call fails; under a free name it leaves nothing or exactly
  the payload. When it reports success the payload has the expected hash and is stored in full
  under the hashed name, or was already stored under the legacy name. (No other process
  touches the names during the write.)
\<close>

theorem archive_write_all_or_nothing:
  assumes run: "archive_write sha A u key data expected d = (r, d')" and quiet: "undisturbed S d"
    and S: "blob_name sha key \<in> S" "flattened key \<in> S" "archive_tmp_name sha u key \<in> S"
  shows "(\<forall>p\<in>S. p \<noteq> archive_tmp_name sha u key \<and> node_at d p \<noteq> None \<longrightarrow> node_at d' p = node_at d p) \<and>
    (\<forall>p\<in>S. p \<noteq> archive_tmp_name sha u key \<and> p \<noteq> blob_name sha key \<longrightarrow> node_at d' p = node_at d p) \<and>
    (node_at d (blob_name sha key) = None \<longrightarrow>
       node_at d' (blob_name sha key) = None \<or> node_at d' (blob_name sha key) = Some (RegularFile data)) \<and>
    (\<forall>n. r = Inr n \<longrightarrow> n = length data \<and> hash_of sha data = expected \<and>
       (node_at d' (blob_name sha key) = Some (RegularFile data) \<or>
        node_at d' (flattened key) = Some (RegularFile data)))"
  (is "?old \<and> ?others \<and> ?fresh \<and> ?ok")
proof (cases "\<not> fits_u64 (length data) \<or> sha data \<noteq> expected \<or> archive_validate_key key \<noteq> Inr ()")
  case True
  then have "d' = d \<and> \<not> is_ok r"
    using run by (cases "archive_validate_key key")
      (auto simp: archive_write_def archive_path_for_def bindS_def verify_sha256_def hash_of_def Let_def split: if_splits)
  then show ?thesis by auto
next
  case False
  let ?f = "blob_name sha key" and ?l = "flattened key" and ?t = "archive_tmp_name sha u key"
  define X where "X = accept_existing sha A key ?f [Lit ''existing read''] [Lit '' already contains different data: '']
          [Lit '' content collision''] data expected"
  define P where "P = with_temp_file ?t (publish sha A key ?t ?f data expected)"
  from False have v: "verify_sha256 sha data expected = Inr ()" and hash: "hash_of sha data = expected"
    and key: "archive_validate_key key = Inr ()" and len: "fits_u64 (length data)" by (auto simp: verify_sha256_def hash_of_def)
  obtain b d1 where 1: "path_exists ?f d = (Inr b, d1)" using path_exists_total by blast
  note s1 = path_exists_step [OF 1 quiet]
  note at1 = same_on_at [OF s1]
  obtain m d2 where 2: "legacy_matches sha A ?l data expected d1 = (m, d2)" by fastforce
  note s2 = same_on_trans [OF s1 keeps_step [OF keeps_legacy_matches 2 same_on_quiet [OF s1]]]
  have tneq: "?t \<noteq> ?f" "?t \<noteq> ?l" by (rule blob_not_tmp) (rule legacy_not_tmp [OF key])
  have "(b \<and> X d1 = (r, d')) \<or> (d' = d2 \<and> \<not> is_ok r) \<or> (m = Inr True \<and> r = Inr (length data) \<and> d' = d2) \<or>
    P d2 = (r, d')"
    using run 1 2 v key len unfolding archive_write_def P_def X_def
    by (cases b; cases m) (auto simp: archive_path_for_def legacy_path_for_def bindS_def split: if_splits)
  then show ?thesis
  proof (elim disjE conjE)
    assume x: "X d1 = (r, d')"
    have s: "same_on S d d'"
      by (rule same_on_trans [OF s1 keeps_step [OF keeps_accept_existing x[unfolded X_def] same_on_quiet [OF s1]]])
    have "n = length data \<and> node_at d ?f = Some (RegularFile data)" if "r = Inr n" for n
      using accept_existing_Inr [OF x[unfolded X_def that] same_on_quiet [OF s1] S(1)] at1 [OF S(1)] by simp
    then show ?thesis using same_on_at [OF s] S hash by auto
  next
    assume "d' = d2" and "\<not> is_ok r"
    then show ?thesis using same_on_at [OF s2] S by auto
  next
    assume m: "m = Inr True" and "r = Inr (length data)" and d: "d' = d2"
    moreover have "node_at d ?l = Some (RegularFile data)"
      using legacy_matches_Inr [OF 2[unfolded m] same_on_quiet [OF s1] S(2)] at1 [OF S(2)] by simp
    ultimately show ?thesis using same_on_at [OF s2] S hash by auto
  next
    assume x: "P d2 = (r, d')"
    note g = guarded_publish [OF x[unfolded P_def] same_on_quiet [OF s2] S(3,1) tneq(1)]
    note at2 = same_on_at [OF s2]
    have "node_at d' p = node_at d p" if "p \<in> S" "p \<noteq> ?t" "p \<noteq> ?f" for p
      using same_on_at [OF g(1), of p] at2 [of p] that by simp
    then show ?thesis using g(2-4) at2 [OF S(1)] hash S by auto
  qed
qed

definition demo_archive :: local_fs_archive where
  "demo_archive = \<lparr>lf_id = ''cold'', lf_root = ''/cold''\<rparr>"

definition demo_sha :: sha_fun where
  "demo_sha data = replicate 31 0 @ [of_nat (length data)]"

theorem archive_write_all_or_nothing_witness:
  "fst (archive_write demo_sha demo_archive ''u'' ''o/1'' [7, 8] (demo_sha [7, 8]) \<lparr>entries = [], events = []\<rparr>) = Inr 2 \<and>
   (node_at (snd (archive_write demo_sha demo_archive ''u'' ''o/1'' [7, 8] (demo_sha [7, 8]) \<lparr>entries = [], events = []\<rparr>))
      (blob_name demo_sha ''o/1'') = Some (RegularFile [7, 8]) \<or>
    node_at (snd (archive_write demo_sha demo_archive ''u'' ''o/1'' [7, 8] (demo_sha [7, 8]) \<lparr>entries = [], events = []\<rparr>))
      (flattened ''o/1'') = Some (RegularFile [7, 8]))"
proof -
  let ?x = "archive_write demo_sha demo_archive ''u'' ''o/1'' [7, 8] (demo_sha [7, 8]) \<lparr>entries = [], events = []\<rparr>"
  have ok: "fst ?x = Inr 2" by code_simp
  then have run: "?x = (Inr 2, snd ?x)" by (metis prod.collapse)
  have "undisturbed UNIV \<lparr>entries = [], events = []\<rparr>" by (simp add: undisturbed_def)
  from archive_write_all_or_nothing [OF run this UNIV_I UNIV_I UNIV_I, THEN conjunct2, THEN conjunct2, THEN conjunct2] ok
  show ?thesis by simp
qed

subsection \<open>Reading back and deleting\<close>

text \<open>The file a read of the key returns: the hashed name first, then the legacy name.\<close>

definition archived_at :: "sha_fun \<Rightarrow> disk \<Rightarrow> string \<Rightarrow> node option" where
  "archived_at sha d key =
     (case node_at d (blob_name sha key) of Some x \<Rightarrow> Some x | None \<Rightarrow> node_at d (flattened key))"

lemma archive_read_Inr:
  assumes "archive_read sha A key d = (Inr data, d')" and "undisturbed S d"
    and "blob_name sha key \<in> S" and "flattened key \<in> S"
  shows "archived_at sha d key = Some (RegularFile data)"
proof -
  obtain m d1 where 1: "symlink_metadata (blob_name sha key) d = (m, d1)" by fastforce
  have key: "archive_validate_key key = Inr ()"
    using assms(1) by (auto simp: archive_read_def bindS_Inr archive_path_for_def bindr_Inr_iff)
  have 2: "(\<exists>x. m = Inr x \<and> read_regular_file A (blob_name sha key) [Lit ''read for key '', Dbg key] d1 = (Inr data, d')) \<or>
      (m = Inl IoNotFound \<and> read_regular_file A (flattened key) [Lit ''legacy read for key '', Dbg key] d1 = (Inr data, d'))"
    using assms(1) 1 key unfolding archive_read_def
    by (cases m) (simp_all add: bindS_def outcome_def archive_path_for_def legacy_path_for_def split: io_error.splits)
  note s = symlink_metadata_step [OF 1 assms(2,3)]
  note rd = read_regular_file_Inr [OF _ same_on_quiet [OF s(1)]]
  from 2 show ?thesis
  proof (elim disjE exE conjE)
    fix x assume "m = Inr x" and "read_regular_file A (blob_name sha key) [Lit ''read for key '', Dbg key] d1 = (Inr data, d')"
    then show ?thesis using rd [OF _ assms(3)] same_on_at [OF s(1) assms(3)] by (simp add: archived_at_def)
  next
    assume "m = Inl IoNotFound"
      and "read_regular_file A (flattened key) [Lit ''legacy read for key '', Dbg key] d1 = (Inr data, d')"
    then show ?thesis using rd [OF _ assms(4)] same_on_at [OF s(1) assms(4)] s(3) by (simp add: archived_at_def)
  qed
qed

lemma remove_candidate_step:
  assumes "remove_candidate A p d = (Inr b, d')" and "undisturbed S d"
  shows "undisturbed S d'" and "same_on (S - {p}) d d'" and "p \<in> S \<Longrightarrow> node_at d' p = None"
proof -
  obtain r d1 where r: "remove_file p d = (r, d1)" by fastforce
  then have 1: "remove_file p d = (r, d')" and 2: "r = Inr () \<or> r = Inl IoNotFound"
    using assms(1) unfolding remove_candidate_def
    by (cases r; auto simp: bindS_def outcome_def split: io_error.splits)+
  note s = remove_file_step [OF 1 assms(2)]
  show "undisturbed S d'" "same_on (S - {p}) d d'" by (rule s)+
  show "p \<in> S \<Longrightarrow> node_at d' p = None" using 2 s(3,5) by auto
qed

lemma exists_any_gone:
  "exists_any A ps d = (Inr b, d') \<Longrightarrow> undisturbed S d \<Longrightarrow> set ps \<subseteq> S \<Longrightarrow> \<forall>p\<in>set ps. node_at d p = None \<Longrightarrow> \<not> b"
proof (induction ps arbitrary: d)
  case (Cons p ps)
  obtain m d1 where 1: "symlink_metadata p d = (m, d1)" by fastforce
  note s = symlink_metadata_step [OF 1 Cons.prems(2) subsetD [OF Cons.prems(3), of p, simplified]]
  have m: "m \<noteq> Inr x" for x using s(2) Cons.prems(4) by auto
  with Cons.prems(1) 1 have "exists_any A ps d1 = (Inr b, d')"
    by (cases m) (auto simp: bindS_def outcome_def split: io_error.splits)
  moreover have "\<forall>q\<in>set ps. node_at d1 q = None" using same_on_at [OF s(1)] Cons.prems(3,4) by auto
  ultimately show ?case using Cons.IH same_on_quiet [OF s(1)] Cons.prems(3) by auto
qed simp

lemma archive_has_gone:
  assumes "archive_has sha A key d = (Inr b, d')" and "undisturbed S d"
    and "blob_name sha key \<in> S" and "flattened key \<in> S"
    and "node_at d (blob_name sha key) = None" and "node_at d (flattened key) = None"
  shows "\<not> b"
proof -
  have "exists_any A [blob_name sha key, flattened key] d = (Inr b, d')"
    using assms(1) unfolding archive_has_def
    by (auto simp: bindS_Inr archive_path_for_def legacy_path_for_def bindr_Inr_iff simp del: exists_any.simps)
  then show ?thesis by (rule exists_any_gone [OF _ assms(2)]) (use assms in auto)
qed

text \<open>
  What a read of the archive returns is the file under the hashed name of its key, or, when
  there is none, under the legacy name. A deletion that reports success has removed both names
  and nothing else, and an existence query after it reports that the blob is gone.
\<close>

theorem archive_delete_complete:
  assumes run: "archive_delete sha A key d = (Inr x, d')" and quiet: "undisturbed S d"
    and S: "blob_name sha key \<in> S" "flattened key \<in> S"
  shows "archived_at sha d' key = None \<and>
    (\<forall>p\<in>S. p \<noteq> blob_name sha key \<and> p \<noteq> flattened key \<longrightarrow> node_at d' p = node_at d p) \<and>
    (\<forall>data d''. archive_read sha A key d' \<noteq> (Inr data, d'')) \<and>
    (\<forall>b d''. archive_has sha A key d' = (Inr b, d'') \<longrightarrow> \<not> b)"
proof -
  let ?f = "blob_name sha key" and ?l = "flattened key"
  from run obtain a b d1 d2 where 1: "remove_candidate A ?f d = (Inr a, d1)"
    and 2: "remove_candidate A ?l d1 = (Inr b, d2)"
    and 3: "(sync_directory A d2 = (Inr x, d')) \<or> d' = d2"
    unfolding archive_delete_def
    by (auto simp: bindS_Inr archive_path_for_def legacy_path_for_def bindr_Inr_iff split: if_splits)
  note s1 = remove_candidate_step [OF 1 quiet]
  note s2 = remove_candidate_step [OF 2 s1(1)]
  have s3: "same_on S d2 d'" using 3 keeps_step [OF keeps_sync_directory _ s2(1)] same_on_refl [OF s2(1)] by auto
  have l: "node_at d' ?l = None" using same_on_at [OF s3 S(2)] s2(3) [OF S(2)] by simp
  have "node_at d2 ?f = None"
    using same_on_at [OF s2(2), of ?f] s1(3) [OF S(1)] s2(3) [OF S(2)] S(1) by (cases "?f = ?l") auto
  then have f: "node_at d' ?f = None" using same_on_at [OF s3 S(1)] by simp
  have o: "node_at d' p = node_at d p" if "p \<in> S" "p \<noteq> ?f" "p \<noteq> ?l" for p
    using same_on_at [OF s3 that(1)] same_on_at [OF s2(2), of p] same_on_at [OF s1(2), of p] that by simp
  have gone: "archived_at sha d' key = None" using f l by (simp add: archived_at_def)
  have read: "archive_read sha A key d' \<noteq> (Inr data, d'')" for data d''
    using archive_read_Inr [OF _ same_on_quiet [OF s3] S] gone by auto
  have has: "\<not> b" if "archive_has sha A key d' = (Inr b, d'')" for b d''
    by (rule archive_has_gone [OF that same_on_quiet [OF s3] S f l])
  show ?thesis using gone o read has by auto
qed

definition demo_archived :: disk where
  "demo_archived = \<lparr>entries = [(blob_name demo_sha ''o/1'', RegularFile [7, 8]), (''o-1'', RegularFile [9])], events = []\<rparr>"

theorem archive_delete_complete_witness:
  "fst (archive_delete demo_sha demo_archive ''o/1'' demo_archived) = Inr () \<and>
   archived_at demo_sha (snd (archive_delete demo_sha demo_archive ''o/1'' demo_archived)) ''o/1'' = None"
proof -
  let ?x = "archive_delete demo_sha demo_archive ''o/1'' demo_archived"
  have ok: "fst ?x = Inr ()" by code_simp
  then have run: "?x = (Inr (), snd ?x)" by (metis prod.collapse)
  have "undisturbed UNIV demo_archived" by (simp add: undisturbed_def demo_archived_def)
  from archive_delete_complete [OF run this UNIV_I UNIV_I, THEN conjunct1] ok show ?thesis by simp
qed

text \<open>
  The hashed name of one key is itself an accepted key, and its legacy name is that very file: its
  deletion takes the blob of the other key with it. (With a digest of one byte, to keep the
  example small.)
\<close>

definition short_sha :: sha_fun where
  "short_sha data = [of_nat (length data)]"

definition demo_aliased :: disk where
  "demo_aliased = \<lparr>entries = [(''blob-03'', RegularFile [7, 8])], events = []\<rparr>"

lemma blob_key_alias:
  "fst (archive_read short_sha demo_archive ''o/1'' demo_aliased) = Inr [7, 8]"
  "fst (archive_delete short_sha demo_archive ''blob-03'' demo_aliased) = Inr ()"
  "fst (archive_read short_sha demo_archive ''o/1'' (snd (archive_delete short_sha demo_archive ''blob-03'' demo_aliased))) =
     Inl (NotFound [Lit ''archive file '', Str ''/cold/o-1''])"
  by code_simp+

end
