(* ===== verification/AuditTrail.thy ===== *)
theory AuditTrail
  imports Invariants
begin

section \<open>The audit trail (src/audit.rs)\<close>

text \<open>
  Replay of the audit table, the check of a replay, the actions it holds and its printed form.
  The texts of JSON strings and values are the serializer's, the parameters \<open>js\<close> and \<open>jv\<close>.
  The result: a replay of any reachable store passes the check and is the newest part of the
  matching entries.
\<close>

definition replay :: "store \<Rightarrow> uuid option \<Rightarrow> string option \<Rightarrow> nat \<Rightarrow> audit_entry list result" where
  "replay s oid act limit = replay_audit oid act limit s"

definition quoted_optional :: "(string \<Rightarrow> string) \<Rightarrow> string option \<Rightarrow> frag" where
  "quoted_optional js v = (case v of None \<Rightarrow> Lit ''-'' | Some x \<Rightarrow> Str (js x))"

definition format_entry :: "(string \<Rightarrow> string) \<Rightarrow> (json \<Rightarrow> string) \<Rightarrow> audit_entry \<Rightarrow> msg" where
  "format_entry js jv e =
     [Lit ''#'', Num (au_id e), Lit '' '', Num (au_ts_ms e), Lit '' actor='', Str (js (actor e)),
      Lit '' action='', Str (js (action e)),
      Lit '' object='', (case au_object_id e of Some i \<Rightarrow> Uid i | None \<Rightarrow> Lit ''-''),
      Lit '' gen='', (case au_generation e of Some g \<Rightarrow> Num (int g) | None \<Rightarrow> Lit ''-''),
      Lit '' state='', quoted_optional js (prior_state e), Lit ''->'', quoted_optional js (new_state e),
      Lit '' policy='', quoted_optional js (au_policy e),
      Lit '' attempt='', (case au_attempt_id e of Some i \<Rightarrow> Uid i | None \<Rightarrow> Lit ''-''),
      Lit '' node='', quoted_optional js (au_node e), Lit '' detail='', Str (jv (detail e))]"

fun verify_append_only :: "audit_entry list \<Rightarrow> bool result" where
  "verify_append_only (a # b # es) = (if au_id b \<ge> au_id a then Inr False else verify_append_only (b # es))"
| "verify_append_only _ = Inr True"

definition distinct_actions :: "audit_entry list \<Rightarrow> string list" where
  "distinct_actions es = remdups_adj (sort (map action es))"

subsection \<open>A replay is the newest part of the trail\<close>

lemma verify_append_only_iff: "verify_append_only es = Inr True \<longleftrightarrow> sorted_wrt (>) (map au_id es)"
proof (induction es rule: verify_append_only.induct)
  case (1 a b es)
  have "sorted_wrt (>) (map au_id (a # b # es)) \<longleftrightarrow> au_id b < au_id a \<and> sorted_wrt (>) (map au_id (b # es))"
    by (auto intro: less_trans)
  then show ?case using 1 by (simp add: not_le)
qed simp_all

lemma sorted_wrt_greater_take:
  assumes "sorted_wrt (<) (map f xs)"
  shows "sorted_wrt (>) (map f (take n (rev xs)))"
proof -
  have "sorted_wrt (>) (map f (rev xs))" using assms by (simp add: rev_map [symmetric] sorted_wrt_rev)
  then show ?thesis by (simp add: take_map [symmetric] sorted_wrt_take)
qed

lemma sort_key_filter_id:
  assumes "sorted_wrt (<) (map f xs)"
  shows "sort_key f (filter P xs) = filter P xs"
proof -
  from assms have "sorted (map f (filter P xs))"
    by (simp add: sorted_wrt_map sorted_wrt_filter sorted_wrt_mono_rel [of _ "\<lambda>x y. f x < f y"])
  then show ?thesis by (rule sort_key_id_if_sorted)
qed

lemma distinct_remdups_adj: "sorted xs \<Longrightarrow> distinct (remdups_adj xs)"
  by (induction xs rule: remdups_adj.induct) (auto simp: less_le)

definition audit_matches :: "uuid option \<Rightarrow> string option \<Rightarrow> audit_entry \<Rightarrow> bool" where
  "audit_matches oid act a \<longleftrightarrow>
     (case oid of None \<Rightarrow> True | Some i \<Rightarrow> au_object_id a = Some i) \<and>
     (case act of None \<Rightarrow> True | Some x \<Rightarrow> action a = x)"

text \<open>
  C40: A replay of a reachable store is the newest \<open>limit\<close> of the entries that match, newest
  first, it passes the append-only check, and its distinct actions are listed in order, each
  once.
\<close>

theorem replay_newest_first:
  assumes reach: "store_step\<^sup>*\<^sup>* empty_store s" and run: "replay s oid act limit = Inr es"
  shows "es = take limit (rev (filter (audit_matches oid act) (t_audit s))) \<and>
    verify_append_only es = Inr True \<and>
    set (distinct_actions es) = action ` set es \<and> sorted (distinct_actions es) \<and> distinct (distinct_actions es)"
proof -
  have sorted: "sorted_wrt (<) (map au_id (t_audit s))"
    using wf.run_keeps [OF reach store_wf_empty] by (simp add: store_wf_def numbered_def)
  have P: "(\<lambda>a. (case oid of None \<Rightarrow> True | Some i \<Rightarrow> au_object_id a = Some i) \<and>
      (case act of None \<Rightarrow> True | Some x \<Rightarrow> action a = x)) = audit_matches oid act"
    by (simp add: fun_eq_iff audit_matches_def)
  have es: "es = take limit (rev (filter (audit_matches oid act) (t_audit s)))"
    using run unfolding replay_def replay_audit_def P sort_key_filter_id [OF sorted]
    by (auto simp: bindr_Inr_iff sql_limit_def sql_u64_def split: if_splits)
  have "sorted_wrt (<) (map au_id (filter (audit_matches oid act) (t_audit s)))"
    using sorted by (simp add: sorted_wrt_map sorted_wrt_filter)
  then have "sorted_wrt (>) (map au_id es)" unfolding es by (rule sorted_wrt_greater_take)
  then show ?thesis using es
    by (simp add: verify_append_only_iff distinct_actions_def remdups_adj_set sorted_remdups_adj distinct_remdups_adj)
qed

definition audit_demo_store :: store where
  "audit_demo_store = snd (append_audit sample_audit (snd (append_audit sample_audit empty_store)))"

theorem replay_newest_first_witness:
  "\<exists>es. replay audit_demo_store None None 10 = Inr es \<and> map au_id es = [2, 1] \<and> verify_append_only es = Inr True"
proof -
  have s: "store_step\<^sup>*\<^sup>* empty_store audit_demo_store"
    unfolding audit_demo_store_def by (meson converse_rtranclp_into_rtranclp r_into_rtranclp store_step.intros(21))
  have ids: "map au_id (t_audit audit_demo_store) = [1, 2]"
    by (simp add: audit_demo_store_def append_audit_def insert_audit_row_def updS_apply sql_optional_u64_def sql_u64_def
        next_rowid_def sample_audit_def empty_store_def I64_MAX_def)
  have "\<exists>es. replay audit_demo_store None None 10 = Inr es"
    by (simp add: replay_def replay_audit_def sql_limit_def MAX_QUERY_LIMIT_def sql_u64_def I64_MAX_def)
  then obtain es where es: "replay audit_demo_store None None 10 = Inr es" by blast
  note r = replay_newest_first [OF s es]
  have "audit_matches None None = (\<lambda>_. True)" by (simp add: fun_eq_iff audit_matches_def)
  then have "map au_id es = take 10 (rev (map au_id (t_audit audit_demo_store)))"
    using r by (simp add: take_map rev_map)
  moreover have "verify_append_only es = Inr True" by (rule r [THEN conjunct2, THEN conjunct1])
  ultimately show ?thesis using es ids by (intro exI conjI) simp_all
qed

end
