(* ===== verification/Spec2Isabelle.thy ===== *)
theory Spec2Isabelle
  imports ServiceScenario Archives AuditTrail
begin

text \<open>Reclaim Fabric.\<close>

end
